(* ===== verification/Sito_Prelude.thy ===== *)
theory Sito_Prelude
  imports Main "HOL-Library.Word"
begin

text \<open>
  Shared vocabulary of the development: the machine types of the C++ sources, bytes of a
  \<^verbatim>\<open>std::string\<close>, decimal text of an unsigned integer (\<^verbatim>\<open>std::to_string\<close>), the substring
  search of \<^verbatim>\<open>std::string::find\<close>, and the generic list lemmas the components use.
  A \<^verbatim>\<open>std::string\<close> is a byte string and is modelled as a \<open>string\<close> (a list of \<open>char\<close>, each of
  them one byte); a \<^verbatim>\<open>std::size_t\<close> that counts bytes or elements is a \<open>nat\<close>; the fixed-width
  integers \<^verbatim>\<open>std::uint32_t\<close> and \<^verbatim>\<open>std::uint64_t\<close> are words.
\<close>

named_theorems lexical_defs \<open>definitions of the lexical classes of the identifiers\<close>
named_theorems enum_defs \<open>definitions of the closed-enumeration checks\<close>
named_theorems valid_defs \<open>definitions of the snapshot validity conjuncts\<close>
named_theorems decide_defs \<open>definitions of the per-event decisions\<close>
named_theorems apply_defs \<open>definitions of the per-event state changes\<close>

type_synonym u32 = "32 word"
type_synonym u64 = "64 word"

abbreviation UINT64_MAX :: u64 where
  "UINT64_MAX \<equiv> - 1"

abbreviation byte :: "char \<Rightarrow> nat" where
  "byte c \<equiv> (of_char c :: nat)"

abbreviation LF :: char where
  "LF \<equiv> CHR 0x0A"

abbreviation DQUOTE :: char where
  "DQUOTE \<equiv> CHR 0x22"

abbreviation BACKSLASH :: char where
  "BACKSLASH \<equiv> CHR 0x5C"

abbreviation NUL :: char where
  "NUL \<equiv> CHR 0x00"

section \<open>Decimal text\<close>

definition digit_char :: "nat \<Rightarrow> char" where
  "digit_char d = char_of (48 + d)"

fun dec :: "nat \<Rightarrow> string" where
  "dec n = (if n < 10 then [digit_char n] else dec (n div 10) @ [digit_char (n mod 10)])"

declare dec.simps [simp del]

text \<open>\<^verbatim>\<open>std::to_string\<close> of an unsigned value.\<close>

definition to_string :: "u64 \<Rightarrow> string" where
  "to_string v = dec (unat v)"

lemma byte_less: "byte c < 256"
proof -
  have "byte c = of_char c mod 2 ^ 8"
    by (simp add: of_char_mod_256)
  then show ?thesis
    by (metis mod_less_divisor of_char_mod_256 zero_less_numeral)
qed

lemma byte_inject: "byte c = byte d \<longleftrightarrow> c = d"
  by (rule of_char_eq_iff)

lemma byte_digit_char: "d < 10 \<Longrightarrow> byte (digit_char d) = 48 + d"
  by (simp add: digit_char_def)

lemma digit_char_inject: "d < 10 \<Longrightarrow> e < 10 \<Longrightarrow> digit_char d = digit_char e \<longleftrightarrow> d = e"
  by (metis add_left_cancel byte_digit_char)

section \<open>Words without wrap-around\<close>

lemma unat_add_exact: "unat x + unat y < 2 ^ 64 \<Longrightarrow> unat (x + y :: u64) = unat x + unat y"
  by (simp add: unat_word_ariths)

lemma unat_mult_exact: "unat x * unat y < 2 ^ 64 \<Longrightarrow> unat (x * y :: u64) = unat x * unat y"
  by (simp add: unat_word_ariths)

lemma u64_less: "unat (x :: u64) < 2 ^ 64"
  using unsigned_less[of x, where 'a=nat] by simp

lemma of_nat_unat_u64: "of_nat (unat (x :: u64)) = x"
  by simp

lemma unat_of_nat_u64: "n < 2 ^ 64 \<Longrightarrow> unat (of_nat n :: u64) = n"
  by (simp add: unat_of_nat take_bit_eq_mod)

lemma unat_max: "unat UINT64_MAX = 2 ^ 64 - 1"
  by (simp add: unsigned_minus_1_eq_mask mask_eq_exp_minus_1)

end
