(* ===== verification/Job_Types.thy ===== *)
theory Job_Types
  imports Sito_Prelude
begin

text \<open>
  The data of the core library: the enumerations and structs of
  \<^verbatim>\<open>include/sitometron/core/job_reducer.hpp\<close> and \<^verbatim>\<open>include/sitometron/core/job_ports.hpp\<close>.
  An \<^verbatim>\<open>enum class\<close> is a datatype with the source's enumerators, written qualified as in the
  source (\<^verbatim>\<open>JobState::kFailed\<close> is \<open>JobState.kFailed\<close>), the \<^verbatim>\<open>kInvalid\<close> enumerator included;
  the payload variant is a datatype with one constructor per struct, and the other structs are
  records. The parameter record \<open>libs\<close> stands for the two library calls of the core that are not
  part of the repository: the JSON parser of nlohmann/json and the SHA-256 of Boost.Hash2.
\<close>

section \<open>Identifiers\<close>

datatype Uuid = Uuid (uuid_value: string)
datatype StableId = StableId (stable_value: string)
datatype Digest = Digest (digest_value: string)

section \<open>Enumerations\<close>

datatype JobState =
    kAdmitted | kPreparing | kRunning | kStopping | kFinalizing
  | kSucceeded | kFailed | kCancelled | kTerminated | kTimedOut | kInvalid

datatype CommandType = kCancel | kTerminate | kInvalid

datatype TimeoutPhase =
    kPreparation | kExecution | kCooperativeStop | kProcessExitConfirmation | kInvalid

datatype TerminalOutcome = kSucceeded | kFailed | kCancelled | kTerminated | kTimedOut | kInvalid

datatype RejectionReason =
    kJobNotFound | kJobAlreadyExists | kCommandNotAllowedInState | kEventNotAllowedInState
  | kStopCauseAlreadyLatched | kTimeoutPhaseMismatch | kTerminalOutcomeMismatch
  | kRequiredFinalizationFactMissing | kInvalidEventPayload | kInvariantViolation | kInvalid

datatype EffectId =
    kArmPreparationTimeout | kDisarmPreparationTimeout | kLaunchWorkerOnce | kArmExecutionTimeout
  | kDisarmExecutionTimeout | kRequestCooperativeStop | kRequestForcedStop
  | kRetainSessionSameIdentity | kAckTerminalWorkerEventIfPending | kAckLateWorkerEvent
  | kPublishTerminalResult | kArmProcessExitConfirmationTimeoutIfNeeded | kQuarantineResources
  | kSetReadinessFalse | kArmCooperativeStopTimeout | kDisarmCooperativeStopTimeout
  | kDisarmProcessExitConfirmationTimeout | kInvalid

datatype ResourceStatus = kNone | kCommitted | kReleased | kInvalid
datatype LaunchStatus = kNotStarted | kIntentRecorded | kObserved | kFailed | kInvalid
datatype ProcessPresence = kAbsent | kUnknown | kPresent | kInvalid
datatype RetentionStatus = kNotStarted | kRequested | kRetained | kInvalid
datatype FinalizationStatus = kNotStarted | kPending | kCompleted | kFailed | kInvalid
datatype CleanupStatus = kPending | kCompleted | kIncomplete | kInvalid
datatype CompletionMode = kNone | kCooperative | kForced | kProcessAlreadyExited | kInvalid

datatype EventType =
    kJobCreated | kResourcesCommitted | kWorkerLaunchIntent | kWorkerLaunchObserved
  | kWorkerRunning | kCancelAccepted | kTerminateAccepted | kTimeoutExpired | kWorkerCompleted
  | kWorkerFailed | kProcessExitConfirmed | kSessionRetainRequested | kSessionRetained
  | kFinalizationCompleted | kFinalizationFailed | kTerminalOutcomeCommitted
  | kResourcesReleased | kCleanupStatusRecorded | kLateWorkerEvent | kInvalid

section \<open>Payloads\<close>

datatype (discs_sels) EventPayload =
    EmptyPayload
  | JobCreatedPayload Uuid
  | ResourcesCommittedPayload StableId Digest StableId u32 string
      \<comment> \<open>allocation id, allocation digest, schema id, schema version, payload text\<close>
  | WorkerLaunchIntentPayload StableId StableId string Digest StableId Digest Uuid
      \<comment> \<open>operation, application, version, bundle digest, allocation id and digest, worker\<close>
  | WorkerLaunchObservedPayload StableId bool
  | WorkerRunningPayload Uuid
  | PrincipalPayload string
  | TimeoutExpiredPayload TimeoutPhase u64
  | WorkerEventPayload Uuid u64
  | ProcessExitConfirmedPayload CompletionMode StableId
  | SessionPayload Uuid
  | TerminalOutcomePayload TerminalOutcome
  | ResourcesReleasedPayload StableId Digest
  | CleanupStatusPayload CleanupStatus
  | LateWorkerEventPayload EventType Uuid u64

section \<open>The snapshot of one Job\<close>

record Snapshot =
  schema_version :: u32
  job_id :: Uuid
  session_id :: Uuid
  entity_exists :: bool
  state :: JobState
  latched_reason :: "TerminalOutcome option"
  completion_candidate :: bool
  completion_mode :: CompletionMode
  resource_status :: ResourceStatus
  allocation_id :: "StableId option"
  allocation_digest :: "Digest option"
  worker_launch_status :: LaunchStatus
  launch_operation_id :: "StableId option"
  worker_id :: "Uuid option"
  process_presence :: ProcessPresence
  process_exit_confirmed :: bool
  session_retention_status :: RetentionStatus
  finalization_status :: FinalizationStatus
  cleanup_status :: CleanupStatus
  pending_worker_event_ack :: bool
  pending_worker_id :: "Uuid option"
  pending_worker_event_sequence :: "u64 option"

section \<open>Commands, events and results\<close>

record Command =
  cmd_schema_version :: u32
  cmd_command_type :: CommandType
  cmd_job_id :: Uuid
  cmd_principal_subject :: string

record RawCandidateEvent =
  raw_schema_version :: u32
  raw_job_id :: Uuid
  raw_event_type :: string
  raw_payload_json :: string

record InternalEvent =
  ie_schema_version :: u32
  ie_job_id :: Uuid
  ie_event_type :: EventType
  ie_payload :: EventPayload

record PreEnvelopeProposal =
  pp_schema_version :: u32
  pp_job_id :: Uuid
  pp_event_type :: EventType
  pp_payload :: EventPayload

record Rejection =
  rej_schema_version :: u32
  rej_reason :: RejectionReason

type_synonym Decision = "Rejection + PreEnvelopeProposal"
type_synonym NormalizedCandidate = "Rejection + InternalEvent"
type_synonym Effect = EffectId

record ApplyResult =
  ar_snapshot :: Snapshot
  ar_effects :: "Effect list"
  ar_rejection :: "Rejection option"

section \<open>Timers\<close>

record TimerArmRequest =
  tar_job_id :: Uuid
  tar_phase :: TimeoutPhase
  tar_generation :: u64

record TimerNotification =
  tn_job_id :: Uuid
  tn_phase :: TimeoutPhase
  tn_generation :: u64

datatype TimerIngressKind =
  kFailClosed | kDiscardWithoutCandidate | kEmitCandidateEvent | kInvalid

record TimerState =
  ts_job_id :: Uuid
  preparation_armed :: bool
  execution_armed :: bool
  cooperative_stop_armed :: bool
  process_exit_confirmation_armed :: bool
  preparation_generation :: u64
  execution_generation :: u64
  cooperative_stop_generation :: u64
  process_exit_confirmation_generation :: u64

record TimeoutCandidate =
  tc_job_id :: Uuid
  tc_phase :: TimeoutPhase
  tc_timer_generation :: u64

record TimerIngressInput =
  tii_arm_request :: "TimerArmRequest option"
  tii_notification :: "TimerNotification option"

record TimerIngressResult =
  tir_kind :: TimerIngressKind
  tir_candidate :: "TimeoutCandidate option"
  tir_effects :: "Effect list"

section \<open>The logical Journal record\<close>

record LogicalJobEvent =
  lje_schema_version :: u32
  lje_sequence :: u64
  lje_event_type :: EventType
  lje_recorded_at :: string
  lje_job_id :: Uuid
  lje_payload :: EventPayload

datatype LogicalCommitResult = kCommitted | kDefiniteFailure | kOutcomeUnknown

section \<open>JSON values and the library calls of the core\<close>

text \<open>
  The values of \<^verbatim>\<open>nlohmann::json\<close>: the parser stores a non-negative integer that fits in 64 bits
  as an unsigned number, a negative one as a signed number, and every other number as a double
  (mantissa and binary exponent). An object lists its members.
\<close>

datatype json =
    JNull
  | JBool bool
  | JUnsigned u64
  | JInteger int
  | JFloat int int
  | JString string
  | JArray "json list"
  | JObject "(string \<times> json) list"

text \<open>
  \<open>json_parse text\<close> is \<^verbatim>\<open>nlohmann::json::parse\<close> with \<open>None\<close> for a parse error, and \<open>sha256 bytes\<close>
  is the hexadecimal digest text of \<^verbatim>\<open>boost::hash2::sha2_256\<close>.
\<close>

record libs =
  json_parse :: "string \<Rightarrow> json option"
  sha256 :: "string \<Rightarrow> string"

end
