(* ===== verification/Reducer_Lexical.thy ===== *)
theory Reducer_Lexical
  imports Job_Types "HOL-Library.Monad_Syntax"
begin

text \<open>
  The lexical classes and the closed-enumeration checks at the head of
  \<^verbatim>\<open>src/core/job_reducer.cpp\<close> (UUID, stable identifier, digest, bounded UTF-8 text), the names
  of the enumerators (\<^verbatim>\<open>ToString\<close>, \<^verbatim>\<open>ParsePhase\<close>, \<^verbatim>\<open>ParseMode\<close>, \<^verbatim>\<open>ParseOutcome\<close>,
  \<^verbatim>\<open>ParseEvent\<close>), and the round trip between them.
\<close>

section \<open>Characters and identifiers\<close>

definition IsAsciiDigit :: "char \<Rightarrow> bool" where
  "IsAsciiDigit c \<longleftrightarrow> 48 \<le> byte c \<and> byte c \<le> 57"

definition IsAsciiUpper :: "char \<Rightarrow> bool" where
  "IsAsciiUpper c \<longleftrightarrow> 65 \<le> byte c \<and> byte c \<le> 90"

definition IsAsciiLower :: "char \<Rightarrow> bool" where
  "IsAsciiLower c \<longleftrightarrow> 97 \<le> byte c \<and> byte c \<le> 122"

definition IsAsciiAlphanumeric :: "char \<Rightarrow> bool" where
  "IsAsciiAlphanumeric c \<longleftrightarrow> IsAsciiDigit c \<or> IsAsciiUpper c \<or> IsAsciiLower c"

definition IsLowerHex :: "char \<Rightarrow> bool" where
  "IsLowerHex c \<longleftrightarrow> IsAsciiDigit c \<or> (97 \<le> byte c \<and> byte c \<le> 102)"

definition IsUuid :: "string \<Rightarrow> char \<Rightarrow> bool" where
  "IsUuid s version =
     (if length s \<noteq> 36 \<or> s ! 8 \<noteq> CHR ''-'' \<or> s ! 13 \<noteq> CHR ''-'' \<or> s ! 18 \<noteq> CHR ''-''
          \<or> s ! 23 \<noteq> CHR ''-''
      then False
      else list_all (\<lambda>i. i = 8 \<or> i = 13 \<or> i = 18 \<or> i = 23 \<or> IsLowerHex (s ! i)) [0..<length s]
        \<and> s ! 14 = version
        \<and> (s ! 19 = CHR ''8'' \<or> s ! 19 = CHR ''9'' \<or> s ! 19 = CHR ''a'' \<or> s ! 19 = CHR ''b''))"

definition IsStable :: "string \<Rightarrow> bool" where
  "IsStable s =
     (if s = [] \<or> 128 < length s \<or> \<not> IsAsciiAlphanumeric (hd s) then False
      else list_all (\<lambda>c. IsAsciiAlphanumeric c \<or> c = CHR ''.'' \<or> c = CHR ''_'' \<or> c = CHR '':''
                       \<or> c = CHR ''-'') s)"

definition IsDigest :: "string \<Rightarrow> bool" where
  "IsDigest s =
     (if length s \<noteq> 64 then False
      else list_all (\<lambda>c. (48 \<le> byte c \<and> byte c \<le> 57) \<or> (97 \<le> byte c \<and> byte c \<le> 102)) s)"

section \<open>Bounded UTF-8 text\<close>

text \<open>\<^verbatim>\<open>struct Utf8Sequence\<close>: the length and the bounds of the second byte.\<close>

record Utf8Sequence =
  seq_length :: nat
  second_min :: nat
  second_max :: nat

definition Utf8SequenceForLead :: "nat \<Rightarrow> Utf8Sequence option" where
  "Utf8SequenceForLead lead =
     (if lead \<le> 0x7F then Some \<lparr>seq_length = 1, second_min = 0x80, second_max = 0xBF\<rparr>
      else if 0xC2 \<le> lead \<and> lead \<le> 0xDF
        then Some \<lparr>seq_length = 2, second_min = 0x80, second_max = 0xBF\<rparr>
      else if 0xE0 \<le> lead \<and> lead \<le> 0xEF
        then Some \<lparr>seq_length = 3, second_min = (if lead = 0xE0 then 0xA0 else 0x80),
                   second_max = (if lead = 0xED then 0x9F else 0xBF)\<rparr>
      else if 0xF0 \<le> lead \<and> lead \<le> 0xF4
        then Some \<lparr>seq_length = 4, second_min = (if lead = 0xF0 then 0x90 else 0x80),
                   second_max = (if lead = 0xF4 then 0x8F else 0xBF)\<rparr>
      else None)"

definition HasValidUtf8Continuation :: "string \<Rightarrow> nat \<Rightarrow> Utf8Sequence \<Rightarrow> bool" where
  "HasValidUtf8Continuation value index sequence =
     (if length value < index + seq_length sequence then False
      else if seq_length sequence = 1 then True
      else if byte (value ! (index + 1)) < second_min sequence
            \<or> second_max sequence < byte (value ! (index + 1)) then False
      else list_all (\<lambda>c. 0x80 \<le> byte c \<and> byte c \<le> 0xBF)
             (take (seq_length sequence - 2) (drop (index + 2) value)))"

lemma seq_length_pos: "Utf8SequenceForLead lead = Some q \<Longrightarrow> 0 < seq_length q"
  by (auto simp: Utf8SequenceForLead_def split: if_splits)

text \<open>The scanning loop of \<^verbatim>\<open>IsUtf8ScalarString\<close> from position \<open>index\<close>.\<close>

function utf8_scan :: "string \<Rightarrow> nat \<Rightarrow> nat \<Rightarrow> nat \<Rightarrow> bool" where
  "utf8_scan value max_scalars index scalars =
     (if index < length value then
        (case Utf8SequenceForLead (byte (value ! index)) of
           None \<Rightarrow> False
         | Some sequence \<Rightarrow>
             if \<not> HasValidUtf8Continuation value index sequence then False
             else if max_scalars < scalars + 1 then False
             else utf8_scan value max_scalars (index + seq_length sequence) (scalars + 1))
      else True)"
  by pat_completeness auto
termination
  by (relation "measure (\<lambda>(value, m, index, scalars). length value - index)")
     (auto dest: seq_length_pos)

declare utf8_scan.simps [simp del]

definition IsUtf8ScalarString :: "string \<Rightarrow> nat \<Rightarrow> bool" where
  "IsUtf8ScalarString value max_scalars =
     (if value = [] then False else utf8_scan value max_scalars 0 0)"

definition IsPrincipal :: "string \<Rightarrow> bool" where
  "IsPrincipal s = IsUtf8ScalarString s 256"

section \<open>Closed enumerations\<close>

text \<open>
  The source compares the integer value of an enumerator with the range of the closed values;
  the only enumerator outside of it is the last one, \<^verbatim>\<open>kInvalid\<close>.
\<close>

definition IsCommandType :: "CommandType \<Rightarrow> bool" where
  [enum_defs]: "IsCommandType t \<longleftrightarrow> t \<noteq> CommandType.kInvalid"

definition IsEventType :: "EventType \<Rightarrow> bool" where
  [enum_defs]: "IsEventType t \<longleftrightarrow> t \<noteq> EventType.kInvalid"

definition IsTimeoutPhase :: "TimeoutPhase \<Rightarrow> bool" where
  [enum_defs]: "IsTimeoutPhase p \<longleftrightarrow> p \<noteq> TimeoutPhase.kInvalid"

definition IsTerminalOutcome :: "TerminalOutcome \<Rightarrow> bool" where
  [enum_defs]: "IsTerminalOutcome r \<longleftrightarrow> r \<noteq> TerminalOutcome.kInvalid"

definition IsCompletionMode :: "CompletionMode \<Rightarrow> bool" where
  [enum_defs]: "IsCompletionMode m \<longleftrightarrow> m \<noteq> CompletionMode.kInvalid"

definition IsResourceStatus :: "ResourceStatus \<Rightarrow> bool" where
  [enum_defs]: "IsResourceStatus r \<longleftrightarrow> r \<noteq> ResourceStatus.kInvalid"

definition IsLaunchStatus :: "LaunchStatus \<Rightarrow> bool" where
  [enum_defs]: "IsLaunchStatus l \<longleftrightarrow> l \<noteq> LaunchStatus.kInvalid"

definition IsProcessPresence :: "ProcessPresence \<Rightarrow> bool" where
  [enum_defs]: "IsProcessPresence p \<longleftrightarrow> p \<noteq> ProcessPresence.kInvalid"

definition IsRetentionStatus :: "RetentionStatus \<Rightarrow> bool" where
  [enum_defs]: "IsRetentionStatus r \<longleftrightarrow> r \<noteq> RetentionStatus.kInvalid"

definition IsFinalizationStatus :: "FinalizationStatus \<Rightarrow> bool" where
  [enum_defs]: "IsFinalizationStatus f \<longleftrightarrow> f \<noteq> FinalizationStatus.kInvalid"

definition IsCleanupStatus :: "CleanupStatus \<Rightarrow> bool" where
  [enum_defs]: "IsCleanupStatus c \<longleftrightarrow> c \<noteq> CleanupStatus.kInvalid"

definition IsTerminal :: "JobState \<Rightarrow> bool" where
  "IsTerminal s \<longleftrightarrow>
     s = JobState.kSucceeded \<or> s = JobState.kFailed \<or> s = JobState.kCancelled
     \<or> s = JobState.kTerminated \<or> s = JobState.kTimedOut"

definition IsTerminalState :: "JobState \<Rightarrow> bool" where
  "IsTerminalState s = IsTerminal s"

section \<open>Names of the enumerators\<close>

fun JobState_ToString :: "JobState \<Rightarrow> string" where
  "JobState_ToString JobState.kAdmitted = ''admitted''"
| "JobState_ToString JobState.kPreparing = ''preparing''"
| "JobState_ToString JobState.kRunning = ''running''"
| "JobState_ToString JobState.kStopping = ''stopping''"
| "JobState_ToString JobState.kFinalizing = ''finalizing''"
| "JobState_ToString JobState.kSucceeded = ''succeeded''"
| "JobState_ToString JobState.kFailed = ''failed''"
| "JobState_ToString JobState.kCancelled = ''cancelled''"
| "JobState_ToString JobState.kTerminated = ''terminated''"
| "JobState_ToString JobState.kTimedOut = ''timed_out''"
| "JobState_ToString JobState.kInvalid = ''invalid''"

fun EventType_ToString :: "EventType \<Rightarrow> string" where
  "EventType_ToString EventType.kJobCreated = ''job_created''"
| "EventType_ToString EventType.kResourcesCommitted = ''resources_committed''"
| "EventType_ToString EventType.kWorkerLaunchIntent = ''worker_launch_intent''"
| "EventType_ToString EventType.kWorkerLaunchObserved = ''worker_launch_observed''"
| "EventType_ToString EventType.kWorkerRunning = ''worker_running''"
| "EventType_ToString EventType.kCancelAccepted = ''cancel_accepted''"
| "EventType_ToString EventType.kTerminateAccepted = ''terminate_accepted''"
| "EventType_ToString EventType.kTimeoutExpired = ''timeout_expired''"
| "EventType_ToString EventType.kWorkerCompleted = ''worker_completed''"
| "EventType_ToString EventType.kWorkerFailed = ''worker_failed''"
| "EventType_ToString EventType.kProcessExitConfirmed = ''process_exit_confirmed''"
| "EventType_ToString EventType.kSessionRetainRequested = ''session_retain_requested''"
| "EventType_ToString EventType.kSessionRetained = ''session_retained''"
| "EventType_ToString EventType.kFinalizationCompleted = ''finalization_completed''"
| "EventType_ToString EventType.kFinalizationFailed = ''finalization_failed''"
| "EventType_ToString EventType.kTerminalOutcomeCommitted = ''terminal_outcome_committed''"
| "EventType_ToString EventType.kResourcesReleased = ''resources_released''"
| "EventType_ToString EventType.kCleanupStatusRecorded = ''cleanup_status_recorded''"
| "EventType_ToString EventType.kLateWorkerEvent = ''late_worker_event''"
| "EventType_ToString EventType.kInvalid = ''invalid''"

fun RejectionReason_ToString :: "RejectionReason \<Rightarrow> string" where
  "RejectionReason_ToString RejectionReason.kJobNotFound = ''job_not_found''"
| "RejectionReason_ToString RejectionReason.kJobAlreadyExists = ''job_already_exists''"
| "RejectionReason_ToString RejectionReason.kCommandNotAllowedInState =
     ''command_not_allowed_in_state''"
| "RejectionReason_ToString RejectionReason.kEventNotAllowedInState =
     ''event_not_allowed_in_state''"
| "RejectionReason_ToString RejectionReason.kStopCauseAlreadyLatched =
     ''stop_cause_already_latched''"
| "RejectionReason_ToString RejectionReason.kTimeoutPhaseMismatch = ''timeout_phase_mismatch''"
| "RejectionReason_ToString RejectionReason.kTerminalOutcomeMismatch =
     ''terminal_outcome_mismatch''"
| "RejectionReason_ToString RejectionReason.kRequiredFinalizationFactMissing =
     ''required_finalization_fact_missing''"
| "RejectionReason_ToString RejectionReason.kInvalidEventPayload = ''invalid_event_payload''"
| "RejectionReason_ToString RejectionReason.kInvariantViolation = ''invariant_violation''"
| "RejectionReason_ToString RejectionReason.kInvalid = ''invalid''"

fun EffectId_ToString :: "EffectId \<Rightarrow> string" where
  "EffectId_ToString EffectId.kArmPreparationTimeout = ''arm_preparation_timeout''"
| "EffectId_ToString EffectId.kDisarmPreparationTimeout = ''disarm_preparation_timeout''"
| "EffectId_ToString EffectId.kLaunchWorkerOnce = ''launch_worker_once''"
| "EffectId_ToString EffectId.kArmExecutionTimeout = ''arm_execution_timeout''"
| "EffectId_ToString EffectId.kDisarmExecutionTimeout = ''disarm_execution_timeout''"
| "EffectId_ToString EffectId.kRequestCooperativeStop = ''request_cooperative_stop''"
| "EffectId_ToString EffectId.kRequestForcedStop = ''request_forced_stop''"
| "EffectId_ToString EffectId.kRetainSessionSameIdentity = ''retain_session_same_identity''"
| "EffectId_ToString EffectId.kAckTerminalWorkerEventIfPending =
     ''ack_terminal_worker_event_if_pending''"
| "EffectId_ToString EffectId.kAckLateWorkerEvent = ''ack_late_worker_event''"
| "EffectId_ToString EffectId.kPublishTerminalResult = ''publish_terminal_result''"
| "EffectId_ToString EffectId.kArmProcessExitConfirmationTimeoutIfNeeded =
     ''arm_process_exit_confirmation_timeout_if_needed''"
| "EffectId_ToString EffectId.kQuarantineResources = ''quarantine_resources''"
| "EffectId_ToString EffectId.kSetReadinessFalse = ''set_readiness_false''"
| "EffectId_ToString EffectId.kArmCooperativeStopTimeout = ''arm_cooperative_stop_timeout''"
| "EffectId_ToString EffectId.kDisarmCooperativeStopTimeout = ''disarm_cooperative_stop_timeout''"
| "EffectId_ToString EffectId.kDisarmProcessExitConfirmationTimeout =
     ''disarm_process_exit_confirmation_timeout''"
| "EffectId_ToString EffectId.kInvalid = ''invalid''"

definition ParsePhase :: "string \<Rightarrow> TimeoutPhase option" where
  "ParsePhase value =
     (if value = ''preparation'' then Some TimeoutPhase.kPreparation
      else if value = ''execution'' then Some TimeoutPhase.kExecution
      else if value = ''cooperative_stop'' then Some TimeoutPhase.kCooperativeStop
      else if value = ''process_exit_confirmation''
        then Some TimeoutPhase.kProcessExitConfirmation
      else None)"

definition ParseMode :: "string \<Rightarrow> CompletionMode option" where
  "ParseMode value =
     (if value = ''cooperative'' then Some CompletionMode.kCooperative
      else if value = ''forced'' then Some CompletionMode.kForced
      else if value = ''process_already_exited'' then Some CompletionMode.kProcessAlreadyExited
      else None)"

definition ParseOutcome :: "string \<Rightarrow> TerminalOutcome option" where
  "ParseOutcome value =
     (if value = ''succeeded'' then Some TerminalOutcome.kSucceeded
      else if value = ''failed'' then Some TerminalOutcome.kFailed
      else if value = ''cancelled'' then Some TerminalOutcome.kCancelled
      else if value = ''terminated'' then Some TerminalOutcome.kTerminated
      else if value = ''timed_out'' then Some TerminalOutcome.kTimedOut
      else None)"

definition ParseEvent :: "string \<Rightarrow> EventType option" where
  "ParseEvent value =
     (if value = ''job_created'' then Some EventType.kJobCreated
      else if value = ''resources_committed'' then Some EventType.kResourcesCommitted
      else if value = ''worker_launch_intent'' then Some EventType.kWorkerLaunchIntent
      else if value = ''worker_launch_observed'' then Some EventType.kWorkerLaunchObserved
      else if value = ''worker_running'' then Some EventType.kWorkerRunning
      else if value = ''cancel_accepted'' then Some EventType.kCancelAccepted
      else if value = ''terminate_accepted'' then Some EventType.kTerminateAccepted
      else if value = ''timeout_expired'' then Some EventType.kTimeoutExpired
      else if value = ''worker_completed'' then Some EventType.kWorkerCompleted
      else if value = ''worker_failed'' then Some EventType.kWorkerFailed
      else if value = ''process_exit_confirmed'' then Some EventType.kProcessExitConfirmed
      else if value = ''session_retain_requested'' then Some EventType.kSessionRetainRequested
      else if value = ''session_retained'' then Some EventType.kSessionRetained
      else if value = ''finalization_completed'' then Some EventType.kFinalizationCompleted
      else if value = ''finalization_failed'' then Some EventType.kFinalizationFailed
      else if value = ''terminal_outcome_committed''
        then Some EventType.kTerminalOutcomeCommitted
      else if value = ''resources_released'' then Some EventType.kResourcesReleased
      else if value = ''cleanup_status_recorded'' then Some EventType.kCleanupStatusRecorded
      else if value = ''late_worker_event'' then Some EventType.kLateWorkerEvent
      else None)"

section \<open>Lemmas\<close>

lemma ParseEvent_ToString:
  "IsEventType t \<Longrightarrow> ParseEvent (EventType_ToString t) = Some t"
  by (cases t) (simp_all add: ParseEvent_def IsEventType_def)

lemma ParseEvent_closed: "ParseEvent s = Some t \<Longrightarrow> IsEventType t \<and> EventType_ToString t = s"
  by (auto simp: ParseEvent_def IsEventType_def split: if_splits)

lemma ParsePhase_closed: "ParsePhase s = Some p \<Longrightarrow> IsTimeoutPhase p"
  by (auto simp: ParsePhase_def IsTimeoutPhase_def split: if_splits)

lemma ParseMode_closed: "ParseMode s = Some m \<Longrightarrow> IsCompletionMode m \<and> m \<noteq> CompletionMode.kNone"
  by (auto simp: ParseMode_def IsCompletionMode_def split: if_splits)

lemma ParseOutcome_closed: "ParseOutcome s = Some r \<Longrightarrow> IsTerminalOutcome r"
  by (auto simp: ParseOutcome_def IsTerminalOutcome_def split: if_splits)

lemma IsTerminal_simps [simp]:
  "IsTerminal JobState.kSucceeded" "IsTerminal JobState.kFailed" "IsTerminal JobState.kCancelled"
  "IsTerminal JobState.kTerminated" "IsTerminal JobState.kTimedOut"
  "\<not> IsTerminal JobState.kAdmitted" "\<not> IsTerminal JobState.kPreparing"
  "\<not> IsTerminal JobState.kRunning" "\<not> IsTerminal JobState.kStopping"
  "\<not> IsTerminal JobState.kFinalizing" "\<not> IsTerminal JobState.kInvalid"
  by (simp_all add: IsTerminal_def)

end
