(* ===== verification/Payload_Parsing.thy ===== *)
theory Payload_Parsing
  imports Reducer_Lexical
begin

text \<open>
  Normalisation of raw candidate events (\<^verbatim>\<open>NormalizeCandidate\<close> and the \<^verbatim>\<open>Parse*Payload\<close>
  functions of \<^verbatim>\<open>src/core/job_reducer.cpp\<close>) and the validity of a typed payload
  (\<^verbatim>\<open>PayloadMatches\<close>, \<^verbatim>\<open>ValidInternalPayload\<close>). A parse function that returns
  \<^verbatim>\<open>std::nullopt\<close> returns \<open>None\<close>; \<open>require b\<close> is an early return unless \<open>b\<close> holds. The lemmas
  show that what normalisation accepts is exactly typed and valid.
\<close>

definition require :: "bool \<Rightarrow> unit option" where
  "require b = (if b then Some () else None)"

lemma require_Some [simp]: "require b = Some u \<longleftrightarrow> b"
  by (simp add: require_def)

section \<open>JSON access\<close>

definition is_object :: "json \<Rightarrow> bool" where
  "is_object j = (case j of JObject _ \<Rightarrow> True | _ \<Rightarrow> False)"

definition json_member :: "json \<Rightarrow> string \<Rightarrow> json option" where
  "json_member j key = (case j of JObject ms \<Rightarrow> map_of ms key | _ \<Rightarrow> None)"

definition HasOnly :: "json \<Rightarrow> string list \<Rightarrow> bool" where
  "HasOnly j names =
     (case j of JObject ms \<Rightarrow> list_all (\<lambda>(key, _). List.member names key) ms | _ \<Rightarrow> False)"

definition StringField :: "json \<Rightarrow> string \<Rightarrow> string option" where
  "StringField j key = (case json_member j key of Some (JString s) \<Rightarrow> Some s | _ \<Rightarrow> None)"

definition UnsignedMember :: "json \<Rightarrow> string \<Rightarrow> u64 option" where
  "UnsignedMember j key = (case json_member j key of Some (JUnsigned v) \<Rightarrow> Some v | _ \<Rightarrow> None)"

definition UInt64Field :: "json \<Rightarrow> string \<Rightarrow> u64 option" where
  "UInt64Field j key =
     (case UnsignedMember j key of Some v \<Rightarrow> (if v \<noteq> 0 then Some v else None) | None \<Rightarrow> None)"

definition ParseJson :: "libs \<Rightarrow> string \<Rightarrow> json option" where
  "ParseJson L text = (if List.member text NUL then None else json_parse L text)"

definition ParseResolvedAllocationJson :: "libs \<Rightarrow> string \<Rightarrow> json option" where
  "ParseResolvedAllocationJson L text =
     (if length text \<le> 65536 then ParseJson L text else None)"

definition Sha256 :: "libs \<Rightarrow> string \<Rightarrow> string" where
  "Sha256 L bytes = sha256 L bytes"

section \<open>Payload parsers\<close>

definition ParseJobCreatedPayload :: "json \<Rightarrow> Uuid \<Rightarrow> EventPayload option" where
  "ParseJobCreatedPayload payload candidate_job_id = do {
     require (HasOnly payload [''session_id'']);
     session_id \<leftarrow> StringField payload ''session_id'';
     require (IsUuid session_id CHR ''7'');
     require (session_id = uuid_value candidate_job_id);
     Some (JobCreatedPayload (Uuid session_id)) }"

definition ParseResourcesCommittedPayload :: "libs \<Rightarrow> json \<Rightarrow> EventPayload option" where
  "ParseResourcesCommittedPayload L payload = do {
     require (HasOnly payload [''allocation_id'', ''allocation_digest'', ''resolved_allocation'']);
     allocation_id \<leftarrow> StringField payload ''allocation_id'';
     require (IsStable allocation_id);
     allocation_digest \<leftarrow> StringField payload ''allocation_digest'';
     require (IsDigest allocation_digest);
     resolved \<leftarrow> json_member payload ''resolved_allocation'';
     require (is_object resolved);
     require (HasOnly resolved [''schema_id'', ''schema_version'', ''payload_utf8'']);
     schema_id \<leftarrow> StringField resolved ''schema_id'';
     require (IsStable schema_id);
     require (json_member resolved ''payload_utf8'' \<noteq> None);
     schema_version \<leftarrow> UnsignedMember resolved ''schema_version'';
     require (schema_version \<noteq> 0);
     require (schema_version \<le> 0xFFFFFFFF);
     payload_utf8 \<leftarrow> StringField resolved ''payload_utf8'';
     parsed_payload \<leftarrow> ParseResolvedAllocationJson L payload_utf8;
     require (Sha256 L payload_utf8 = allocation_digest);
     Some (ResourcesCommittedPayload (StableId allocation_id) (Digest allocation_digest)
             (StableId schema_id) (ucast schema_version) payload_utf8) }"

definition ParseWorkerLaunchIntentPayload :: "json \<Rightarrow> EventPayload option" where
  "ParseWorkerLaunchIntentPayload payload = do {
     require (HasOnly payload
       [''operation_id'', ''application'', ''allocation_id'', ''allocation_digest'', ''worker_id'']);
     operation_id \<leftarrow> StringField payload ''operation_id'';
     require (IsStable operation_id);
     application \<leftarrow> json_member payload ''application'';
     require (is_object application);
     require (HasOnly application [''application_id'', ''version'', ''bundle_sha256'']);
     application_id \<leftarrow> StringField application ''application_id'';
     require (IsStable application_id);
     application_version \<leftarrow> StringField application ''version'';
     require (IsUtf8ScalarString application_version 128);
     bundle_sha256 \<leftarrow> StringField application ''bundle_sha256'';
     require (IsDigest bundle_sha256);
     allocation_id \<leftarrow> StringField payload ''allocation_id'';
     require (IsStable allocation_id);
     allocation_digest \<leftarrow> StringField payload ''allocation_digest'';
     require (IsDigest allocation_digest);
     worker_id \<leftarrow> StringField payload ''worker_id'';
     require (IsUuid worker_id CHR ''4'');
     Some (WorkerLaunchIntentPayload (StableId operation_id) (StableId application_id)
             application_version (Digest bundle_sha256) (StableId allocation_id)
             (Digest allocation_digest) (Uuid worker_id)) }"

definition ParseWorkerLaunchObservedPayload :: "json \<Rightarrow> EventPayload option" where
  "ParseWorkerLaunchObservedPayload payload = do {
     require (HasOnly payload [''operation_id'', ''outcome'']);
     operation_id \<leftarrow> StringField payload ''operation_id'';
     require (IsStable operation_id);
     outcome \<leftarrow> StringField payload ''outcome'';
     require (outcome = ''started'' \<or> outcome = ''failed'');
     Some (WorkerLaunchObservedPayload (StableId operation_id) (outcome = ''started'')) }"

definition ParseWorkerRunningPayload :: "json \<Rightarrow> EventPayload option" where
  "ParseWorkerRunningPayload payload = do {
     require (HasOnly payload [''worker_id'']);
     worker_id \<leftarrow> StringField payload ''worker_id'';
     require (IsUuid worker_id CHR ''4'');
     Some (WorkerRunningPayload (Uuid worker_id)) }"

definition ParseTimeoutExpiredPayload :: "json \<Rightarrow> EventPayload option" where
  "ParseTimeoutExpiredPayload payload = do {
     require (HasOnly payload [''phase'', ''timer_generation'']);
     phase_text \<leftarrow> StringField payload ''phase'';
     generation \<leftarrow> UInt64Field payload ''timer_generation'';
     phase \<leftarrow> ParsePhase phase_text;
     Some (TimeoutExpiredPayload phase generation) }"

definition ParseWorkerEventPayload :: "json \<Rightarrow> EventPayload option" where
  "ParseWorkerEventPayload payload = do {
     require (HasOnly payload [''worker_id'', ''event_sequence'']);
     worker_id \<leftarrow> StringField payload ''worker_id'';
     require (IsUuid worker_id CHR ''4'');
     sequence \<leftarrow> UInt64Field payload ''event_sequence'';
     Some (WorkerEventPayload (Uuid worker_id) sequence) }"

definition ParseProcessExitConfirmedPayload :: "json \<Rightarrow> EventPayload option" where
  "ParseProcessExitConfirmedPayload payload = do {
     require (HasOnly payload [''completion_mode'', ''launch_operation_id'']);
     mode_text \<leftarrow> StringField payload ''completion_mode'';
     operation_id \<leftarrow> StringField payload ''launch_operation_id'';
     require (IsStable operation_id);
     mode \<leftarrow> ParseMode mode_text;
     Some (ProcessExitConfirmedPayload mode (StableId operation_id)) }"

definition ParseSessionPayload :: "json \<Rightarrow> EventPayload option" where
  "ParseSessionPayload payload = do {
     require (HasOnly payload [''session_id'']);
     session_id \<leftarrow> StringField payload ''session_id'';
     require (IsUuid session_id CHR ''7'');
     Some (SessionPayload (Uuid session_id)) }"

definition ParseEmptyPayload :: "json \<Rightarrow> EventPayload option" where
  "ParseEmptyPayload payload = (if HasOnly payload [] then Some EmptyPayload else None)"

definition ParseTerminalOutcomePayload :: "json \<Rightarrow> EventPayload option" where
  "ParseTerminalOutcomePayload payload = do {
     require (HasOnly payload [''outcome'']);
     outcome_text \<leftarrow> StringField payload ''outcome'';
     outcome \<leftarrow> ParseOutcome outcome_text;
     Some (TerminalOutcomePayload outcome) }"

definition ParseResourcesReleasedPayload :: "json \<Rightarrow> EventPayload option" where
  "ParseResourcesReleasedPayload payload = do {
     require (HasOnly payload [''allocation_id'', ''allocation_digest'']);
     allocation_id \<leftarrow> StringField payload ''allocation_id'';
     require (IsStable allocation_id);
     allocation_digest \<leftarrow> StringField payload ''allocation_digest'';
     require (IsDigest allocation_digest);
     Some (ResourcesReleasedPayload (StableId allocation_id) (Digest allocation_digest)) }"

definition ParseCleanupStatusPayload :: "json \<Rightarrow> EventPayload option" where
  "ParseCleanupStatusPayload payload = do {
     require (HasOnly payload [''status'']);
     status \<leftarrow> StringField payload ''status'';
     require (status = ''completed'' \<or> status = ''incomplete'');
     Some (CleanupStatusPayload (if status = ''completed'' then CleanupStatus.kCompleted
                                 else CleanupStatus.kIncomplete)) }"

lemmas payload_parser_defs =
  ParseJobCreatedPayload_def ParseResourcesCommittedPayload_def
  ParseWorkerLaunchIntentPayload_def ParseWorkerLaunchObservedPayload_def
  ParseWorkerRunningPayload_def ParseTimeoutExpiredPayload_def ParseWorkerEventPayload_def
  ParseProcessExitConfirmedPayload_def ParseSessionPayload_def ParseEmptyPayload_def
  ParseTerminalOutcomePayload_def ParseResourcesReleasedPayload_def ParseCleanupStatusPayload_def

fun ParseCandidatePayload :: "libs \<Rightarrow> EventType \<Rightarrow> json \<Rightarrow> Uuid \<Rightarrow> EventPayload option" where
  "ParseCandidatePayload L EventType.kJobCreated payload jid = ParseJobCreatedPayload payload jid"
| "ParseCandidatePayload L EventType.kResourcesCommitted payload jid =
     ParseResourcesCommittedPayload L payload"
| "ParseCandidatePayload L EventType.kWorkerLaunchIntent payload jid =
     ParseWorkerLaunchIntentPayload payload"
| "ParseCandidatePayload L EventType.kWorkerLaunchObserved payload jid =
     ParseWorkerLaunchObservedPayload payload"
| "ParseCandidatePayload L EventType.kWorkerRunning payload jid =
     ParseWorkerRunningPayload payload"
| "ParseCandidatePayload L EventType.kTimeoutExpired payload jid =
     ParseTimeoutExpiredPayload payload"
| "ParseCandidatePayload L EventType.kWorkerCompleted payload jid =
     ParseWorkerEventPayload payload"
| "ParseCandidatePayload L EventType.kWorkerFailed payload jid = ParseWorkerEventPayload payload"
| "ParseCandidatePayload L EventType.kProcessExitConfirmed payload jid =
     ParseProcessExitConfirmedPayload payload"
| "ParseCandidatePayload L EventType.kSessionRetainRequested payload jid =
     ParseSessionPayload payload"
| "ParseCandidatePayload L EventType.kSessionRetained payload jid = ParseSessionPayload payload"
| "ParseCandidatePayload L EventType.kFinalizationCompleted payload jid =
     ParseEmptyPayload payload"
| "ParseCandidatePayload L EventType.kFinalizationFailed payload jid = ParseEmptyPayload payload"
| "ParseCandidatePayload L EventType.kTerminalOutcomeCommitted payload jid =
     ParseTerminalOutcomePayload payload"
| "ParseCandidatePayload L EventType.kResourcesReleased payload jid =
     ParseResourcesReleasedPayload payload"
| "ParseCandidatePayload L EventType.kCleanupStatusRecorded payload jid =
     ParseCleanupStatusPayload payload"
| "ParseCandidatePayload L EventType.kCancelAccepted payload jid = None"
| "ParseCandidatePayload L EventType.kTerminateAccepted payload jid = None"
| "ParseCandidatePayload L EventType.kLateWorkerEvent payload jid = None"
| "ParseCandidatePayload L EventType.kInvalid payload jid = None"

section \<open>Normalisation\<close>

definition Normalize :: "Snapshot \<Rightarrow> EventType \<Rightarrow> EventPayload \<Rightarrow> NormalizedCandidate" where
  "Normalize snapshot type payload =
     Inr \<lparr>ie_schema_version = 1, ie_job_id = job_id snapshot, ie_event_type = type,
          ie_payload = payload\<rparr>"

definition RejectCandidate :: "RejectionReason \<Rightarrow> NormalizedCandidate" where
  "RejectCandidate reason = Inl \<lparr>rej_schema_version = 1, rej_reason = reason\<rparr>"

definition ParseCandidate :: "libs \<Rightarrow> Snapshot \<Rightarrow> RawCandidateEvent \<Rightarrow> NormalizedCandidate" where
  "ParseCandidate L snapshot candidate =
     (if raw_schema_version candidate \<noteq> 1 \<or> raw_job_id candidate \<noteq> job_id snapshot
          \<or> \<not> IsUuid (uuid_value (raw_job_id candidate)) CHR ''7''
      then RejectCandidate RejectionReason.kInvariantViolation
      else case ParseEvent (raw_event_type candidate) of
        None \<Rightarrow> RejectCandidate RejectionReason.kInvalidEventPayload
      | Some type \<Rightarrow>
          if type = EventType.kCancelAccepted \<or> type = EventType.kTerminateAccepted
          then RejectCandidate RejectionReason.kInvalidEventPayload
          else (case ParseJson L (raw_payload_json candidate) of
            None \<Rightarrow> RejectCandidate RejectionReason.kInvalidEventPayload
          | Some payload \<Rightarrow>
              (case ParseCandidatePayload L type payload (raw_job_id candidate) of
                None \<Rightarrow> RejectCandidate RejectionReason.kInvalidEventPayload
              | Some parsed \<Rightarrow> Normalize snapshot type parsed)))"

definition NormalizeCandidate ::
  "libs \<Rightarrow> Snapshot \<Rightarrow> RawCandidateEvent \<Rightarrow> NormalizedCandidate" where
  "NormalizeCandidate L s candidate = ParseCandidate L s candidate"

section \<open>Valid typed payloads\<close>

fun PayloadMatches :: "EventType \<Rightarrow> EventPayload \<Rightarrow> bool" where
  "PayloadMatches EventType.kJobCreated payload = is_JobCreatedPayload payload"
| "PayloadMatches EventType.kResourcesCommitted payload = is_ResourcesCommittedPayload payload"
| "PayloadMatches EventType.kWorkerLaunchIntent payload = is_WorkerLaunchIntentPayload payload"
| "PayloadMatches EventType.kWorkerLaunchObserved payload = is_WorkerLaunchObservedPayload payload"
| "PayloadMatches EventType.kWorkerRunning payload = is_WorkerRunningPayload payload"
| "PayloadMatches EventType.kCancelAccepted payload = is_PrincipalPayload payload"
| "PayloadMatches EventType.kTerminateAccepted payload = is_PrincipalPayload payload"
| "PayloadMatches EventType.kTimeoutExpired payload = is_TimeoutExpiredPayload payload"
| "PayloadMatches EventType.kWorkerCompleted payload = is_WorkerEventPayload payload"
| "PayloadMatches EventType.kWorkerFailed payload = is_WorkerEventPayload payload"
| "PayloadMatches EventType.kProcessExitConfirmed payload = is_ProcessExitConfirmedPayload payload"
| "PayloadMatches EventType.kSessionRetainRequested payload = is_SessionPayload payload"
| "PayloadMatches EventType.kSessionRetained payload = is_SessionPayload payload"
| "PayloadMatches EventType.kFinalizationCompleted payload = (payload = EmptyPayload)"
| "PayloadMatches EventType.kFinalizationFailed payload = (payload = EmptyPayload)"
| "PayloadMatches EventType.kTerminalOutcomeCommitted payload = is_TerminalOutcomePayload payload"
| "PayloadMatches EventType.kResourcesReleased payload = is_ResourcesReleasedPayload payload"
| "PayloadMatches EventType.kCleanupStatusRecorded payload = is_CleanupStatusPayload payload"
| "PayloadMatches EventType.kLateWorkerEvent payload = is_LateWorkerEventPayload payload"
| "PayloadMatches EventType.kInvalid payload = False"

definition ValidInternalPayload :: "libs \<Rightarrow> EventType \<Rightarrow> EventPayload \<Rightarrow> Uuid \<Rightarrow> bool" where
  "ValidInternalPayload L type payload jid =
     (if \<not> IsEventType type \<or> \<not> PayloadMatches type payload then False
      else case payload of
        JobCreatedPayload session \<Rightarrow> IsUuid (uuid_value session) CHR ''7'' \<and> session = jid
      | ResourcesCommittedPayload alloc digest schema version text \<Rightarrow>
          IsStable (stable_value alloc) \<and> IsDigest (digest_value digest)
          \<and> IsStable (stable_value schema) \<and> version \<noteq> 0
          \<and> ParseResolvedAllocationJson L text \<noteq> None
          \<and> Sha256 L text = digest_value digest
      | WorkerLaunchIntentPayload operation application version bundle alloc digest worker \<Rightarrow>
          IsStable (stable_value operation) \<and> IsStable (stable_value application)
          \<and> IsUtf8ScalarString version 128 \<and> IsDigest (digest_value bundle)
          \<and> IsStable (stable_value alloc) \<and> IsDigest (digest_value digest)
          \<and> IsUuid (uuid_value worker) CHR ''4''
      | WorkerLaunchObservedPayload operation started \<Rightarrow> IsStable (stable_value operation)
      | WorkerRunningPayload worker \<Rightarrow> IsUuid (uuid_value worker) CHR ''4''
      | PrincipalPayload subject \<Rightarrow> IsPrincipal subject
      | TimeoutExpiredPayload phase generation \<Rightarrow> IsTimeoutPhase phase \<and> generation \<noteq> 0
      | WorkerEventPayload worker sequence \<Rightarrow>
          IsUuid (uuid_value worker) CHR ''4'' \<and> sequence \<noteq> 0
      | ProcessExitConfirmedPayload mode operation \<Rightarrow>
          IsCompletionMode mode \<and> mode \<noteq> CompletionMode.kNone
          \<and> IsStable (stable_value operation)
      | SessionPayload session \<Rightarrow> IsUuid (uuid_value session) CHR ''7''
      | TerminalOutcomePayload outcome \<Rightarrow> IsTerminalOutcome outcome
      | ResourcesReleasedPayload alloc digest \<Rightarrow>
          IsStable (stable_value alloc) \<and> IsDigest (digest_value digest)
      | CleanupStatusPayload status \<Rightarrow> IsCleanupStatus status \<and> status \<noteq> CleanupStatus.kPending
      | LateWorkerEventPayload original worker sequence \<Rightarrow>
          (original = EventType.kWorkerCompleted \<or> original = EventType.kWorkerFailed)
          \<and> IsUuid (uuid_value worker) CHR ''4'' \<and> sequence \<noteq> 0
      | EmptyPayload \<Rightarrow> True)"

section \<open>Normalisation yields valid typed events\<close>

lemma ucast_u32_nonzero:
  fixes v :: u64
  assumes "v \<noteq> 0" "v \<le> 0xFFFFFFFF"
  shows "(ucast v :: u32) \<noteq> 0"
proof
  assume "(ucast v :: u32) = 0"
  then have "unat (ucast v :: u32) = 0" by simp
  then have "unat v mod 2 ^ 32 = 0"
    by (simp add: unsigned_ucast_eq unsigned_take_bit_eq take_bit_eq_mod)
  moreover have "unat v < 2 ^ 32"
    using assms(2) by (simp add: word_le_nat_alt)
  ultimately show False
    using assms(1) by (simp add: unat_eq_0)
qed

lemma parsed_JobCreated:
  "ParseJobCreatedPayload p jid = Some q \<Longrightarrow> ValidInternalPayload L EventType.kJobCreated q jid"
  by (cases jid) (auto simp: ParseJobCreatedPayload_def ValidInternalPayload_def bind_eq_Some_conv enum_defs)

lemma parsed_ResourcesCommitted:
  "ParseResourcesCommittedPayload L p = Some q \<Longrightarrow> ValidInternalPayload L EventType.kResourcesCommitted q jid"
  by (auto simp: ParseResourcesCommittedPayload_def ValidInternalPayload_def bind_eq_Some_conv enum_defs
       ucast_u32_nonzero)

lemma parsed_WorkerLaunchIntent:
  "ParseWorkerLaunchIntentPayload p = Some q \<Longrightarrow> ValidInternalPayload L EventType.kWorkerLaunchIntent q jid"
  by (auto simp: ParseWorkerLaunchIntentPayload_def ValidInternalPayload_def bind_eq_Some_conv enum_defs)

lemma parsed_WorkerLaunchObserved:
  "ParseWorkerLaunchObservedPayload p = Some q \<Longrightarrow> ValidInternalPayload L EventType.kWorkerLaunchObserved q jid"
  by (auto simp: ParseWorkerLaunchObservedPayload_def ValidInternalPayload_def bind_eq_Some_conv enum_defs)

lemma parsed_WorkerRunning:
  "ParseWorkerRunningPayload p = Some q \<Longrightarrow> ValidInternalPayload L EventType.kWorkerRunning q jid"
  by (auto simp: ParseWorkerRunningPayload_def ValidInternalPayload_def bind_eq_Some_conv enum_defs)

lemma parsed_TimeoutExpired:
  "ParseTimeoutExpiredPayload p = Some q \<Longrightarrow> ValidInternalPayload L EventType.kTimeoutExpired q jid"
  by (auto simp: ParseTimeoutExpiredPayload_def ValidInternalPayload_def bind_eq_Some_conv
      IsEventType_def UInt64Field_def dest: ParsePhase_closed split: if_splits option.splits)

lemma parsed_WorkerEvent:
  "ParseWorkerEventPayload p = Some q \<Longrightarrow> type = EventType.kWorkerCompleted \<or> type = EventType.kWorkerFailed
   \<Longrightarrow> ValidInternalPayload L type q jid"
  by (auto simp: ParseWorkerEventPayload_def ValidInternalPayload_def bind_eq_Some_conv
      IsEventType_def UInt64Field_def split: if_splits option.splits)

lemma parsed_ProcessExitConfirmed:
  "ParseProcessExitConfirmedPayload p = Some q \<Longrightarrow>
   ValidInternalPayload L EventType.kProcessExitConfirmed q jid"
  by (auto simp: ParseProcessExitConfirmedPayload_def ValidInternalPayload_def bind_eq_Some_conv
      IsEventType_def dest: ParseMode_closed)

lemma parsed_Session:
  "ParseSessionPayload p = Some q \<Longrightarrow>
   type = EventType.kSessionRetainRequested \<or> type = EventType.kSessionRetained
   \<Longrightarrow> ValidInternalPayload L type q jid"
  by (auto simp: ParseSessionPayload_def ValidInternalPayload_def bind_eq_Some_conv IsEventType_def)

lemma parsed_Empty:
  "ParseEmptyPayload p = Some q \<Longrightarrow>
   type = EventType.kFinalizationCompleted \<or> type = EventType.kFinalizationFailed
   \<Longrightarrow> ValidInternalPayload L type q jid"
  by (auto simp: ParseEmptyPayload_def ValidInternalPayload_def IsEventType_def split: if_splits)

lemma parsed_TerminalOutcome:
  "ParseTerminalOutcomePayload p = Some q \<Longrightarrow>
   ValidInternalPayload L EventType.kTerminalOutcomeCommitted q jid"
  by (auto simp: ParseTerminalOutcomePayload_def ValidInternalPayload_def bind_eq_Some_conv
      IsEventType_def dest: ParseOutcome_closed)

lemma parsed_ResourcesReleased:
  "ParseResourcesReleasedPayload p = Some q \<Longrightarrow> ValidInternalPayload L EventType.kResourcesReleased q jid"
  by (auto simp: ParseResourcesReleasedPayload_def ValidInternalPayload_def bind_eq_Some_conv enum_defs)

lemma parsed_CleanupStatus:
  "ParseCleanupStatusPayload p = Some q \<Longrightarrow> ValidInternalPayload L EventType.kCleanupStatusRecorded q jid"
  by (auto simp: ParseCleanupStatusPayload_def ValidInternalPayload_def bind_eq_Some_conv enum_defs)

lemmas parsed_payloads =
  parsed_JobCreated parsed_ResourcesCommitted parsed_WorkerLaunchIntent
  parsed_WorkerLaunchObserved parsed_WorkerRunning parsed_TimeoutExpired parsed_WorkerEvent
  parsed_ProcessExitConfirmed parsed_Session parsed_Empty parsed_TerminalOutcome
  parsed_ResourcesReleased parsed_CleanupStatus

lemma ParseCandidatePayload_valid:
  assumes "ParseCandidatePayload L type payload jid = Some parsed"
  shows "ValidInternalPayload L type parsed jid"
  using assms by (cases type) (simp_all add: parsed_payloads)

lemma NormalizeCandidate_cases:
  assumes "NormalizeCandidate L s c = Inr e"
  obtains type payload parsed where
    "raw_schema_version c = 1" "raw_job_id c = job_id s"
    "IsUuid (uuid_value (job_id s)) CHR ''7''"
    "ParseEvent (raw_event_type c) = Some type"
    "type \<noteq> EventType.kCancelAccepted" "type \<noteq> EventType.kTerminateAccepted"
    "ParseJson L (raw_payload_json c) = Some payload"
    "ParseCandidatePayload L type payload (job_id s) = Some parsed"
    "e = \<lparr>ie_schema_version = 1, ie_job_id = job_id s, ie_event_type = type, ie_payload = parsed\<rparr>"
  using assms
  by (auto simp: NormalizeCandidate_def ParseCandidate_def RejectCandidate_def Normalize_def
      split: if_splits option.splits)

lemma NormalizeCandidate_valid:
  assumes "NormalizeCandidate L s c = Inr e"
  shows "ie_schema_version e = 1 \<and> ie_job_id e = job_id s \<and> raw_job_id c = job_id s
    \<and> IsUuid (uuid_value (job_id s)) CHR ''7''
    \<and> ValidInternalPayload L (ie_event_type e) (ie_payload e) (job_id s)
    \<and> EventType_ToString (ie_event_type e) = raw_event_type c
    \<and> ie_event_type e \<notin> {EventType.kCancelAccepted, EventType.kTerminateAccepted,
                           EventType.kLateWorkerEvent, EventType.kInvalid}"
  using assms
proof (rule NormalizeCandidate_cases)
  fix type payload parsed
  assume "ParseCandidatePayload L type payload (job_id s) = Some parsed"
    and "ParseEvent (raw_event_type c) = Some type"
    and "type \<noteq> EventType.kCancelAccepted" "type \<noteq> EventType.kTerminateAccepted"
    and "raw_job_id c = job_id s" "IsUuid (uuid_value (job_id s)) CHR ''7''"
    and "e = \<lparr>ie_schema_version = 1, ie_job_id = job_id s, ie_event_type = type,
              ie_payload = parsed\<rparr>"
  moreover from this(1) have "type \<noteq> EventType.kLateWorkerEvent" "type \<noteq> EventType.kInvalid"
    by auto
  ultimately show ?thesis
    using ParseCandidatePayload_valid ParseEvent_closed by simp
qed

end
