(* ===== verification/Job_Reducer.thy ===== *)
theory Job_Reducer
  imports Payload_Parsing
begin

text \<open>
  The pure reducer of \<^verbatim>\<open>src/core/job_reducer.cpp\<close>: the validity of a snapshot, the decision on
  a command or an event (\<^verbatim>\<open>DecideCommand\<close>, \<^verbatim>\<open>DecideEvent\<close>), and the state change with its
  effects (\<^verbatim>\<open>Apply\<close>). A function that mutates \<^verbatim>\<open>Snapshot*\<close> and \<^verbatim>\<open>std::vector<Effect>*\<close> takes
  the two values and returns the new pair; a \<^verbatim>\<open>Decision\<close> is \<open>Inl\<close> of a rejection or \<open>Inr\<close> of a
  proposal. Each decision and each state change is one definition with the source's name.
\<close>

section \<open>Decisions as values\<close>

definition Reject :: "RejectionReason \<Rightarrow> Decision" where
  "Reject reason = Inl \<lparr>rej_schema_version = 1, rej_reason = reason\<rparr>"

definition Accept :: "Snapshot \<Rightarrow> EventType \<Rightarrow> EventPayload \<Rightarrow> Decision" where
  "Accept snapshot type payload =
     Inr \<lparr>pp_schema_version = 1, pp_job_id = job_id snapshot, pp_event_type = type,
          pp_payload = payload\<rparr>"

definition RejectState :: Decision where
  "RejectState = Reject RejectionReason.kEventNotAllowedInState"

section \<open>Valid snapshots\<close>

definition HasValidSnapshotIdentity :: "Snapshot \<Rightarrow> bool" where
  [valid_defs]: "HasValidSnapshotIdentity s \<longleftrightarrow>
     schema_version s = 1 \<and> IsUuid (uuid_value (job_id s)) CHR ''7''
     \<and> IsUuid (uuid_value (session_id s)) CHR ''7'' \<and> job_id s = session_id s"

definition HasValidSnapshotEnums :: "Snapshot \<Rightarrow> bool" where
  [valid_defs]: "HasValidSnapshotEnums s \<longleftrightarrow>
     state s \<noteq> JobState.kInvalid \<and> IsCompletionMode (completion_mode s)
     \<and> IsResourceStatus (resource_status s) \<and> IsLaunchStatus (worker_launch_status s)
     \<and> IsProcessPresence (process_presence s) \<and> IsRetentionStatus (session_retention_status s)
     \<and> IsFinalizationStatus (finalization_status s) \<and> IsCleanupStatus (cleanup_status s)"

definition HasValidSnapshotOptionalDomains :: "Snapshot \<Rightarrow> bool" where
  [valid_defs]: "HasValidSnapshotOptionalDomains s \<longleftrightarrow>
     (case latched_reason s of None \<Rightarrow> True
      | Some r \<Rightarrow> IsTerminalOutcome r \<and> r \<noteq> TerminalOutcome.kSucceeded)
     \<and> (case allocation_id s of None \<Rightarrow> True | Some a \<Rightarrow> IsStable (stable_value a))
     \<and> (case allocation_digest s of None \<Rightarrow> True | Some d \<Rightarrow> IsDigest (digest_value d))
     \<and> (case launch_operation_id s of None \<Rightarrow> True | Some l \<Rightarrow> IsStable (stable_value l))
     \<and> (case worker_id s of None \<Rightarrow> True | Some w \<Rightarrow> IsUuid (uuid_value w) CHR ''4'')
     \<and> (case pending_worker_id s of None \<Rightarrow> True | Some w \<Rightarrow> IsUuid (uuid_value w) CHR ''4'')
     \<and> pending_worker_event_sequence s \<noteq> Some 0"

definition HasValidResourceFacts :: "Snapshot \<Rightarrow> bool" where
  [valid_defs]: "HasValidResourceFacts s =
     (if resource_status s = ResourceStatus.kNone
      then allocation_id s = None \<and> allocation_digest s = None
      else if allocation_id s = None \<or> allocation_digest s = None then False
      else resource_status s \<noteq> ResourceStatus.kReleased \<or> process_exit_confirmed s)"

definition HasValidExitFacts :: "Snapshot \<Rightarrow> bool" where
  [valid_defs]: "HasValidExitFacts s =
     (if process_exit_confirmed s
         \<and> (process_presence s \<noteq> ProcessPresence.kAbsent \<or> pending_worker_event_ack s
            \<or> pending_worker_id s \<noteq> None \<or> pending_worker_event_sequence s \<noteq> None)
      then False
      else completion_mode s \<noteq> CompletionMode.kProcessAlreadyExited \<or> process_exit_confirmed s)"

definition HasValidLaunchFacts :: "Snapshot \<Rightarrow> bool" where
  [valid_defs]: "HasValidLaunchFacts s =
     (if worker_launch_status s = LaunchStatus.kNotStarted
      then launch_operation_id s = None \<and> worker_id s = None
      else launch_operation_id s \<noteq> None
        \<and> (case worker_id s of None \<Rightarrow> False | Some w \<Rightarrow> IsUuid (uuid_value w) CHR ''4''))"

definition HasValidPendingAckFacts :: "Snapshot \<Rightarrow> bool" where
  [valid_defs]: "HasValidPendingAckFacts s =
     (if \<not> pending_worker_event_ack s
      then pending_worker_id s = None \<and> pending_worker_event_sequence s = None
      else pending_worker_id s \<noteq> None
        \<and> (case pending_worker_event_sequence s of None \<Rightarrow> False | Some n \<Rightarrow> n \<noteq> 0))"

definition HasValidStateFacts :: "Snapshot \<Rightarrow> bool" where
  [valid_defs]: "HasValidStateFacts s =
     (if state s = JobState.kAdmitted
         \<and> (resource_status s \<noteq> ResourceStatus.kNone
            \<or> worker_launch_status s \<noteq> LaunchStatus.kNotStarted
            \<or> process_presence s \<noteq> ProcessPresence.kAbsent \<or> process_exit_confirmed s)
      then False
      else if (state s = JobState.kAdmitted \<or> state s = JobState.kPreparing
               \<or> state s = JobState.kRunning \<or> state s = JobState.kStopping)
           \<and> finalization_status s \<noteq> FinalizationStatus.kNotStarted
      then False
      else if state s = JobState.kFinalizing
           \<and> finalization_status s = FinalizationStatus.kNotStarted
      then False
      else \<not> IsTerminal (state s)
        \<or> finalization_status s = FinalizationStatus.kCompleted
        \<or> finalization_status s = FinalizationStatus.kFailed)"

definition ValidSnapshot :: "Snapshot \<Rightarrow> bool" where
  "ValidSnapshot s \<longleftrightarrow>
     HasValidSnapshotIdentity s \<and> HasValidSnapshotEnums s \<and> HasValidSnapshotOptionalDomains s
     \<and> HasValidResourceFacts s \<and> HasValidExitFacts s \<and> HasValidLaunchFacts s
     \<and> HasValidPendingAckFacts s \<and> HasValidStateFacts s"

section \<open>Decisions per event\<close>

definition AcceptEvent :: "Snapshot \<Rightarrow> InternalEvent \<Rightarrow> Decision" where
  [decide_defs]: "AcceptEvent s event = Accept s (ie_event_type event) (ie_payload event)"

definition DecideResourcesCommitted :: "Snapshot \<Rightarrow> InternalEvent \<Rightarrow> Decision" where
  [decide_defs]: "DecideResourcesCommitted s event =
     (if state s = JobState.kAdmitted then AcceptEvent s event else RejectState)"

definition DecideWorkerLaunchIntent :: "Snapshot \<Rightarrow> InternalEvent \<Rightarrow> Decision" where
  [decide_defs]: "DecideWorkerLaunchIntent s event =
     (if state s \<noteq> JobState.kPreparing then RejectState
      else case ie_payload event of
        WorkerLaunchIntentPayload _ _ _ _ alloc digest _ \<Rightarrow>
          if worker_launch_status s = LaunchStatus.kNotStarted \<and> allocation_id s = Some alloc
             \<and> allocation_digest s = Some digest
          then AcceptEvent s event else Reject RejectionReason.kInvariantViolation
      | _ \<Rightarrow> Reject RejectionReason.kInvalidEventPayload)"

definition DecideWorkerLaunchObserved :: "Snapshot \<Rightarrow> InternalEvent \<Rightarrow> Decision" where
  [decide_defs]: "DecideWorkerLaunchObserved s event =
     (if state s \<noteq> JobState.kPreparing then RejectState
      else case ie_payload event of
        WorkerLaunchObservedPayload operation _ \<Rightarrow>
          if launch_operation_id s \<noteq> Some operation
             \<or> worker_launch_status s \<noteq> LaunchStatus.kIntentRecorded
          then Reject RejectionReason.kInvariantViolation else AcceptEvent s event
      | _ \<Rightarrow> Reject RejectionReason.kInvariantViolation)"

definition DecideWorkerRunning :: "Snapshot \<Rightarrow> InternalEvent \<Rightarrow> Decision" where
  [decide_defs]: "DecideWorkerRunning s event =
     (if state s \<noteq> JobState.kPreparing then RejectState
      else case ie_payload event of
        WorkerRunningPayload worker \<Rightarrow>
          if worker_launch_status s = LaunchStatus.kObserved \<and> worker_id s = Some worker
          then AcceptEvent s event else Reject RejectionReason.kInvariantViolation
      | _ \<Rightarrow> Reject RejectionReason.kInvariantViolation)"

definition DecideCancelAccepted :: "Snapshot \<Rightarrow> InternalEvent \<Rightarrow> Decision" where
  [decide_defs]: "DecideCancelAccepted s event =
     (if state s = JobState.kStopping then Reject RejectionReason.kStopCauseAlreadyLatched
      else if state s = JobState.kFinalizing \<or> IsTerminal (state s)
      then Reject RejectionReason.kCommandNotAllowedInState
      else if state s = JobState.kAdmitted \<or> state s = JobState.kPreparing
              \<or> state s = JobState.kRunning
      then AcceptEvent s event else RejectState)"

definition DecideTerminateAccepted :: "Snapshot \<Rightarrow> InternalEvent \<Rightarrow> Decision" where
  [decide_defs]: "DecideTerminateAccepted s event =
     (if state s = JobState.kStopping \<or> state s = JobState.kFinalizing
      then if \<not> process_exit_confirmed s then AcceptEvent s event
           else Reject RejectionReason.kCommandNotAllowedInState
      else if IsTerminal (state s) then Reject RejectionReason.kCommandNotAllowedInState
      else if state s = JobState.kAdmitted \<or> state s = JobState.kPreparing
              \<or> state s = JobState.kRunning
      then AcceptEvent s event else RejectState)"

definition DecideFinalizingTimeout ::
  "Snapshot \<Rightarrow> InternalEvent \<Rightarrow> TimeoutPhase \<Rightarrow> Decision" where
  [decide_defs]: "DecideFinalizingTimeout s event phase =
     (if phase \<noteq> TimeoutPhase.kExecution then Reject RejectionReason.kTimeoutPhaseMismatch
      else if latched_reason s = None \<and> completion_candidate s then AcceptEvent s event
      else if latched_reason s = Some TerminalOutcome.kFailed
              \<or> latched_reason s = Some TerminalOutcome.kCancelled
              \<or> latched_reason s = Some TerminalOutcome.kTerminated
              \<or> latched_reason s = Some TerminalOutcome.kTimedOut
      then AcceptEvent s event
      else Reject RejectionReason.kTimeoutPhaseMismatch)"

definition DecideTimeoutExpired :: "Snapshot \<Rightarrow> InternalEvent \<Rightarrow> Decision" where
  [decide_defs]: "DecideTimeoutExpired s event =
     (case ie_payload event of
        TimeoutExpiredPayload phase _ \<Rightarrow>
          (if state s = JobState.kPreparing
           then if phase = TimeoutPhase.kPreparation then AcceptEvent s event
                else Reject RejectionReason.kTimeoutPhaseMismatch
           else if state s = JobState.kRunning
           then if phase = TimeoutPhase.kExecution then AcceptEvent s event
                else Reject RejectionReason.kTimeoutPhaseMismatch
           else if state s = JobState.kStopping
           then if phase = TimeoutPhase.kExecution \<or> phase = TimeoutPhase.kCooperativeStop
                then AcceptEvent s event else Reject RejectionReason.kTimeoutPhaseMismatch
           else if state s = JobState.kFinalizing then DecideFinalizingTimeout s event phase
           else if \<not> IsTerminal (state s) then RejectState
           else if phase \<noteq> TimeoutPhase.kProcessExitConfirmation
           then Reject RejectionReason.kTimeoutPhaseMismatch
           else if process_exit_confirmed s then Reject RejectionReason.kInvariantViolation
           else AcceptEvent s event)
      | _ \<Rightarrow> Reject RejectionReason.kInvalidEventPayload)"

definition DecideWorkerOutcome :: "Snapshot \<Rightarrow> InternalEvent \<Rightarrow> Decision" where
  [decide_defs]: "DecideWorkerOutcome s event =
     (case ie_payload event of
        WorkerEventPayload worker sequence \<Rightarrow>
          (if IsTerminal (state s) \<or> state s = JobState.kFinalizing
           then if worker_id s = Some worker
                then Accept s EventType.kLateWorkerEvent
                       (LateWorkerEventPayload (ie_event_type event) worker sequence)
                else Reject RejectionReason.kInvariantViolation
           else if state s \<noteq> JobState.kRunning \<and> state s \<noteq> JobState.kStopping
                \<and> \<not> (state s = JobState.kPreparing
                     \<and> ie_event_type event = EventType.kWorkerFailed)
           then RejectState
           else if worker_id s = Some worker then AcceptEvent s event
           else Reject RejectionReason.kInvariantViolation)
      | _ \<Rightarrow> Reject RejectionReason.kInvalidEventPayload)"

definition DecideProcessExitConfirmed :: "Snapshot \<Rightarrow> InternalEvent \<Rightarrow> Decision" where
  [decide_defs]: "DecideProcessExitConfirmed s event =
     (if state s = JobState.kAdmitted then RejectState
      else case ie_payload event of
        ProcessExitConfirmedPayload mode operation \<Rightarrow>
          if launch_operation_id s \<noteq> Some operation
          then Reject RejectionReason.kInvariantViolation
          else if (state s = JobState.kFinalizing \<or> IsTerminal (state s))
               \<and> process_exit_confirmed s \<and> completion_mode s \<noteq> mode
          then Reject RejectionReason.kInvariantViolation
          else AcceptEvent s event
      | _ \<Rightarrow> Reject RejectionReason.kInvariantViolation)"

definition DecideSessionRetain :: "Snapshot \<Rightarrow> InternalEvent \<Rightarrow> RetentionStatus \<Rightarrow> Decision" where
  [decide_defs]: "DecideSessionRetain s event expected_status =
     (if state s \<noteq> JobState.kFinalizing then RejectState
      else case ie_payload event of
        SessionPayload session \<Rightarrow>
          if session_retention_status s = expected_status \<and> session = session_id s
          then AcceptEvent s event else Reject RejectionReason.kInvariantViolation
      | _ \<Rightarrow> Reject RejectionReason.kInvariantViolation)"

definition DecideFinalizationCompleted :: "Snapshot \<Rightarrow> InternalEvent \<Rightarrow> Decision" where
  [decide_defs]: "DecideFinalizationCompleted s event =
     (if state s \<noteq> JobState.kFinalizing then RejectState
      else if session_retention_status s \<noteq> RetentionStatus.kRetained
      then Reject RejectionReason.kRequiredFinalizationFactMissing
      else if finalization_status s = FinalizationStatus.kPending then AcceptEvent s event
      else Reject RejectionReason.kInvariantViolation)"

definition DecideFinalizationFailed :: "Snapshot \<Rightarrow> InternalEvent \<Rightarrow> Decision" where
  [decide_defs]: "DecideFinalizationFailed s event =
     (if state s \<noteq> JobState.kFinalizing then RejectState
      else if finalization_status s \<noteq> FinalizationStatus.kPending
              \<or> (latched_reason s = None \<and> \<not> completion_candidate s)
      then Reject RejectionReason.kInvariantViolation
      else AcceptEvent s event)"

definition DecideTerminalOutcomeCommitted :: "Snapshot \<Rightarrow> InternalEvent \<Rightarrow> Decision" where
  [decide_defs]: "DecideTerminalOutcomeCommitted s event =
     (if state s \<noteq> JobState.kFinalizing then RejectState
      else case ie_payload event of
        TerminalOutcomePayload outcome \<Rightarrow>
          if finalization_status s = FinalizationStatus.kPending
          then Reject RejectionReason.kRequiredFinalizationFactMissing
          else if outcome = TerminalOutcome.kSucceeded \<and> latched_reason s = None
                  \<and> completion_candidate s
                  \<and> finalization_status s = FinalizationStatus.kCompleted
                \<or> outcome = TerminalOutcome.kFailed
                  \<and> latched_reason s = Some TerminalOutcome.kFailed
                \<or> outcome = TerminalOutcome.kCancelled
                  \<and> latched_reason s = Some TerminalOutcome.kCancelled
                \<or> outcome = TerminalOutcome.kTerminated
                  \<and> latched_reason s = Some TerminalOutcome.kTerminated
                \<or> outcome = TerminalOutcome.kTimedOut
                  \<and> latched_reason s = Some TerminalOutcome.kTimedOut
          then AcceptEvent s event
          else Reject RejectionReason.kTerminalOutcomeMismatch
      | _ \<Rightarrow> Reject RejectionReason.kRequiredFinalizationFactMissing)"

definition DecideResourcesReleased :: "Snapshot \<Rightarrow> InternalEvent \<Rightarrow> Decision" where
  [decide_defs]: "DecideResourcesReleased s event =
     (if \<not> IsTerminal (state s) then RejectState
      else if \<not> process_exit_confirmed s then Reject RejectionReason.kInvariantViolation
      else case ie_payload event of
        ResourcesReleasedPayload alloc digest \<Rightarrow>
          if allocation_id s \<noteq> Some alloc \<or> allocation_digest s \<noteq> Some digest
          then Reject RejectionReason.kInvariantViolation
          else if resource_status s = ResourceStatus.kCommitted
                  \<or> resource_status s = ResourceStatus.kReleased
          then AcceptEvent s event else Reject RejectionReason.kInvariantViolation
      | _ \<Rightarrow> Reject RejectionReason.kInvariantViolation)"

definition DecideCleanupStatusRecorded :: "Snapshot \<Rightarrow> InternalEvent \<Rightarrow> Decision" where
  [decide_defs]: "DecideCleanupStatusRecorded s event =
     (if \<not> IsTerminal (state s) then RejectState
      else case ie_payload event of
        CleanupStatusPayload status \<Rightarrow>
          if cleanup_status s = CleanupStatus.kPending \<or> cleanup_status s = status
          then AcceptEvent s event else Reject RejectionReason.kInvariantViolation
      | _ \<Rightarrow> Reject RejectionReason.kInvariantViolation)"

text \<open>The \<^verbatim>\<open>switch\<close> over the event type in \<^verbatim>\<open>DecideInternal\<close>.\<close>

definition DecideSwitch :: "Snapshot \<Rightarrow> InternalEvent \<Rightarrow> Decision" where
  "DecideSwitch s event =
     (case ie_event_type event of
        EventType.kResourcesCommitted \<Rightarrow> DecideResourcesCommitted s event
      | EventType.kWorkerLaunchIntent \<Rightarrow> DecideWorkerLaunchIntent s event
      | EventType.kWorkerLaunchObserved \<Rightarrow> DecideWorkerLaunchObserved s event
      | EventType.kWorkerRunning \<Rightarrow> DecideWorkerRunning s event
      | EventType.kCancelAccepted \<Rightarrow> DecideCancelAccepted s event
      | EventType.kTerminateAccepted \<Rightarrow> DecideTerminateAccepted s event
      | EventType.kTimeoutExpired \<Rightarrow> DecideTimeoutExpired s event
      | EventType.kWorkerCompleted \<Rightarrow> DecideWorkerOutcome s event
      | EventType.kWorkerFailed \<Rightarrow> DecideWorkerOutcome s event
      | EventType.kProcessExitConfirmed \<Rightarrow> DecideProcessExitConfirmed s event
      | EventType.kSessionRetainRequested \<Rightarrow> DecideSessionRetain s event RetentionStatus.kNotStarted
      | EventType.kSessionRetained \<Rightarrow> DecideSessionRetain s event RetentionStatus.kRequested
      | EventType.kFinalizationCompleted \<Rightarrow> DecideFinalizationCompleted s event
      | EventType.kFinalizationFailed \<Rightarrow> DecideFinalizationFailed s event
      | EventType.kTerminalOutcomeCommitted \<Rightarrow> DecideTerminalOutcomeCommitted s event
      | EventType.kResourcesReleased \<Rightarrow> DecideResourcesReleased s event
      | EventType.kCleanupStatusRecorded \<Rightarrow> DecideCleanupStatusRecorded s event
      | EventType.kLateWorkerEvent \<Rightarrow>
          (if IsTerminal (state s) \<or> state s = JobState.kFinalizing then AcceptEvent s event
           else RejectState)
      | EventType.kJobCreated \<Rightarrow> Reject RejectionReason.kJobAlreadyExists
      | EventType.kInvalid \<Rightarrow> Reject RejectionReason.kInvalidEventPayload)"

definition DecideInternal :: "libs \<Rightarrow> Snapshot \<Rightarrow> InternalEvent \<Rightarrow> Decision" where
  "DecideInternal L s event =
     (if \<not> ValidSnapshot s then Reject RejectionReason.kInvariantViolation
      else if ie_schema_version event \<noteq> 1 \<or> ie_job_id event \<noteq> job_id s
              \<or> \<not> IsUuid (uuid_value (ie_job_id event)) CHR ''7''
              \<or> \<not> ValidInternalPayload L (ie_event_type event) (ie_payload event) (ie_job_id event)
      then Reject RejectionReason.kInvalidEventPayload
      else if \<not> entity_exists s \<and> ie_event_type event \<noteq> EventType.kJobCreated
      then Reject RejectionReason.kJobNotFound
      else if ie_event_type event = EventType.kJobCreated
      then if entity_exists s then Reject RejectionReason.kJobAlreadyExists
           else AcceptEvent s event
      else DecideSwitch s event)"

definition DecideEvent :: "libs \<Rightarrow> Snapshot \<Rightarrow> InternalEvent \<Rightarrow> Decision" where
  "DecideEvent L s event = DecideInternal L s event"

definition DecideCommand :: "Snapshot \<Rightarrow> Command \<Rightarrow> Decision" where
  "DecideCommand s command =
     (if \<not> ValidSnapshot s then Reject RejectionReason.kInvariantViolation
      else if cmd_schema_version command \<noteq> 1 \<or> \<not> IsUuid (uuid_value (cmd_job_id command)) CHR ''7''
              \<or> \<not> IsPrincipal (cmd_principal_subject command)
              \<or> \<not> IsCommandType (cmd_command_type command)
      then Reject RejectionReason.kInvalidEventPayload
      else if cmd_job_id command \<noteq> job_id s \<or> \<not> entity_exists s
      then Reject RejectionReason.kJobNotFound
      else if cmd_command_type command = CommandType.kCancel \<and> state s = JobState.kStopping
      then Reject RejectionReason.kStopCauseAlreadyLatched
      else if cmd_command_type command = CommandType.kCancel
              \<and> state s \<noteq> JobState.kAdmitted \<and> state s \<noteq> JobState.kPreparing
              \<and> state s \<noteq> JobState.kRunning
      then Reject RejectionReason.kCommandNotAllowedInState
      else if cmd_command_type command \<noteq> CommandType.kCancel
              \<and> (state s = JobState.kStopping \<or> state s = JobState.kFinalizing)
              \<and> process_exit_confirmed s
      then Reject RejectionReason.kCommandNotAllowedInState
      else if cmd_command_type command \<noteq> CommandType.kCancel
              \<and> state s \<noteq> JobState.kAdmitted \<and> state s \<noteq> JobState.kPreparing
              \<and> state s \<noteq> JobState.kRunning \<and> state s \<noteq> JobState.kStopping
              \<and> state s \<noteq> JobState.kFinalizing
      then Reject RejectionReason.kCommandNotAllowedInState
      else Accept s (if cmd_command_type command = CommandType.kCancel
                     then EventType.kCancelAccepted else EventType.kTerminateAccepted)
             (PrincipalPayload (cmd_principal_subject command)))"

section \<open>State changes per event\<close>

type_synonym step = "Snapshot \<times> Effect list"

definition Add :: "Effect list \<Rightarrow> EffectId \<Rightarrow> Effect list" where
  [apply_defs]: "Add effects effect = effects @ [effect]"

definition BeginFinalizing :: "Snapshot \<Rightarrow> Snapshot" where
  [apply_defs]: "BeginFinalizing s =
     s\<lparr>state := JobState.kFinalizing, finalization_status := FinalizationStatus.kPending\<rparr>"

definition InitialSnapshot :: "Uuid \<Rightarrow> Uuid \<Rightarrow> Snapshot" where
  "InitialSnapshot jid sid =
     \<lparr>schema_version = 1, job_id = jid, session_id = sid, entity_exists = False,
      state = JobState.kAdmitted, latched_reason = None, completion_candidate = False,
      completion_mode = CompletionMode.kNone, resource_status = ResourceStatus.kNone,
      allocation_id = None, allocation_digest = None,
      worker_launch_status = LaunchStatus.kNotStarted, launch_operation_id = None,
      worker_id = None, process_presence = ProcessPresence.kAbsent,
      process_exit_confirmed = False, session_retention_status = RetentionStatus.kNotStarted,
      finalization_status = FinalizationStatus.kNotStarted,
      cleanup_status = CleanupStatus.kPending, pending_worker_event_ack = False,
      pending_worker_id = None, pending_worker_event_sequence = None\<rparr>"

definition ApplyJobCreated :: "Snapshot \<Rightarrow> Uuid \<Rightarrow> Snapshot" where
  [apply_defs]: "ApplyJobCreated s session =
     s\<lparr>entity_exists := True, state := JobState.kAdmitted, session_id := session,
       latched_reason := None, completion_candidate := False,
       completion_mode := CompletionMode.kNone, resource_status := ResourceStatus.kNone,
       allocation_id := None, allocation_digest := None,
       worker_launch_status := LaunchStatus.kNotStarted, launch_operation_id := None,
       worker_id := None, process_presence := ProcessPresence.kAbsent,
       process_exit_confirmed := False, session_retention_status := RetentionStatus.kNotStarted,
       finalization_status := FinalizationStatus.kNotStarted,
       cleanup_status := CleanupStatus.kPending, pending_worker_event_ack := False,
       pending_worker_id := None, pending_worker_event_sequence := None\<rparr>"

definition ApplyResourcesCommitted ::
  "Snapshot \<Rightarrow> Effect list \<Rightarrow> StableId \<Rightarrow> Digest \<Rightarrow> step" where
  [apply_defs]: "ApplyResourcesCommitted s effects alloc digest =
     (s\<lparr>state := JobState.kPreparing, resource_status := ResourceStatus.kCommitted,
        allocation_id := Some alloc, allocation_digest := Some digest\<rparr>,
      Add effects EffectId.kArmPreparationTimeout)"

definition ApplyWorkerLaunchIntent ::
  "Snapshot \<Rightarrow> Effect list \<Rightarrow> StableId \<Rightarrow> Uuid \<Rightarrow> step" where
  [apply_defs]: "ApplyWorkerLaunchIntent s effects operation worker =
     (s\<lparr>worker_launch_status := LaunchStatus.kIntentRecorded,
        launch_operation_id := Some operation, worker_id := Some worker,
        process_presence := ProcessPresence.kUnknown\<rparr>,
      Add effects EffectId.kLaunchWorkerOnce)"

definition ApplyWorkerLaunchObserved :: "Snapshot \<Rightarrow> Effect list \<Rightarrow> bool \<Rightarrow> step" where
  [apply_defs]: "ApplyWorkerLaunchObserved s effects started =
     (if started
      then (s\<lparr>worker_launch_status := LaunchStatus.kObserved,
              process_presence := ProcessPresence.kPresent\<rparr>, effects)
      else (BeginFinalizing (s\<lparr>worker_launch_status := LaunchStatus.kFailed,
              process_presence := ProcessPresence.kAbsent,
              latched_reason := Some TerminalOutcome.kFailed,
              completion_mode := CompletionMode.kProcessAlreadyExited,
              process_exit_confirmed := True\<rparr>),
            Add effects EffectId.kDisarmPreparationTimeout))"

definition ApplyWorkerRunning :: "Snapshot \<Rightarrow> Effect list \<Rightarrow> step" where
  [apply_defs]: "ApplyWorkerRunning s effects =
     (s\<lparr>state := JobState.kRunning, process_presence := ProcessPresence.kPresent\<rparr>,
      Add (Add effects EffectId.kDisarmPreparationTimeout) EffectId.kArmExecutionTimeout)"

definition ApplyCancelAccepted :: "Snapshot \<Rightarrow> Effect list \<Rightarrow> step" where
  [apply_defs]: "ApplyCancelAccepted s effects =
     (let old_state = state s;
          s1 = s\<lparr>latched_reason := Some TerminalOutcome.kCancelled\<rparr>;
          disarmed = (if old_state = JobState.kPreparing
                      then Add effects EffectId.kDisarmPreparationTimeout else effects)
      in if old_state = JobState.kAdmitted
            \<or> (old_state = JobState.kPreparing \<and> process_presence s1 = ProcessPresence.kAbsent)
         then (BeginFinalizing (s1\<lparr>completion_mode := CompletionMode.kProcessAlreadyExited,
                 process_exit_confirmed := True\<rparr>), disarmed)
         else (s1\<lparr>completion_mode := CompletionMode.kCooperative, state := JobState.kStopping\<rparr>,
               Add (Add disarmed EffectId.kRequestCooperativeStop)
                 EffectId.kArmCooperativeStopTimeout))"

definition ApplyTerminateAccepted :: "Snapshot \<Rightarrow> Effect list \<Rightarrow> step" where
  [apply_defs]: "ApplyTerminateAccepted s effects =
     (if state s = JobState.kStopping \<or> state s = JobState.kFinalizing
      then (s\<lparr>completion_mode := CompletionMode.kForced\<rparr>,
            Add (Add (Add effects EffectId.kRequestForcedStop)
              EffectId.kDisarmCooperativeStopTimeout)
              EffectId.kArmProcessExitConfirmationTimeoutIfNeeded)
      else let old_state = state s;
               s1 = s\<lparr>latched_reason := Some TerminalOutcome.kTerminated\<rparr>;
               disarmed = (if old_state = JobState.kPreparing
                           then Add effects EffectId.kDisarmPreparationTimeout else effects)
           in if old_state = JobState.kAdmitted
                 \<or> (old_state = JobState.kPreparing
                    \<and> process_presence s1 = ProcessPresence.kAbsent)
              then (BeginFinalizing (s1\<lparr>completion_mode := CompletionMode.kProcessAlreadyExited,
                      process_exit_confirmed := True\<rparr>), disarmed)
              else (s1\<lparr>completion_mode := CompletionMode.kForced, state := JobState.kStopping\<rparr>,
                    Add (Add (Add disarmed EffectId.kRequestForcedStop)
                      EffectId.kDisarmCooperativeStopTimeout)
                      EffectId.kArmProcessExitConfirmationTimeoutIfNeeded))"

definition ApplyPreparationTimeout :: "Snapshot \<Rightarrow> Effect list \<Rightarrow> step" where
  [apply_defs]: "ApplyPreparationTimeout s effects =
     (let s1 = s\<lparr>latched_reason := Some TerminalOutcome.kTimedOut\<rparr>;
          disarmed = Add effects EffectId.kDisarmPreparationTimeout
      in if process_presence s1 = ProcessPresence.kAbsent
         then (BeginFinalizing (s1\<lparr>completion_mode := CompletionMode.kProcessAlreadyExited,
                 process_exit_confirmed := True\<rparr>), disarmed)
         else (s1\<lparr>completion_mode := CompletionMode.kCooperative, state := JobState.kStopping\<rparr>,
               Add (Add disarmed EffectId.kRequestCooperativeStop)
                 EffectId.kArmCooperativeStopTimeout))"

definition ApplyFinalizingExecutionTimeout :: "Snapshot \<Rightarrow> Effect list \<Rightarrow> step" where
  [apply_defs]: "ApplyFinalizingExecutionTimeout s effects =
     (let had_success_candidate = (latched_reason s = None \<and> completion_candidate s);
          s1 = (if had_success_candidate
                then s\<lparr>latched_reason := Some TerminalOutcome.kTimedOut,
                       completion_candidate := False\<rparr>
                else s)
      in if process_exit_confirmed s1 \<and> had_success_candidate
         then (s1\<lparr>completion_mode := CompletionMode.kProcessAlreadyExited\<rparr>, effects)
         else if process_exit_confirmed s1 then (s1, effects)
         else (s1\<lparr>completion_mode := CompletionMode.kForced\<rparr>,
               Add (Add (Add effects EffectId.kRequestForcedStop)
                 EffectId.kDisarmCooperativeStopTimeout)
                 EffectId.kArmProcessExitConfirmationTimeoutIfNeeded))"

definition ApplyStoppingExecutionTimeout :: "Snapshot \<Rightarrow> Effect list \<Rightarrow> step" where
  [apply_defs]: "ApplyStoppingExecutionTimeout s effects =
     (s\<lparr>completion_mode := CompletionMode.kForced\<rparr>,
      Add (Add (Add (Add effects EffectId.kDisarmExecutionTimeout)
        EffectId.kDisarmCooperativeStopTimeout) EffectId.kRequestForcedStop)
        EffectId.kArmProcessExitConfirmationTimeoutIfNeeded)"

definition ApplyRunningExecutionTimeout :: "Snapshot \<Rightarrow> Effect list \<Rightarrow> step" where
  [apply_defs]: "ApplyRunningExecutionTimeout s effects =
     (s\<lparr>latched_reason := Some TerminalOutcome.kTimedOut,
        completion_mode := CompletionMode.kCooperative, state := JobState.kStopping\<rparr>,
      Add (Add effects EffectId.kRequestCooperativeStop) EffectId.kArmCooperativeStopTimeout)"

definition ApplyExecutionTimeout :: "Snapshot \<Rightarrow> Effect list \<Rightarrow> step" where
  [apply_defs]: "ApplyExecutionTimeout s effects =
     (if state s = JobState.kFinalizing then ApplyFinalizingExecutionTimeout s effects
      else if state s = JobState.kStopping then ApplyStoppingExecutionTimeout s effects
      else if state s = JobState.kRunning then ApplyRunningExecutionTimeout s effects
      else (s, effects))"

definition ApplyCooperativeStopTimeout :: "Snapshot \<Rightarrow> Effect list \<Rightarrow> step" where
  [apply_defs]: "ApplyCooperativeStopTimeout s effects =
     (s\<lparr>completion_mode := CompletionMode.kForced\<rparr>,
      Add (Add (Add effects EffectId.kDisarmCooperativeStopTimeout) EffectId.kRequestForcedStop)
        EffectId.kArmProcessExitConfirmationTimeoutIfNeeded)"

definition ApplyProcessExitConfirmationTimeout :: "Snapshot \<Rightarrow> Effect list \<Rightarrow> step" where
  [apply_defs]: "ApplyProcessExitConfirmationTimeout s effects =
     (s\<lparr>cleanup_status := CleanupStatus.kIncomplete\<rparr>,
      Add (Add (Add effects EffectId.kRequestForcedStop) EffectId.kQuarantineResources)
        EffectId.kSetReadinessFalse)"

definition ApplyTimeoutExpired :: "Snapshot \<Rightarrow> Effect list \<Rightarrow> TimeoutPhase \<Rightarrow> step" where
  [apply_defs]: "ApplyTimeoutExpired s effects phase =
     (case phase of
        TimeoutPhase.kPreparation \<Rightarrow> ApplyPreparationTimeout s effects
      | TimeoutPhase.kExecution \<Rightarrow> ApplyExecutionTimeout s effects
      | TimeoutPhase.kCooperativeStop \<Rightarrow> ApplyCooperativeStopTimeout s effects
      | TimeoutPhase.kProcessExitConfirmation \<Rightarrow> ApplyProcessExitConfirmationTimeout s effects
      | TimeoutPhase.kInvalid \<Rightarrow> (s, effects))"

definition AddWorkerAck :: "Snapshot \<Rightarrow> Uuid \<Rightarrow> u64 \<Rightarrow> Snapshot" where
  [apply_defs]: "AddWorkerAck s worker sequence =
     s\<lparr>pending_worker_event_ack := True, pending_worker_id := Some worker,
       pending_worker_event_sequence := Some sequence\<rparr>"

definition ApplyWorkerCompleted :: "Snapshot \<Rightarrow> Effect list \<Rightarrow> Uuid \<Rightarrow> u64 \<Rightarrow> step" where
  [apply_defs]: "ApplyWorkerCompleted s effects worker sequence =
     (let old_state = state s;
          s1 = (if old_state = JobState.kRunning then s\<lparr>completion_candidate := True\<rparr> else s)
      in (AddWorkerAck (BeginFinalizing s1) worker sequence,
          if old_state = JobState.kStopping
          then Add effects EffectId.kDisarmCooperativeStopTimeout else effects))"

definition ApplyWorkerFailed :: "Snapshot \<Rightarrow> Effect list \<Rightarrow> Uuid \<Rightarrow> u64 \<Rightarrow> step" where
  [apply_defs]: "ApplyWorkerFailed s effects worker sequence =
     (let old_state = state s;
          s1 = (if old_state = JobState.kPreparing \<or> old_state = JobState.kRunning
                then s\<lparr>latched_reason := Some TerminalOutcome.kFailed\<rparr> else s);
          e1 = (if old_state = JobState.kPreparing
                then Add effects EffectId.kDisarmPreparationTimeout else effects)
      in (AddWorkerAck (BeginFinalizing s1) worker sequence,
          if old_state = JobState.kStopping
          then Add e1 EffectId.kDisarmCooperativeStopTimeout else e1))"

definition ClearPendingWorkerAck :: "Snapshot \<Rightarrow> Snapshot" where
  [apply_defs]: "ClearPendingWorkerAck s =
     s\<lparr>pending_worker_event_ack := False, pending_worker_id := None,
       pending_worker_event_sequence := None\<rparr>"

definition ApplyProcessExitConfirmed ::
  "Snapshot \<Rightarrow> Effect list \<Rightarrow> CompletionMode \<Rightarrow> step" where
  [apply_defs]: "ApplyProcessExitConfirmed s effects mode =
     (let old_state = state s;
          first_confirmation = (\<not> process_exit_confirmed s);
          confirmed = s\<lparr>process_exit_confirmed := True,
                        process_presence := ProcessPresence.kAbsent\<rparr>
      in if old_state = JobState.kFinalizing \<or> IsTerminal old_state
         then if \<not> first_confirmation then (s, effects)
              else (ClearPendingWorkerAck (confirmed\<lparr>completion_mode := mode\<rparr>),
                    Add (Add effects EffectId.kDisarmCooperativeStopTimeout)
                      EffectId.kDisarmProcessExitConfirmationTimeout)
         else let s1 = ClearPendingWorkerAck confirmed
              in if old_state = JobState.kPreparing
                 then (BeginFinalizing (s1\<lparr>completion_mode := CompletionMode.kProcessAlreadyExited,
                         latched_reason := Some TerminalOutcome.kFailed\<rparr>),
                       Add effects EffectId.kDisarmPreparationTimeout)
                 else if old_state = JobState.kRunning
                 then (BeginFinalizing (s1\<lparr>completion_mode := CompletionMode.kProcessAlreadyExited,
                         latched_reason := Some TerminalOutcome.kFailed\<rparr>), effects)
                 else if old_state = JobState.kStopping
                 then (BeginFinalizing s1,
                       Add (Add effects EffectId.kDisarmCooperativeStopTimeout)
                         EffectId.kDisarmProcessExitConfirmationTimeout)
                 else (s1, effects))"

definition ApplyFinalizationFailed :: "Snapshot \<Rightarrow> Snapshot" where
  [apply_defs]: "ApplyFinalizationFailed s =
     (let s1 = s\<lparr>finalization_status := FinalizationStatus.kFailed,
                 cleanup_status := CleanupStatus.kIncomplete\<rparr>
      in if latched_reason s1 = None \<and> completion_candidate s1
         then s1\<lparr>latched_reason := Some TerminalOutcome.kFailed, completion_candidate := False\<rparr>
         else s1)"

fun JobStateForOutcome :: "TerminalOutcome \<Rightarrow> JobState" where
  "JobStateForOutcome TerminalOutcome.kSucceeded = JobState.kSucceeded"
| "JobStateForOutcome TerminalOutcome.kFailed = JobState.kFailed"
| "JobStateForOutcome TerminalOutcome.kCancelled = JobState.kCancelled"
| "JobStateForOutcome TerminalOutcome.kTerminated = JobState.kTerminated"
| "JobStateForOutcome TerminalOutcome.kTimedOut = JobState.kTimedOut"
| "JobStateForOutcome TerminalOutcome.kInvalid = JobState.kTimedOut"

definition ApplyTerminalOutcomeCommitted ::
  "Snapshot \<Rightarrow> Effect list \<Rightarrow> TerminalOutcome \<Rightarrow> step" where
  [apply_defs]: "ApplyTerminalOutcomeCommitted s effects outcome =
     (let s1 = s\<lparr>state := JobStateForOutcome outcome\<rparr>
      in (if finalization_status s1 \<noteq> FinalizationStatus.kFailed
          then s1\<lparr>finalization_status := FinalizationStatus.kCompleted\<rparr> else s1,
          Add (Add (Add (Add effects EffectId.kDisarmExecutionTimeout)
            EffectId.kAckTerminalWorkerEventIfPending) EffectId.kPublishTerminalResult)
            EffectId.kArmProcessExitConfirmationTimeoutIfNeeded))"

text \<open>
  \<^verbatim>\<open>ApplyAuthorizedEvent\<close>: \<open>None\<close> is the return value \<^verbatim>\<open>false\<close>. \<^verbatim>\<open>std::get\<close> of the wrong
  alternative throws in the source; it is reached only after \<^verbatim>\<open>PayloadMatches\<close> held, and the model
  gives \<open>None\<close> there.
\<close>

definition ApplyAuthorizedEvent ::
  "Snapshot \<Rightarrow> Effect list \<Rightarrow> PreEnvelopeProposal \<Rightarrow> step option" where
  "ApplyAuthorizedEvent s effects proposal =
     (case pp_event_type proposal of
        EventType.kJobCreated \<Rightarrow>
          (case pp_payload proposal of
             JobCreatedPayload session \<Rightarrow> Some (ApplyJobCreated s session, effects)
           | _ \<Rightarrow> None)
      | EventType.kResourcesCommitted \<Rightarrow>
          (case pp_payload proposal of
             ResourcesCommittedPayload alloc digest _ _ _ \<Rightarrow>
               Some (ApplyResourcesCommitted s effects alloc digest)
           | _ \<Rightarrow> None)
      | EventType.kWorkerLaunchIntent \<Rightarrow>
          (case pp_payload proposal of
             WorkerLaunchIntentPayload operation _ _ _ _ _ worker \<Rightarrow>
               Some (ApplyWorkerLaunchIntent s effects operation worker)
           | _ \<Rightarrow> None)
      | EventType.kWorkerLaunchObserved \<Rightarrow>
          (case pp_payload proposal of
             WorkerLaunchObservedPayload _ started \<Rightarrow>
               Some (ApplyWorkerLaunchObserved s effects started)
           | _ \<Rightarrow> None)
      | EventType.kWorkerRunning \<Rightarrow> Some (ApplyWorkerRunning s effects)
      | EventType.kCancelAccepted \<Rightarrow> Some (ApplyCancelAccepted s effects)
      | EventType.kTerminateAccepted \<Rightarrow> Some (ApplyTerminateAccepted s effects)
      | EventType.kTimeoutExpired \<Rightarrow>
          (case pp_payload proposal of
             TimeoutExpiredPayload phase _ \<Rightarrow> Some (ApplyTimeoutExpired s effects phase)
           | _ \<Rightarrow> None)
      | EventType.kWorkerCompleted \<Rightarrow>
          (case pp_payload proposal of
             WorkerEventPayload worker sequence \<Rightarrow>
               Some (ApplyWorkerCompleted s effects worker sequence)
           | _ \<Rightarrow> None)
      | EventType.kWorkerFailed \<Rightarrow>
          (case pp_payload proposal of
             WorkerEventPayload worker sequence \<Rightarrow>
               Some (ApplyWorkerFailed s effects worker sequence)
           | _ \<Rightarrow> None)
      | EventType.kProcessExitConfirmed \<Rightarrow>
          (case pp_payload proposal of
             ProcessExitConfirmedPayload mode _ \<Rightarrow> Some (ApplyProcessExitConfirmed s effects mode)
           | _ \<Rightarrow> None)
      | EventType.kSessionRetainRequested \<Rightarrow>
          Some (s\<lparr>session_retention_status := RetentionStatus.kRequested\<rparr>,
                Add effects EffectId.kRetainSessionSameIdentity)
      | EventType.kSessionRetained \<Rightarrow>
          Some (s\<lparr>session_retention_status := RetentionStatus.kRetained\<rparr>, effects)
      | EventType.kFinalizationCompleted \<Rightarrow>
          Some (s\<lparr>finalization_status := FinalizationStatus.kCompleted\<rparr>, effects)
      | EventType.kFinalizationFailed \<Rightarrow> Some (ApplyFinalizationFailed s, effects)
      | EventType.kTerminalOutcomeCommitted \<Rightarrow>
          (case pp_payload proposal of
             TerminalOutcomePayload outcome \<Rightarrow>
               Some (ApplyTerminalOutcomeCommitted s effects outcome)
           | _ \<Rightarrow> None)
      | EventType.kResourcesReleased \<Rightarrow>
          Some (s\<lparr>resource_status := ResourceStatus.kReleased\<rparr>, effects)
      | EventType.kCleanupStatusRecorded \<Rightarrow>
          (case pp_payload proposal of
             CleanupStatusPayload status \<Rightarrow> Some (s\<lparr>cleanup_status := status\<rparr>, effects)
           | _ \<Rightarrow> None)
      | EventType.kLateWorkerEvent \<Rightarrow> Some (s, Add effects EffectId.kAckLateWorkerEvent)
      | EventType.kInvalid \<Rightarrow> None)"

section \<open>Apply\<close>

definition ApplyRejected :: "Snapshot \<Rightarrow> Rejection \<Rightarrow> ApplyResult" where
  "ApplyRejected before rejection =
     \<lparr>ar_snapshot = before, ar_effects = [], ar_rejection = Some rejection\<rparr>"

definition Apply :: "libs \<Rightarrow> Snapshot \<Rightarrow> PreEnvelopeProposal \<Rightarrow> ApplyResult" where
  "Apply L before proposal =
     (if \<not> ValidSnapshot before
      then ApplyRejected before
             \<lparr>rej_schema_version = 1, rej_reason = RejectionReason.kInvariantViolation\<rparr>
      else case DecideInternal L before
                  \<lparr>ie_schema_version = pp_schema_version proposal, ie_job_id = pp_job_id proposal,
                   ie_event_type = pp_event_type proposal, ie_payload = pp_payload proposal\<rparr> of
        Inl rejection \<Rightarrow> ApplyRejected before rejection
      | Inr authorized \<Rightarrow>
          (if pp_schema_version authorized \<noteq> pp_schema_version proposal
              \<or> pp_job_id authorized \<noteq> pp_job_id proposal
              \<or> pp_event_type authorized \<noteq> pp_event_type proposal
           then ApplyRejected before
                  \<lparr>rej_schema_version = 1, rej_reason = RejectionReason.kInvariantViolation\<rparr>
           else (case ApplyAuthorizedEvent before [] proposal of
                   None \<Rightarrow> ApplyRejected before
                     \<lparr>rej_schema_version = 1, rej_reason = RejectionReason.kInvalidEventPayload\<rparr>
                 | Some (snapshot, effects) \<Rightarrow>
                     \<lparr>ar_snapshot = snapshot, ar_effects = effects, ar_rejection = None\<rparr>)))"

end
