(* ===== verification/Job_Contract.thy ===== *)
theory Job_Contract
  imports Job_Reducer
begin

text \<open>
  The contract of the reducer as a step relation: \<open>transition s t q s' es\<close> says that in snapshot
  \<open>s\<close> the event \<open>t\<close> with payload \<open>q\<close> is allowed, leads to \<open>s'\<close> and requests the effects \<open>es\<close>. The
  rules are stated by the meaning of an event (a stop cause that is latched, a stop that is
  escalated, a process exit that is confirmed), not by the functions of
  \<^verbatim>\<open>src/core/job_reducer.cpp\<close>. The theory shows that \<open>Apply\<close> accepts exactly the well-formed
  proposals the relation allows, with the snapshot and the effects of the relation.
\<close>

section \<open>The step relation\<close>

abbreviation before_launch :: "Snapshot \<Rightarrow> bool" where
  "before_launch s \<equiv> state s = JobState.kAdmitted
     \<or> state s = JobState.kPreparing \<and> process_presence s = ProcessPresence.kAbsent"

abbreviation maybe_running :: "Snapshot \<Rightarrow> bool" where
  "maybe_running s \<equiv> state s = JobState.kRunning
     \<or> state s = JobState.kPreparing \<and> process_presence s \<noteq> ProcessPresence.kAbsent"

abbreviation finalizing :: "Snapshot \<Rightarrow> Snapshot" where
  "finalizing s \<equiv>
     s\<lparr>state := JobState.kFinalizing, finalization_status := FinalizationStatus.kPending\<rparr>"

abbreviation disarm_preparation :: "Snapshot \<Rightarrow> Effect list" where
  "disarm_preparation s \<equiv>
     (if state s = JobState.kPreparing then [EffectId.kDisarmPreparationTimeout] else [])"

abbreviation disarm_cooperative :: "Snapshot \<Rightarrow> Effect list" where
  "disarm_cooperative s \<equiv>
     (if state s = JobState.kStopping then [EffectId.kDisarmCooperativeStopTimeout] else [])"

abbreviation cooperative_stop :: "Effect list" where
  "cooperative_stop \<equiv> [EffectId.kRequestCooperativeStop, EffectId.kArmCooperativeStopTimeout]"

abbreviation forced_stop :: "Effect list" where
  "forced_stop \<equiv> [EffectId.kRequestForcedStop, EffectId.kDisarmCooperativeStopTimeout,
     EffectId.kArmProcessExitConfirmationTimeoutIfNeeded]"

abbreviation success_candidate :: "Snapshot \<Rightarrow> bool" where
  "success_candidate s \<equiv> latched_reason s = None \<and> completion_candidate s"

abbreviation await_ack :: "Snapshot \<Rightarrow> Uuid \<Rightarrow> u64 \<Rightarrow> Snapshot" where
  "await_ack s w n \<equiv> s\<lparr>pending_worker_event_ack := True, pending_worker_id := Some w,
     pending_worker_event_sequence := Some n\<rparr>"

abbreviation process_gone :: "Snapshot \<Rightarrow> Snapshot" where
  "process_gone s \<equiv> s\<lparr>process_exit_confirmed := True, process_presence := ProcessPresence.kAbsent,
     pending_worker_event_ack := False, pending_worker_id := None,
     pending_worker_event_sequence := None\<rparr>"

text \<open>The causes that end an undisturbed Job: which outcome they latch and how they stop it.\<close>

inductive stop_cause ::
  "Snapshot \<Rightarrow> EventType \<Rightarrow> EventPayload \<Rightarrow> TerminalOutcome \<Rightarrow> CompletionMode \<Rightarrow> Effect list \<Rightarrow> bool" where
  cancel: "stop_cause s EventType.kCancelAccepted (PrincipalPayload w) TerminalOutcome.kCancelled
     CompletionMode.kCooperative cooperative_stop"
| terminate: "stop_cause s EventType.kTerminateAccepted (PrincipalPayload w)
     TerminalOutcome.kTerminated CompletionMode.kForced forced_stop"
| preparation_timeout: "state s = JobState.kPreparing \<Longrightarrow>
     stop_cause s EventType.kTimeoutExpired (TimeoutExpiredPayload TimeoutPhase.kPreparation g)
       TerminalOutcome.kTimedOut CompletionMode.kCooperative cooperative_stop"
| execution_timeout: "state s = JobState.kRunning \<Longrightarrow>
     stop_cause s EventType.kTimeoutExpired (TimeoutExpiredPayload TimeoutPhase.kExecution g)
       TerminalOutcome.kTimedOut CompletionMode.kCooperative cooperative_stop"

inductive transition ::
  "Snapshot \<Rightarrow> EventType \<Rightarrow> EventPayload \<Rightarrow> Snapshot \<Rightarrow> Effect list \<Rightarrow> bool" where
  created: "\<not> entity_exists s \<Longrightarrow>
     transition s EventType.kJobCreated (JobCreatedPayload sid)
       ((InitialSnapshot (job_id s) sid)\<lparr>schema_version := schema_version s,
          entity_exists := True\<rparr>) []"
| resources_committed: "entity_exists s \<Longrightarrow> state s = JobState.kAdmitted \<Longrightarrow>
     transition s EventType.kResourcesCommitted (ResourcesCommittedPayload a d i v x)
       (s\<lparr>state := JobState.kPreparing, resource_status := ResourceStatus.kCommitted,
          allocation_id := Some a, allocation_digest := Some d\<rparr>)
       [EffectId.kArmPreparationTimeout]"
| launch_intent: "entity_exists s \<Longrightarrow> state s = JobState.kPreparing \<Longrightarrow>
     worker_launch_status s = LaunchStatus.kNotStarted \<Longrightarrow> allocation_id s = Some a \<Longrightarrow>
     allocation_digest s = Some d \<Longrightarrow>
     transition s EventType.kWorkerLaunchIntent (WorkerLaunchIntentPayload l i v b a d w)
       (s\<lparr>worker_launch_status := LaunchStatus.kIntentRecorded, launch_operation_id := Some l,
          worker_id := Some w, process_presence := ProcessPresence.kUnknown\<rparr>)
       [EffectId.kLaunchWorkerOnce]"
| launch_started: "entity_exists s \<Longrightarrow> state s = JobState.kPreparing \<Longrightarrow>
     worker_launch_status s = LaunchStatus.kIntentRecorded \<Longrightarrow> launch_operation_id s = Some l \<Longrightarrow>
     transition s EventType.kWorkerLaunchObserved (WorkerLaunchObservedPayload l True)
       (s\<lparr>worker_launch_status := LaunchStatus.kObserved,
          process_presence := ProcessPresence.kPresent\<rparr>) []"
| launch_failed: "entity_exists s \<Longrightarrow> state s = JobState.kPreparing \<Longrightarrow>
     worker_launch_status s = LaunchStatus.kIntentRecorded \<Longrightarrow> launch_operation_id s = Some l \<Longrightarrow>
     transition s EventType.kWorkerLaunchObserved (WorkerLaunchObservedPayload l False)
       (finalizing (s\<lparr>worker_launch_status := LaunchStatus.kFailed,
          process_presence := ProcessPresence.kAbsent,
          latched_reason := Some TerminalOutcome.kFailed,
          completion_mode := CompletionMode.kProcessAlreadyExited,
          process_exit_confirmed := True\<rparr>))
       [EffectId.kDisarmPreparationTimeout]"
| running: "entity_exists s \<Longrightarrow> state s = JobState.kPreparing \<Longrightarrow>
     worker_launch_status s = LaunchStatus.kObserved \<Longrightarrow> worker_id s = Some w \<Longrightarrow>
     transition s EventType.kWorkerRunning (WorkerRunningPayload w)
       (s\<lparr>state := JobState.kRunning, process_presence := ProcessPresence.kPresent\<rparr>)
       [EffectId.kDisarmPreparationTimeout, EffectId.kArmExecutionTimeout]"
| stop_before_launch: "entity_exists s \<Longrightarrow> before_launch s \<Longrightarrow> stop_cause s t q r m es \<Longrightarrow>
     transition s t q
       (finalizing (s\<lparr>latched_reason := Some r,
          completion_mode := CompletionMode.kProcessAlreadyExited, process_exit_confirmed := True\<rparr>))
       (disarm_preparation s)"
| stop: "entity_exists s \<Longrightarrow> maybe_running s \<Longrightarrow> stop_cause s t q r m es \<Longrightarrow>
     transition s t q
       (s\<lparr>latched_reason := Some r, completion_mode := m, state := JobState.kStopping\<rparr>)
       (disarm_preparation s @ es)"
| escalate_terminate: "entity_exists s \<Longrightarrow>
     state s = JobState.kStopping \<or> state s = JobState.kFinalizing \<Longrightarrow> \<not> process_exit_confirmed s \<Longrightarrow>
     transition s EventType.kTerminateAccepted (PrincipalPayload u)
       (s\<lparr>completion_mode := CompletionMode.kForced\<rparr>) forced_stop"
| escalate_execution_timeout: "entity_exists s \<Longrightarrow> state s = JobState.kStopping \<Longrightarrow>
     transition s EventType.kTimeoutExpired (TimeoutExpiredPayload TimeoutPhase.kExecution g)
       (s\<lparr>completion_mode := CompletionMode.kForced\<rparr>)
       [EffectId.kDisarmExecutionTimeout, EffectId.kDisarmCooperativeStopTimeout,
        EffectId.kRequestForcedStop, EffectId.kArmProcessExitConfirmationTimeoutIfNeeded]"
| escalate_cooperative_timeout: "entity_exists s \<Longrightarrow> state s = JobState.kStopping \<Longrightarrow>
     transition s EventType.kTimeoutExpired (TimeoutExpiredPayload TimeoutPhase.kCooperativeStop g)
       (s\<lparr>completion_mode := CompletionMode.kForced\<rparr>)
       [EffectId.kDisarmCooperativeStopTimeout, EffectId.kRequestForcedStop,
        EffectId.kArmProcessExitConfirmationTimeoutIfNeeded]"
| finalizing_timeout_candidate: "entity_exists s \<Longrightarrow> state s = JobState.kFinalizing \<Longrightarrow>
     success_candidate s \<Longrightarrow>
     transition s EventType.kTimeoutExpired (TimeoutExpiredPayload TimeoutPhase.kExecution g)
       (s\<lparr>latched_reason := Some TerminalOutcome.kTimedOut, completion_candidate := False,
          completion_mode := (if process_exit_confirmed s
            then CompletionMode.kProcessAlreadyExited else CompletionMode.kForced)\<rparr>)
       (if process_exit_confirmed s then [] else forced_stop)"
| finalizing_timeout_live: "entity_exists s \<Longrightarrow> state s = JobState.kFinalizing \<Longrightarrow>
     latched_reason s \<noteq> None \<Longrightarrow> \<not> process_exit_confirmed s \<Longrightarrow>
     transition s EventType.kTimeoutExpired (TimeoutExpiredPayload TimeoutPhase.kExecution g)
       (s\<lparr>completion_mode := CompletionMode.kForced\<rparr>) forced_stop"
| finalizing_timeout_exited: "entity_exists s \<Longrightarrow> state s = JobState.kFinalizing \<Longrightarrow>
     latched_reason s \<noteq> None \<Longrightarrow> process_exit_confirmed s \<Longrightarrow>
     transition s EventType.kTimeoutExpired (TimeoutExpiredPayload TimeoutPhase.kExecution g) s []"
| exit_timeout: "entity_exists s \<Longrightarrow> IsTerminal (state s) \<Longrightarrow> \<not> process_exit_confirmed s \<Longrightarrow>
     transition s EventType.kTimeoutExpired
       (TimeoutExpiredPayload TimeoutPhase.kProcessExitConfirmation g)
       (s\<lparr>cleanup_status := CleanupStatus.kIncomplete\<rparr>)
       [EffectId.kRequestForcedStop, EffectId.kQuarantineResources, EffectId.kSetReadinessFalse]"
| completed: "entity_exists s \<Longrightarrow> state s = JobState.kRunning \<Longrightarrow> worker_id s = Some w \<Longrightarrow>
     transition s EventType.kWorkerCompleted (WorkerEventPayload w n)
       (await_ack (finalizing (s\<lparr>completion_candidate := True\<rparr>)) w n) []"
| failed: "entity_exists s \<Longrightarrow> state s = JobState.kPreparing \<or> state s = JobState.kRunning \<Longrightarrow>
     worker_id s = Some w \<Longrightarrow>
     transition s EventType.kWorkerFailed (WorkerEventPayload w n)
       (await_ack (finalizing (s\<lparr>latched_reason := Some TerminalOutcome.kFailed\<rparr>)) w n)
       (disarm_preparation s)"
| stopped_worker: "entity_exists s \<Longrightarrow> state s = JobState.kStopping \<Longrightarrow> worker_id s = Some w \<Longrightarrow>
     t = EventType.kWorkerCompleted \<or> t = EventType.kWorkerFailed \<Longrightarrow>
     transition s t (WorkerEventPayload w n) (await_ack (finalizing s) w n)
       [EffectId.kDisarmCooperativeStopTimeout]"
| exit_unexpected: "entity_exists s \<Longrightarrow> state s = JobState.kPreparing \<or> state s = JobState.kRunning \<Longrightarrow>
     launch_operation_id s = Some l \<Longrightarrow>
     transition s EventType.kProcessExitConfirmed (ProcessExitConfirmedPayload m l)
       (finalizing ((process_gone s)\<lparr>completion_mode := CompletionMode.kProcessAlreadyExited,
          latched_reason := Some TerminalOutcome.kFailed\<rparr>))
       (disarm_preparation s)"
| exit_stopping: "entity_exists s \<Longrightarrow> state s = JobState.kStopping \<Longrightarrow>
     launch_operation_id s = Some l \<Longrightarrow>
     transition s EventType.kProcessExitConfirmed (ProcessExitConfirmedPayload m l)
       (finalizing (process_gone s))
       [EffectId.kDisarmCooperativeStopTimeout, EffectId.kDisarmProcessExitConfirmationTimeout]"
| exit_first: "entity_exists s \<Longrightarrow> state s = JobState.kFinalizing \<or> IsTerminal (state s) \<Longrightarrow>
     launch_operation_id s = Some l \<Longrightarrow> \<not> process_exit_confirmed s \<Longrightarrow>
     transition s EventType.kProcessExitConfirmed (ProcessExitConfirmedPayload m l)
       ((process_gone s)\<lparr>completion_mode := m\<rparr>)
       [EffectId.kDisarmCooperativeStopTimeout, EffectId.kDisarmProcessExitConfirmationTimeout]"
| exit_repeated: "entity_exists s \<Longrightarrow> state s = JobState.kFinalizing \<or> IsTerminal (state s) \<Longrightarrow>
     launch_operation_id s = Some l \<Longrightarrow> process_exit_confirmed s \<Longrightarrow> completion_mode s = m \<Longrightarrow>
     transition s EventType.kProcessExitConfirmed (ProcessExitConfirmedPayload m l) s []"
| retain_requested: "entity_exists s \<Longrightarrow> state s = JobState.kFinalizing \<Longrightarrow>
     session_retention_status s = RetentionStatus.kNotStarted \<Longrightarrow> session_id s = sid \<Longrightarrow>
     transition s EventType.kSessionRetainRequested (SessionPayload sid)
       (s\<lparr>session_retention_status := RetentionStatus.kRequested\<rparr>)
       [EffectId.kRetainSessionSameIdentity]"
| retained: "entity_exists s \<Longrightarrow> state s = JobState.kFinalizing \<Longrightarrow>
     session_retention_status s = RetentionStatus.kRequested \<Longrightarrow> session_id s = sid \<Longrightarrow>
     transition s EventType.kSessionRetained (SessionPayload sid)
       (s\<lparr>session_retention_status := RetentionStatus.kRetained\<rparr>) []"
| finalization_completed: "entity_exists s \<Longrightarrow> state s = JobState.kFinalizing \<Longrightarrow>
     session_retention_status s = RetentionStatus.kRetained \<Longrightarrow>
     finalization_status s = FinalizationStatus.kPending \<Longrightarrow>
     transition s EventType.kFinalizationCompleted EmptyPayload
       (s\<lparr>finalization_status := FinalizationStatus.kCompleted\<rparr>) []"
| finalization_failed: "entity_exists s \<Longrightarrow> state s = JobState.kFinalizing \<Longrightarrow>
     finalization_status s = FinalizationStatus.kPending \<Longrightarrow> latched_reason s = Some r \<Longrightarrow>
     transition s EventType.kFinalizationFailed EmptyPayload
       (s\<lparr>finalization_status := FinalizationStatus.kFailed,
          cleanup_status := CleanupStatus.kIncomplete\<rparr>) []"
| finalization_failed_candidate: "entity_exists s \<Longrightarrow> state s = JobState.kFinalizing \<Longrightarrow>
     finalization_status s = FinalizationStatus.kPending \<Longrightarrow> success_candidate s \<Longrightarrow>
     transition s EventType.kFinalizationFailed EmptyPayload
       (s\<lparr>finalization_status := FinalizationStatus.kFailed,
          cleanup_status := CleanupStatus.kIncomplete,
          latched_reason := Some TerminalOutcome.kFailed, completion_candidate := False\<rparr>) []"
| terminal: "entity_exists s \<Longrightarrow> state s = JobState.kFinalizing \<Longrightarrow>
     finalization_status s = FinalizationStatus.kCompleted
       \<or> finalization_status s = FinalizationStatus.kFailed \<Longrightarrow>
     (case latched_reason s of
        Some r \<Rightarrow> outcome = r
      | None \<Rightarrow> outcome = TerminalOutcome.kSucceeded \<and> completion_candidate s
          \<and> finalization_status s = FinalizationStatus.kCompleted) \<Longrightarrow>
     transition s EventType.kTerminalOutcomeCommitted (TerminalOutcomePayload outcome)
       (s\<lparr>state := JobStateForOutcome outcome\<rparr>)
       [EffectId.kDisarmExecutionTimeout, EffectId.kAckTerminalWorkerEventIfPending,
        EffectId.kPublishTerminalResult, EffectId.kArmProcessExitConfirmationTimeoutIfNeeded]"
| released: "entity_exists s \<Longrightarrow> IsTerminal (state s) \<Longrightarrow> process_exit_confirmed s \<Longrightarrow>
     allocation_id s = Some a \<Longrightarrow> allocation_digest s = Some d \<Longrightarrow>
     transition s EventType.kResourcesReleased (ResourcesReleasedPayload a d)
       (s\<lparr>resource_status := ResourceStatus.kReleased\<rparr>) []"
| cleanup_recorded: "entity_exists s \<Longrightarrow> IsTerminal (state s) \<Longrightarrow>
     cleanup_status s = CleanupStatus.kPending \<or> cleanup_status s = c \<Longrightarrow>
     transition s EventType.kCleanupStatusRecorded (CleanupStatusPayload c)
       (s\<lparr>cleanup_status := c\<rparr>) []"
| late_worker_event: "entity_exists s \<Longrightarrow>
     state s = JobState.kFinalizing \<or> IsTerminal (state s) \<Longrightarrow>
     transition s EventType.kLateWorkerEvent (LateWorkerEventPayload t w n) s
       [EffectId.kAckLateWorkerEvent]"

inductive_cases stop_causeE: "stop_cause s t q r m es"
inductive_cases transitionE: "transition s t q s' es"

section \<open>The accepted proposals\<close>

definition event_of :: "PreEnvelopeProposal \<Rightarrow> InternalEvent" where
  "event_of p = \<lparr>ie_schema_version = pp_schema_version p, ie_job_id = pp_job_id p,
     ie_event_type = pp_event_type p, ie_payload = pp_payload p\<rparr>"

lemma event_of_simps [simp]:
  "ie_schema_version (event_of p) = pp_schema_version p" "ie_job_id (event_of p) = pp_job_id p"
  "ie_event_type (event_of p) = pp_event_type p" "ie_payload (event_of p) = pp_payload p"
  by (simp_all add: event_of_def)

lemma decision_simps [simp]:
  "Accept s t q \<noteq> Inl r" "Reject x \<noteq> Inr p" "RejectState \<noteq> Inr p"
  "Accept s t q = Inr p \<longleftrightarrow>
     p = \<lparr>pp_schema_version = 1, pp_job_id = job_id s, pp_event_type = t, pp_payload = q\<rparr>"
  by (auto simp: Accept_def Reject_def RejectState_def)

definition well_formed :: "libs \<Rightarrow> Snapshot \<Rightarrow> PreEnvelopeProposal \<Rightarrow> bool" where
  "well_formed L s p \<longleftrightarrow> ValidSnapshot s \<and> pp_schema_version p = 1 \<and> pp_job_id p = job_id s
     \<and> ValidInternalPayload L (pp_event_type p) (pp_payload p) (job_id s)"

definition authorized :: "libs \<Rightarrow> Snapshot \<Rightarrow> PreEnvelopeProposal \<Rightarrow> bool" where
  "authorized L s p \<longleftrightarrow> well_formed L s p
     \<and> (if pp_event_type p = EventType.kJobCreated then \<not> entity_exists s
        else entity_exists s \<and> (\<exists>q. DecideSwitch s (event_of p) = Inr q
                                    \<and> pp_event_type q = pp_event_type p))"

lemma DecideSwitch_header:
  "DecideSwitch s e = Inr q \<Longrightarrow> pp_schema_version q = 1 \<and> pp_job_id q = job_id s"
  by (cases "ie_event_type e")
    (simp_all add: DecideSwitch_def decide_defs split: if_splits EventPayload.splits)

lemma payload_shape: "ValidInternalPayload L t q j \<Longrightarrow> PayloadMatches t q"
  by (simp add: ValidInternalPayload_def split: if_splits)

lemma ValidSnapshot_uuid: "ValidSnapshot s \<Longrightarrow> IsUuid (uuid_value (job_id s)) CHR ''7''"
  by (simp add: ValidSnapshot_def HasValidSnapshotIdentity_def)

lemma shaped_applies: "PayloadMatches (pp_event_type p) (pp_payload p) \<Longrightarrow>
    ApplyAuthorizedEvent s es p \<noteq> None"
  by (cases "pp_event_type p"; cases "pp_payload p"; simp add: ApplyAuthorizedEvent_def)

lemma Apply_result:
  "ar_rejection (Apply L s p) = None \<Longrightarrow>
     ApplyAuthorizedEvent s [] p = Some (ar_snapshot (Apply L s p), ar_effects (Apply L s p))"
  by (auto simp: Apply_def ApplyRejected_def split: if_splits sum.splits option.splits)

lemma DecideInternal_authorized:
  "authorized L s p \<longleftrightarrow> ValidSnapshot s \<and> (\<exists>q. DecideInternal L s (event_of p) = Inr q
     \<and> pp_schema_version q = pp_schema_version p \<and> pp_job_id q = pp_job_id p
     \<and> pp_event_type q = pp_event_type p)"
proof (cases "pp_event_type p = EventType.kJobCreated")
  case True
  then show ?thesis
    by (simp add: authorized_def well_formed_def DecideInternal_def AcceptEvent_def ValidSnapshot_uuid)
      (auto simp: ValidSnapshot_uuid)
next
  case False
  then show ?thesis
    by (simp add: authorized_def well_formed_def DecideInternal_def ValidSnapshot_uuid)
      (use DecideSwitch_header in \<open>force simp: ValidSnapshot_uuid\<close>)
qed

lemma authorized_shape: "authorized L s p \<Longrightarrow> PayloadMatches (pp_event_type p) (pp_payload p)"
  unfolding authorized_def well_formed_def using payload_shape by blast

lemma Apply_accepts_iff: "ar_rejection (Apply L s p) = None \<longleftrightarrow> authorized L s p"
proof -
  have "authorized L s p \<Longrightarrow> ApplyAuthorizedEvent s [] p \<noteq> None"
    using shaped_applies authorized_shape by blast
  then show ?thesis
    unfolding Apply_def event_of_def[symmetric]
    by (auto simp: ApplyRejected_def DecideInternal_authorized split: sum.splits option.splits)
qed

lemma retained_field [simp]:
  "finalization_status s = f \<Longrightarrow> s\<lparr>state := x, finalization_status := f\<rparr> = s\<lparr>state := x\<rparr>"
  by (cases s) simp

lemma latched_cases:
  assumes "ValidSnapshot s"
  shows "latched_reason s \<in> {None, Some TerminalOutcome.kFailed, Some TerminalOutcome.kCancelled,
    Some TerminalOutcome.kTerminated, Some TerminalOutcome.kTimedOut}"
proof (cases "latched_reason s")
  case (Some r)
  with assms have "r \<noteq> TerminalOutcome.kInvalid \<and> r \<noteq> TerminalOutcome.kSucceeded"
    by (simp add: ValidSnapshot_def HasValidSnapshotOptionalDomains_def enum_defs)
  with Some show ?thesis by (cases r) simp_all
qed simp

lemma latched_some:
  assumes "ValidSnapshot s" "latched_reason s \<noteq> None"
  shows "latched_reason s = Some TerminalOutcome.kFailed \<or> latched_reason s = Some TerminalOutcome.kCancelled
    \<or> latched_reason s = Some TerminalOutcome.kTerminated \<or> latched_reason s = Some TerminalOutcome.kTimedOut"
  using latched_cases[OF assms(1)] assms(2) by simp

lemma allocated_status:
  assumes "ValidSnapshot s" "allocation_id s = Some a"
  shows "resource_status s = ResourceStatus.kCommitted \<or> resource_status s = ResourceStatus.kReleased"
  using assms by (cases "resource_status s")
    (simp_all add: ValidSnapshot_def HasValidSnapshotEnums_def HasValidResourceFacts_def enum_defs)

lemma IsTerminal_neq [simp]:
  "IsTerminal x \<Longrightarrow> x \<noteq> JobState.kAdmitted" "IsTerminal x \<Longrightarrow> x \<noteq> JobState.kPreparing"
  "IsTerminal x \<Longrightarrow> x \<noteq> JobState.kRunning" "IsTerminal x \<Longrightarrow> x \<noteq> JobState.kStopping"
  "IsTerminal x \<Longrightarrow> x \<noteq> JobState.kFinalizing" "IsTerminal x \<Longrightarrow> x \<noteq> JobState.kInvalid"
  by auto

lemmas step_defs = authorized_def DecideSwitch_def decide_defs ApplyAuthorizedEvent_def apply_defs

lemma transition_sound_stop_before_launch:
  assumes "before_launch s" "entity_exists s" "well_formed L s p"
    "stop_cause s (pp_event_type p) (pp_payload p) r m es"
  shows "authorized L s p \<and> ApplyAuthorizedEvent s [] p =
      Some (finalizing (s\<lparr>latched_reason := Some r,
          completion_mode := CompletionMode.kProcessAlreadyExited, process_exit_confirmed := True\<rparr>),
        disarm_preparation s)"
  using assms(4) by cases (use assms(1-3) in \<open>elim disjE conjE; simp add: step_defs\<close>)+

lemma transition_sound_stop:
  assumes "maybe_running s" "entity_exists s" "well_formed L s p"
    "stop_cause s (pp_event_type p) (pp_payload p) r m es"
  shows "authorized L s p \<and> ApplyAuthorizedEvent s [] p =
      Some (s\<lparr>latched_reason := Some r, completion_mode := m, state := JobState.kStopping\<rparr>,
        disarm_preparation s @ es)"
  using assms(4) by cases (use assms(1-3) in \<open>elim disjE conjE; simp add: step_defs\<close>)+

lemma transition_sound_terminal:
  assumes "pp_event_type p = EventType.kTerminalOutcomeCommitted"
    "pp_payload p = TerminalOutcomePayload outcome" "entity_exists s" "well_formed L s p"
    "state s = JobState.kFinalizing"
    "finalization_status s = FinalizationStatus.kCompleted
       \<or> finalization_status s = FinalizationStatus.kFailed"
    "case latched_reason s of
        Some r \<Rightarrow> outcome = r
      | None \<Rightarrow> outcome = TerminalOutcome.kSucceeded \<and> completion_candidate s
          \<and> finalization_status s = FinalizationStatus.kCompleted"
  shows "authorized L s p \<and> ApplyAuthorizedEvent s [] p = Some (s\<lparr>state := JobStateForOutcome outcome\<rparr>,
       [EffectId.kDisarmExecutionTimeout, EffectId.kAckTerminalWorkerEventIfPending,
        EffectId.kPublishTerminalResult, EffectId.kArmProcessExitConfirmationTimeoutIfNeeded])"
proof -
  have "ValidSnapshot s" using assms(4) by (simp add: well_formed_def)
  from latched_cases[OF this] assms show ?thesis
    unfolding insert_iff empty_iff by (elim disjE; simp add: step_defs)
qed
lemma transition_sound:
  assumes "transition s (pp_event_type p) (pp_payload p) s' es" "well_formed L s p"
  shows "authorized L s p \<and> ApplyAuthorizedEvent s [] p = Some (s', es)"
proof -
  have v: "ValidSnapshot s" using assms(2) by (simp add: well_formed_def)
  note assms(2) [simp]
  from assms(1) show ?thesis
  proof cases
    case stop_before_launch
    then show ?thesis using transition_sound_stop_before_launch assms(2) by blast
  next
    case stop
    then show ?thesis using transition_sound_stop assms(2) by blast
  next
    case (terminal outcome)
    then show ?thesis using transition_sound_terminal[OF terminal(1,2,5) assms(2)] by simp
  next
    case created
    then show ?thesis using assms(2) by (cases s) (simp add: step_defs InitialSnapshot_def)
  next
    case finalizing_timeout_live
    from latched_some[OF v this(7)] this show ?thesis by (elim disjE; simp add: step_defs)
  next
    case finalizing_timeout_exited
    from latched_some[OF v this(7)] this show ?thesis by (elim disjE; simp add: step_defs)
  next
    case released
    from allocated_status[OF v this(8)] this show ?thesis by (elim disjE; simp add: step_defs)
  qed ((elim disjE)?; simp add: step_defs; fail)+
qed

lemma stop_exists:
  assumes "stop_cause s t q r m es" "entity_exists s" "before_launch s \<or> maybe_running s"
  shows "\<exists>s' es. transition s t q s' es"
  using assms stop_before_launch stop by blast

lemma timeout_exists:
  assumes "DecideSwitch s e = Inr q" "ie_event_type e = EventType.kTimeoutExpired" "entity_exists s"
  shows "\<exists>s' es. transition s (ie_event_type e) (ie_payload e) s' es"
proof -
  obtain phase g where e: "ie_payload e = TimeoutExpiredPayload phase g"
    using assms by (auto simp: DecideSwitch_def DecideTimeoutExpired_def split: EventPayload.splits)
  have "state s = JobState.kPreparing \<and> phase = TimeoutPhase.kPreparation
    \<or> state s = JobState.kRunning \<and> phase = TimeoutPhase.kExecution
    \<or> state s = JobState.kStopping \<and> phase = TimeoutPhase.kExecution
    \<or> state s = JobState.kStopping \<and> phase = TimeoutPhase.kCooperativeStop
    \<or> state s = JobState.kFinalizing \<and> phase = TimeoutPhase.kExecution
       \<and> (success_candidate s \<or> latched_reason s \<noteq> None)
    \<or> IsTerminal (state s) \<and> phase = TimeoutPhase.kProcessExitConfirmation
       \<and> \<not> process_exit_confirmed s"
    using assms e by (auto simp: DecideSwitch_def decide_defs split: if_splits)
  then show ?thesis unfolding e assms(2)
    by (elim disjE conjE; hypsubst)
      (use assms(3) in \<open>blast intro: stop_exists stop_cause.intros transition.intros\<close>)+
qed

lemma command_exists:
  assumes "DecideSwitch s e = Inr q" "entity_exists s" "ie_payload e = PrincipalPayload u"
    "ie_event_type e = EventType.kCancelAccepted \<or> ie_event_type e = EventType.kTerminateAccepted"
  shows "\<exists>s' es. transition s (ie_event_type e) (ie_payload e) s' es"
proof -
  have "before_launch s \<or> maybe_running s \<or> ie_event_type e = EventType.kTerminateAccepted
    \<and> (state s = JobState.kStopping \<or> state s = JobState.kFinalizing) \<and> \<not> process_exit_confirmed s"
    using assms(1,4) by (auto simp: DecideSwitch_def decide_defs split: if_splits)
  then show ?thesis using assms(2-4)
    by (metis cancel terminate escalate_terminate stop_exists)
qed

lemma worker_outcome_exists:
  assumes "DecideSwitch s e = Inr q" "pp_event_type q = ie_event_type e" "entity_exists s"
    "ie_event_type e = EventType.kWorkerCompleted \<or> ie_event_type e = EventType.kWorkerFailed"
  shows "\<exists>s' es. transition s (ie_event_type e) (ie_payload e) s' es"
proof -
  obtain w n where e: "ie_payload e = WorkerEventPayload w n"
    using assms by (auto simp: DecideSwitch_def DecideWorkerOutcome_def split: EventPayload.splits)
  have "worker_id s = Some w \<and> (state s = JobState.kRunning \<or> state s = JobState.kStopping
     \<or> state s = JobState.kPreparing \<and> ie_event_type e = EventType.kWorkerFailed)"
    using assms e by (auto simp: DecideSwitch_def decide_defs split: if_splits)
  then show ?thesis unfolding e using assms(3,4)
    by (metis completed failed stopped_worker)
qed

lemma exit_exists:
  assumes "DecideSwitch s e = Inr q" "ValidSnapshot s" "entity_exists s"
    "ie_event_type e = EventType.kProcessExitConfirmed"
  shows "\<exists>s' es. transition s (ie_event_type e) (ie_payload e) s' es"
proof -
  obtain m l where e: "ie_payload e = ProcessExitConfirmedPayload m l"
    using assms by (auto simp: DecideSwitch_def DecideProcessExitConfirmed_def
        split: EventPayload.splits if_splits)
  have "state s \<noteq> JobState.kInvalid"
    using assms(2) by (simp add: ValidSnapshot_def HasValidSnapshotEnums_def)
  then have "launch_operation_id s = Some l \<and> (state s = JobState.kPreparing
     \<or> state s = JobState.kRunning \<or> state s = JobState.kStopping
     \<or> (state s = JobState.kFinalizing \<or> IsTerminal (state s))
        \<and> (process_exit_confirmed s \<longrightarrow> completion_mode s = m))"
    using assms e by (cases "state s") (auto simp: DecideSwitch_def decide_defs split: if_splits)
  then show ?thesis unfolding e assms(4) using assms(3)
    by (metis exit_unexpected exit_stopping exit_first exit_repeated)
qed

lemma finalization_exists:
  assumes "DecideSwitch s e = Inr q" "ValidSnapshot s" "entity_exists s" "PayloadMatches t (ie_payload e)"
    "ie_event_type e = t"
    "t \<in> {EventType.kFinalizationFailed, EventType.kTerminalOutcomeCommitted}"
  shows "\<exists>s' es. transition s t (ie_payload e) s' es"
proof (cases "t = EventType.kFinalizationFailed")
  case True
  then have "ie_payload e = EmptyPayload" "state s = JobState.kFinalizing"
    "finalization_status s = FinalizationStatus.kPending" "latched_reason s \<noteq> None \<or> success_candidate s"
    using assms by (auto simp: DecideSwitch_def decide_defs split: if_splits)
  then show ?thesis using assms(3) True finalization_failed finalization_failed_candidate
    by (metis not_None_eq)
next
  case False
  with assms obtain r where e: "ie_payload e = TerminalOutcomePayload r"
    by (auto simp: is_TerminalOutcomePayload_def)
  have "finalization_status s = FinalizationStatus.kCompleted
       \<or> finalization_status s = FinalizationStatus.kFailed"
    using False assms e by (cases "finalization_status s")
      (auto simp: DecideSwitch_def decide_defs ValidSnapshot_def valid_defs enum_defs split: if_splits)
  moreover have "state s = JobState.kFinalizing" 
    "case latched_reason s of Some r' \<Rightarrow> r = r'
      | None \<Rightarrow> r = TerminalOutcome.kSucceeded \<and> completion_candidate s
          \<and> finalization_status s = FinalizationStatus.kCompleted"
    using False assms e by (auto simp: DecideSwitch_def decide_defs split: if_splits)
  ultimately show ?thesis using assms(3,6) False unfolding e by (auto intro: transition.terminal)
qed

lemma authorized_exists:
  assumes "authorized L s p"
  shows "\<exists>s' es. transition s (pp_event_type p) (pp_payload p) s' es"
proof (cases "pp_event_type p = EventType.kJobCreated")
  case True
  with assms show ?thesis using authorized_shape[OF assms]
    by (auto simp: authorized_def is_JobCreatedPayload_def) (blast intro: created)
next
  case False
  with assms obtain q where q: "DecideSwitch s (event_of p) = Inr q"
    "pp_event_type q = pp_event_type p" and ent: "entity_exists s" and v: "ValidSnapshot s"
    by (auto simp: authorized_def well_formed_def)
  note shape = authorized_shape[OF assms]
  note decided = q(1)[unfolded DecideSwitch_def]
  show ?thesis
  proof (cases "pp_event_type p")
    case kCancelAccepted
    then show ?thesis using command_exists[OF q(1) ent] shape by (auto simp: is_PrincipalPayload_def)
  next
    case kTerminateAccepted
    then show ?thesis using command_exists[OF q(1) ent] shape by (auto simp: is_PrincipalPayload_def)
  next
    case kTimeoutExpired
    then show ?thesis using timeout_exists[OF q(1)] ent by simp
  next
    case kWorkerCompleted
    then show ?thesis using worker_outcome_exists[OF q(1)] q(2) ent by simp
  next
    case kWorkerFailed
    then show ?thesis using worker_outcome_exists[OF q(1)] q(2) ent by simp
  next
    case kProcessExitConfirmed
    then show ?thesis using exit_exists[OF q(1) v ent] by simp
  next
    case kFinalizationFailed
    then show ?thesis using finalization_exists[OF q(1) v ent] shape by simp
  next
    case kTerminalOutcomeCommitted
    then show ?thesis using finalization_exists[OF q(1) v ent] shape by simp
  next
    case kWorkerLaunchObserved
    with decided shape show ?thesis using ent
      apply (auto simp: decide_defs is_WorkerLaunchObservedPayload_def split: if_splits)
      by (metis (full_types) launch_started launch_failed)
  next
    case kResourcesCommitted
    with decided shape ent show ?thesis
      by (auto simp: decide_defs is_ResourcesCommittedPayload_def split: if_splits) (blast intro: resources_committed)+
  next
    case kWorkerLaunchIntent
    with decided shape ent show ?thesis
      by (auto simp: decide_defs is_WorkerLaunchIntentPayload_def split: if_splits) (blast intro: launch_intent)+
  next
    case kWorkerRunning
    with decided shape ent show ?thesis
      by (auto simp: decide_defs is_WorkerRunningPayload_def split: if_splits) (blast intro: running)+
  next
    case kSessionRetainRequested
    with decided shape ent show ?thesis
      by (auto simp: decide_defs is_SessionPayload_def split: if_splits) (blast intro: retain_requested)+
  next
    case kSessionRetained
    with decided shape ent show ?thesis
      by (auto simp: decide_defs is_SessionPayload_def split: if_splits) (blast intro: retained)+
  next
    case kFinalizationCompleted
    with decided shape ent show ?thesis
      by (auto simp: decide_defs  split: if_splits) (blast intro: finalization_completed)+
  next
    case kResourcesReleased
    with decided shape ent show ?thesis
      by (auto simp: decide_defs is_ResourcesReleasedPayload_def split: if_splits) (blast intro: released)+
  next
    case kCleanupStatusRecorded
    with decided shape ent show ?thesis
      by (auto simp: decide_defs is_CleanupStatusPayload_def split: if_splits) (blast intro: cleanup_recorded)+
  next
    case kLateWorkerEvent
    with decided shape ent show ?thesis
      by (auto simp: decide_defs is_LateWorkerEventPayload_def split: if_splits) (blast intro: late_worker_event)+
  qed (use False shape in simp_all)
qed

lemma accepted_iff_transition:
  "ar_rejection (Apply L s p) = None \<and> ar_snapshot (Apply L s p) = s' \<and> ar_effects (Apply L s p) = es
   \<longleftrightarrow> well_formed L s p \<and> transition s (pp_event_type p) (pp_payload p) s' es"
proof
  assume a: "ar_rejection (Apply L s p) = None \<and> ar_snapshot (Apply L s p) = s' \<and> ar_effects (Apply L s p) = es"
  then have auth: "authorized L s p" and res: "ApplyAuthorizedEvent s [] p = Some (s', es)"
    using Apply_accepts_iff Apply_result by blast+
  from authorized_exists[OF auth] obtain s1 es1
    where t: "transition s (pp_event_type p) (pp_payload p) s1 es1" by blast
  have wf: "well_formed L s p" using auth by (simp add: authorized_def)
  from transition_sound[OF t wf] res t wf
  show "well_formed L s p \<and> transition s (pp_event_type p) (pp_payload p) s' es" by simp
next
  assume "well_formed L s p \<and> transition s (pp_event_type p) (pp_payload p) s' es"
  then have "authorized L s p \<and> ApplyAuthorizedEvent s [] p = Some (s', es)"
    using transition_sound by blast
  then show "ar_rejection (Apply L s p) = None \<and> ar_snapshot (Apply L s p) = s' \<and> ar_effects (Apply L s p) = es"
    using Apply_accepts_iff[of L s p] Apply_result[of L s p] by simp
qed

lemma rejected_result:
  "ar_rejection (Apply L s p) \<noteq> None \<Longrightarrow> ar_snapshot (Apply L s p) = s \<and> ar_effects (Apply L s p) = []"
  by (auto simp: Apply_def ApplyRejected_def split: if_splits sum.splits option.splits)

section \<open>What is decided is applied\<close>

lemma DecideSwitch_form:
  assumes "DecideSwitch s e = Inr q"
  shows "q = \<lparr>pp_schema_version = 1, pp_job_id = job_id s, pp_event_type = ie_event_type e,
      pp_payload = ie_payload e\<rparr>
    \<or> (\<exists>w n. ie_payload e = WorkerEventPayload w n \<and> worker_id s = Some w
        \<and> (ie_event_type e = EventType.kWorkerCompleted \<or> ie_event_type e = EventType.kWorkerFailed)
        \<and> (IsTerminal (state s) \<or> state s = JobState.kFinalizing)
        \<and> q = \<lparr>pp_schema_version = 1, pp_job_id = job_id s,
            pp_event_type = EventType.kLateWorkerEvent,
            pp_payload = LateWorkerEventPayload (ie_event_type e) w n\<rparr>)"
  using assms by (cases "ie_event_type e")
    (simp_all add: DecideSwitch_def decide_defs split: if_splits EventPayload.splits)

lemma DecideSwitch_cong:
  assumes "ie_event_type e = ie_event_type f" "ie_payload e = ie_payload f"
  shows "DecideSwitch s e = DecideSwitch s f"
  unfolding DecideSwitch_def decide_defs assms ..

lemma DecideEvent_accepted:
  assumes "DecideEvent L s e = Inr q"
  shows "authorized L s q"
proof -
  let ?v = "ValidInternalPayload L (ie_event_type e) (ie_payload e) (job_id s)"
  have v: "ValidSnapshot s" "?v"
    using assms by (simp_all add: DecideEvent_def DecideInternal_def split: if_splits)
  show ?thesis
  proof (cases "ie_event_type e = EventType.kJobCreated")
    case True
    then show ?thesis using assms v
      by (simp add: DecideEvent_def DecideInternal_def AcceptEvent_def authorized_def well_formed_def
          split: if_splits)
  next
    case False
    then have sw: "DecideSwitch s e = Inr q" and ent: "entity_exists s"
      using assms by (simp_all add: DecideEvent_def DecideInternal_def split: if_splits)
    from DecideSwitch_form[OF sw] show ?thesis
    proof (elim disjE exE conjE)
      assume q: "q = \<lparr>pp_schema_version = 1, pp_job_id = job_id s, pp_event_type = ie_event_type e,
        pp_payload = ie_payload e\<rparr>"
      have "DecideSwitch s (event_of q) = DecideSwitch s e"
        using q by (intro DecideSwitch_cong) simp_all
      with sw q v ent False show ?thesis by (simp add: authorized_def well_formed_def)
    qed (use v ent in \<open>simp_all add: authorized_def well_formed_def DecideSwitch_def AcceptEvent_def ValidInternalPayload_def enum_defs\<close>)
  qed
qed

lemma DecideCommand_accepted:
  assumes "DecideCommand s c = Inr q"
  shows "authorized L s q"
proof -
  let ?t = "if cmd_command_type c = CommandType.kCancel then EventType.kCancelAccepted
            else EventType.kTerminateAccepted"
  have v: "ValidSnapshot s" "entity_exists s" "IsPrincipal (cmd_principal_subject c)"
    and q: "q = \<lparr>pp_schema_version = 1, pp_job_id = job_id s, pp_event_type = ?t,
      pp_payload = PrincipalPayload (cmd_principal_subject c)\<rparr>"
    using assms by (simp_all add: DecideCommand_def split: if_splits)
  have "state s = JobState.kAdmitted \<or> state s = JobState.kPreparing \<or> state s = JobState.kRunning
    \<or> cmd_command_type c \<noteq> CommandType.kCancel \<and> \<not> process_exit_confirmed s
      \<and> (state s = JobState.kStopping \<or> state s = JobState.kFinalizing)"
    using assms by (simp add: DecideCommand_def split: if_splits) blast
  with v q show ?thesis
    by (elim disjE conjE; cases "cmd_command_type c = CommandType.kCancel")
      (simp_all add: authorized_def well_formed_def DecideSwitch_def decide_defs
        ValidInternalPayload_def enum_defs)
qed

text \<open>
  C1. The reducer implements its contract: \<open>Apply\<close> accepts a proposal exactly when the proposal is
  well formed for a valid snapshot and the step relation allows its event, and it then returns the
  snapshot and the effects, in order, of that step.
\<close>

theorem Apply_implements_contract:
  "ar_rejection (Apply L s p) = None \<and> ar_snapshot (Apply L s p) = s' \<and> ar_effects (Apply L s p) = es
   \<longleftrightarrow> well_formed L s p \<and> transition s (pp_event_type p) (pp_payload p) s' es"
  by (rule accepted_iff_transition)

text \<open>
  C14. What is decided is applied: a proposal returned by \<open>DecideEvent\<close> or \<open>DecideCommand\<close> on a
  snapshot is never rejected by \<open>Apply\<close> on the same snapshot. This covers the rewriting of a
  worker result into a late worker event.
\<close>

theorem decided_proposals_apply:
  "DecideEvent L s e = Inr p \<or> DecideCommand s c = Inr p \<Longrightarrow> ar_rejection (Apply L s p) = None"
  using DecideEvent_accepted DecideCommand_accepted Apply_accepts_iff by blast

text \<open>
  A rejection is inert: the snapshot is returned unchanged and no effect is requested.
\<close>

theorem rejected_is_inert:
  "ar_rejection (Apply L s p) \<noteq> None \<Longrightarrow> ar_snapshot (Apply L s p) = s \<and> ar_effects (Apply L s p) = []"
  by (rule rejected_result)

section \<open>Concrete inputs\<close>

definition sample_libs :: libs where
  "sample_libs = \<lparr>json_parse = (\<lambda>text. Some (JObject [])), sha256 = (\<lambda>bytes. replicate 64 CHR ''a'')\<rparr>"

definition sample_job :: Uuid where
  "sample_job = Uuid ''01890000-0000-7000-8000-000000000000''"

definition sample_created :: InternalEvent where
  "sample_created = \<lparr>ie_schema_version = 1, ie_job_id = sample_job,
     ie_event_type = EventType.kJobCreated, ie_payload = JobCreatedPayload sample_job\<rparr>"

definition sample_created_proposal :: PreEnvelopeProposal where
  "sample_created_proposal = \<lparr>pp_schema_version = 1, pp_job_id = sample_job,
     pp_event_type = EventType.kJobCreated, pp_payload = JobCreatedPayload sample_job\<rparr>"

theorem decided_proposals_apply_witness:
  "DecideEvent sample_libs (InitialSnapshot sample_job sample_job) sample_created
     = Inr sample_created_proposal
   \<and> ar_rejection (Apply sample_libs (InitialSnapshot sample_job sample_job) sample_created_proposal)
     = None"
proof -
  have "DecideEvent sample_libs (InitialSnapshot sample_job sample_job) sample_created
     = Inr sample_created_proposal"
    by code_simp
  with decided_proposals_apply show ?thesis by blast
qed

theorem rejected_is_inert_witness:
  "ar_rejection (Apply sample_libs ((InitialSnapshot sample_job sample_job)\<lparr>entity_exists := True\<rparr>)
     sample_created_proposal) \<noteq> None
   \<and> ar_snapshot (Apply sample_libs ((InitialSnapshot sample_job sample_job)\<lparr>entity_exists := True\<rparr>)
     sample_created_proposal) = (InitialSnapshot sample_job sample_job)\<lparr>entity_exists := True\<rparr>"
proof -
  have "ar_rejection (Apply sample_libs ((InitialSnapshot sample_job sample_job)\<lparr>entity_exists := True\<rparr>)
     sample_created_proposal) \<noteq> None"
    by code_simp
  with rejected_is_inert show ?thesis by blast
qed

end
