(* ===== verification/Job_Invariant.thy ===== *)
theory Job_Invariant
  imports Job_Contract
begin

text \<open>
  The inductive invariant of a Job. \<open>ValidSnapshot\<close> alone is not inductive: it says nothing about
  the relation of the lifecycle state to the latched reason, the launch facts and the retention
  facts. \<open>job_inv\<close> adds these, one definition per concern, and every step of the contract preserves
  \<open>job_inv\<close> and, with it, each conjunct of \<open>ValidSnapshot\<close>.
\<close>

named_theorems inv_defs \<open>definitions of the conjuncts of the lifecycle invariant\<close>

abbreviation active :: "Snapshot \<Rightarrow> bool" where
  "active s \<equiv> state s = JobState.kAdmitted \<or> state s = JobState.kPreparing
     \<or> state s = JobState.kRunning \<or> state s = JobState.kStopping"

abbreviation closing :: "Snapshot \<Rightarrow> bool" where
  "closing s \<equiv> state s = JobState.kFinalizing \<or> IsTerminal (state s)"

definition inv_open :: "Snapshot \<Rightarrow> bool" where
  [inv_defs]: "inv_open s \<longleftrightarrow>
     (active s \<longrightarrow>
        \<not> process_exit_confirmed s \<and> \<not> pending_worker_event_ack s \<and> \<not> completion_candidate s
        \<and> session_retention_status s = RetentionStatus.kNotStarted
        \<and> cleanup_status s = CleanupStatus.kPending)
   \<and> (\<not> entity_exists s \<longrightarrow> state s = JobState.kAdmitted)"

definition inv_reason :: "Snapshot \<Rightarrow> bool" where
  [inv_defs]: "inv_reason s \<longleftrightarrow>
     (state s = JobState.kAdmitted \<or> state s = JobState.kPreparing \<or> state s = JobState.kRunning \<longrightarrow>
        latched_reason s = None)
   \<and> (state s = JobState.kStopping \<longrightarrow> latched_reason s \<noteq> None)
   \<and> (closing s \<longrightarrow> (latched_reason s = None \<longleftrightarrow> completion_candidate s))
   \<and> (IsTerminal (state s) \<longrightarrow> state s = (case latched_reason s of
        None \<Rightarrow> JobState.kSucceeded | Some r \<Rightarrow> JobStateForOutcome r))"

definition inv_process :: "Snapshot \<Rightarrow> bool" where
  [inv_defs]: "inv_process s \<longleftrightarrow>
     (state s = JobState.kPreparing \<longrightarrow>
        (process_presence s = ProcessPresence.kAbsent \<longrightarrow>
           worker_launch_status s = LaunchStatus.kNotStarted)
        \<and> (process_presence s \<noteq> ProcessPresence.kAbsent \<longrightarrow>
           worker_launch_status s \<noteq> LaunchStatus.kNotStarted)
        \<and> worker_launch_status s \<noteq> LaunchStatus.kFailed)
   \<and> (state s = JobState.kRunning \<or> state s = JobState.kStopping
      \<or> closing s \<and> \<not> process_exit_confirmed s \<longrightarrow>
        (worker_launch_status s = LaunchStatus.kIntentRecorded
         \<or> worker_launch_status s = LaunchStatus.kObserved)
        \<and> process_presence s \<noteq> ProcessPresence.kAbsent)
   \<and> (state s = JobState.kRunning \<or> completion_candidate s \<longrightarrow>
        worker_launch_status s = LaunchStatus.kObserved)"

definition inv_resources :: "Snapshot \<Rightarrow> bool" where
  [inv_defs]: "inv_resources s \<longleftrightarrow>
     (state s = JobState.kPreparing \<or> state s = JobState.kRunning \<or> state s = JobState.kStopping \<longrightarrow>
        resource_status s = ResourceStatus.kCommitted)
   \<and> (worker_launch_status s \<noteq> LaunchStatus.kNotStarted \<longrightarrow>
        resource_status s \<noteq> ResourceStatus.kNone)
   \<and> (resource_status s = ResourceStatus.kReleased \<longrightarrow> IsTerminal (state s))"

definition inv_finalization :: "Snapshot \<Rightarrow> bool" where
  [inv_defs]: "inv_finalization s \<longleftrightarrow>
     (finalization_status s = FinalizationStatus.kCompleted \<longrightarrow>
        session_retention_status s = RetentionStatus.kRetained)
   \<and> (finalization_status s = FinalizationStatus.kFailed \<longrightarrow>
        cleanup_status s = CleanupStatus.kIncomplete \<and> \<not> completion_candidate s)
   \<and> (state s = JobState.kFinalizing \<and> finalization_status s \<noteq> FinalizationStatus.kFailed \<longrightarrow>
        cleanup_status s = CleanupStatus.kPending)"

definition inv_ack :: "Snapshot \<Rightarrow> bool" where
  [inv_defs]: "inv_ack s \<longleftrightarrow> (pending_worker_event_ack s \<longrightarrow> pending_worker_id s = worker_id s)"

definition job_inv :: "Snapshot \<Rightarrow> bool" where
  "job_inv s \<longleftrightarrow> inv_open s \<and> inv_reason s \<and> inv_process s \<and> inv_resources s
     \<and> inv_finalization s \<and> inv_ack s"

lemma JobStateForOutcome_terminal [simp]: "IsTerminal (JobStateForOutcome r)"
  by (cases r) simp_all

lemma JobStateForOutcome_neq [simp]:
  "JobStateForOutcome r \<noteq> JobState.kAdmitted" "JobStateForOutcome r \<noteq> JobState.kPreparing"
  "JobStateForOutcome r \<noteq> JobState.kRunning" "JobStateForOutcome r \<noteq> JobState.kStopping"
  "JobStateForOutcome r \<noteq> JobState.kFinalizing" "JobStateForOutcome r \<noteq> JobState.kInvalid"
  by (cases r; simp)+

lemma job_inv_initial: "job_inv (InitialSnapshot j k)"
  by (simp add: job_inv_def inv_defs InitialSnapshot_def)

lemma valid_active:
  assumes "ValidSnapshot s"
    "state s \<in> {JobState.kAdmitted, JobState.kPreparing, JobState.kRunning, JobState.kStopping}"
  shows "finalization_status s = FinalizationStatus.kNotStarted"
  using assms by (auto simp: ValidSnapshot_def HasValidStateFacts_def split: if_splits)

lemma valid_launch_status:
  assumes "ValidSnapshot s"
  shows "worker_launch_status s = LaunchStatus.kNotStarted \<or> worker_launch_status s = LaunchStatus.kIntentRecorded
    \<or> worker_launch_status s = LaunchStatus.kObserved \<or> worker_launch_status s = LaunchStatus.kFailed"
  using assms by (cases "worker_launch_status s")
    (simp_all add: ValidSnapshot_def HasValidSnapshotEnums_def enum_defs)

lemma valid_admitted:
  assumes "ValidSnapshot s" "state s = JobState.kAdmitted"
  shows "worker_launch_status s = LaunchStatus.kNotStarted" "process_presence s = ProcessPresence.kAbsent"
  using assms by (auto simp: ValidSnapshot_def HasValidStateFacts_def split: if_splits)

lemma valid_worker:
  assumes "ValidSnapshot s" "worker_id s = Some w \<or> launch_operation_id s = Some l"
  shows "worker_launch_status s \<noteq> LaunchStatus.kNotStarted"
  using assms by (auto simp: ValidSnapshot_def HasValidLaunchFacts_def split: if_splits)

section \<open>Preservation of the lifecycle invariant\<close>

lemma job_inv_step:
  assumes "transition s t q s' es" "ValidSnapshot s" "job_inv s"
  shows "job_inv s'"
proof -
  note v = valid_active[OF assms(2)] valid_launch_status[OF assms(2)] valid_worker[OF assms(2)]
    valid_admitted[OF assms(2)]
  from assms(1) show ?thesis
  proof cases
    case stop_before_launch
    then show ?thesis using assms(3) v by (elim disjE conjE) (simp_all add: job_inv_def inv_defs)
  next
    case stop
    then show ?thesis using assms(3) v by (elim disjE conjE) (auto simp add: job_inv_def inv_defs)
  next
    case terminal
    then show ?thesis using assms(3) by (simp add: job_inv_def inv_defs split: option.splits)
  next
    case released
    then show ?thesis using assms(3) by (simp add: job_inv_def inv_defs)
  next
    case created
    then show ?thesis by (simp add: job_inv_def inv_defs InitialSnapshot_def)
  next
    case failed
    then show ?thesis using assms(3) v by (elim disjE conjE) (auto simp add: job_inv_def inv_defs)
  next
    case exit_unexpected
    then show ?thesis using assms(3) v by (elim disjE conjE) (auto simp add: job_inv_def inv_defs)
  next
    case late_worker_event
    then show ?thesis using assms(3) by simp
  next
    case exit_repeated
    then show ?thesis using assms(3) by simp
  next
    case exit_first
    then show ?thesis using assms(3) by (elim disjE conjE) (simp_all add: job_inv_def inv_defs)
  next
    case escalate_terminate
    then show ?thesis using assms(3) v by (elim disjE conjE) (simp_all add: job_inv_def inv_defs)
  next
    case cleanup_recorded
    then show ?thesis using assms(3) by (elim disjE conjE) (simp_all add: job_inv_def inv_defs)
  qed (use assms(3) v in \<open>(simp add: job_inv_def inv_defs; fail)\<close>)+
qed

section \<open>Preservation of ValidSnapshot\<close>

text \<open>Each conjunct of \<^verbatim>\<open>ValidSnapshot\<close> as implications, for the simplifier.\<close>

lemma HasValidSnapshotOptionalDomains_flat:
  "HasValidSnapshotOptionalDomains s \<longleftrightarrow>
     (\<forall>r. latched_reason s = Some r \<longrightarrow> r \<noteq> TerminalOutcome.kInvalid \<and> r \<noteq> TerminalOutcome.kSucceeded)
     \<and> (\<forall>a. allocation_id s = Some a \<longrightarrow> IsStable (stable_value a))
     \<and> (\<forall>d. allocation_digest s = Some d \<longrightarrow> IsDigest (digest_value d))
     \<and> (\<forall>l. launch_operation_id s = Some l \<longrightarrow> IsStable (stable_value l))
     \<and> (\<forall>w. worker_id s = Some w \<longrightarrow> IsUuid (uuid_value w) CHR ''4'')
     \<and> (\<forall>w. pending_worker_id s = Some w \<longrightarrow> IsUuid (uuid_value w) CHR ''4'')
     \<and> pending_worker_event_sequence s \<noteq> Some 0"
  by (simp add: HasValidSnapshotOptionalDomains_def enum_defs split: option.split)

lemma HasValidResourceFacts_flat:
  "HasValidResourceFacts s \<longleftrightarrow>
     (resource_status s = ResourceStatus.kNone \<longrightarrow> allocation_id s = None \<and> allocation_digest s = None)
     \<and> (resource_status s \<noteq> ResourceStatus.kNone \<longrightarrow> allocation_id s \<noteq> None \<and> allocation_digest s \<noteq> None)
     \<and> (resource_status s = ResourceStatus.kReleased \<longrightarrow> process_exit_confirmed s)"
  by (auto simp: HasValidResourceFacts_def)

lemma HasValidExitFacts_flat:
  "HasValidExitFacts s \<longleftrightarrow>
     (process_exit_confirmed s \<longrightarrow> process_presence s = ProcessPresence.kAbsent
        \<and> \<not> pending_worker_event_ack s \<and> pending_worker_id s = None
        \<and> pending_worker_event_sequence s = None)
     \<and> (completion_mode s = CompletionMode.kProcessAlreadyExited \<longrightarrow> process_exit_confirmed s)"
  by (auto simp: HasValidExitFacts_def)

lemma HasValidLaunchFacts_flat:
  "HasValidLaunchFacts s \<longleftrightarrow>
     (worker_launch_status s = LaunchStatus.kNotStarted \<longrightarrow>
        launch_operation_id s = None \<and> worker_id s = None)
     \<and> (worker_launch_status s \<noteq> LaunchStatus.kNotStarted \<longrightarrow>
        launch_operation_id s \<noteq> None \<and> worker_id s \<noteq> None)
     \<and> (\<forall>w. worker_launch_status s \<noteq> LaunchStatus.kNotStarted \<and> worker_id s = Some w \<longrightarrow>
          IsUuid (uuid_value w) CHR ''4'')"
  by (auto simp: HasValidLaunchFacts_def split: option.split)

lemma HasValidPendingAckFacts_flat:
  "HasValidPendingAckFacts s \<longleftrightarrow>
     (\<not> pending_worker_event_ack s \<longrightarrow>
        pending_worker_id s = None \<and> pending_worker_event_sequence s = None)
     \<and> (pending_worker_event_ack s \<longrightarrow> pending_worker_id s \<noteq> None
        \<and> pending_worker_event_sequence s \<noteq> None \<and> pending_worker_event_sequence s \<noteq> Some 0)"
  by (auto simp: HasValidPendingAckFacts_def split: option.splits)

lemma HasValidStateFacts_flat:
  "HasValidStateFacts s \<longleftrightarrow>
     (state s = JobState.kAdmitted \<longrightarrow> resource_status s = ResourceStatus.kNone
        \<and> worker_launch_status s = LaunchStatus.kNotStarted
        \<and> process_presence s = ProcessPresence.kAbsent \<and> \<not> process_exit_confirmed s)
     \<and> (state s \<in> {JobState.kAdmitted, JobState.kPreparing, JobState.kRunning, JobState.kStopping} \<longrightarrow>
          finalization_status s = FinalizationStatus.kNotStarted)
     \<and> (state s = JobState.kFinalizing \<longrightarrow> finalization_status s \<noteq> FinalizationStatus.kNotStarted)
     \<and> (IsTerminal (state s) \<longrightarrow> finalization_status s = FinalizationStatus.kCompleted
          \<or> finalization_status s = FinalizationStatus.kFailed)"
  by (simp add: HasValidStateFacts_def) blast

lemmas snapshot_defs = ValidSnapshot_def HasValidSnapshotIdentity_def HasValidSnapshotEnums_def enum_defs
  HasValidSnapshotOptionalDomains_flat HasValidResourceFacts_flat HasValidExitFacts_flat
  HasValidLaunchFacts_flat HasValidPendingAckFacts_flat HasValidStateFacts_flat

lemma valid_payload_facts:
  "ValidInternalPayload L t (JobCreatedPayload sid) j \<Longrightarrow> sid = j"
  "ValidInternalPayload L t (ResourcesCommittedPayload a d i v x) j \<Longrightarrow>
     IsStable (stable_value a) \<and> IsDigest (digest_value d)"
  "ValidInternalPayload L t (WorkerLaunchIntentPayload l p av b a d w) j \<Longrightarrow>
     IsStable (stable_value l) \<and> IsUuid (uuid_value w) CHR ''4''"
  "ValidInternalPayload L t (WorkerEventPayload w n) j \<Longrightarrow> IsUuid (uuid_value w) CHR ''4'' \<and> n \<noteq> 0"
  "ValidInternalPayload L t (ProcessExitConfirmedPayload m l) j \<Longrightarrow>
     m \<noteq> CompletionMode.kInvalid \<and> m \<noteq> CompletionMode.kNone"
  "ValidInternalPayload L t (CleanupStatusPayload c) j \<Longrightarrow>
     c \<noteq> CleanupStatus.kInvalid \<and> c \<noteq> CleanupStatus.kPending"
  by (simp_all add: ValidInternalPayload_def enum_defs split: if_splits)

lemma identity_step:
  assumes "transition s t q s' es" "HasValidSnapshotIdentity s" "ValidInternalPayload L t q (job_id s)"
  shows "HasValidSnapshotIdentity s'"
  using assms(1)
proof cases
  case created
  then show ?thesis using assms(2,3)
    by (simp add: HasValidSnapshotIdentity_def InitialSnapshot_def ValidInternalPayload_def split: if_splits)
qed (use assms(2) in \<open>simp_all add: HasValidSnapshotIdentity_def\<close>)

lemma enums_step:
  assumes "transition s t q s' es" "HasValidSnapshotEnums s" "ValidInternalPayload L t q (job_id s)"
  shows "HasValidSnapshotEnums s'"
  using assms(1)
proof cases
  case created
  then show ?thesis by (simp add: HasValidSnapshotEnums_def InitialSnapshot_def enum_defs)
next
  case stop
  then show ?thesis using assms(2) by (elim stop_causeE) (simp_all add: HasValidSnapshotEnums_def enum_defs)
qed (use assms(2,3) in \<open>(auto simp: HasValidSnapshotEnums_def enum_defs dest!: valid_payload_facts)[1]\<close>)+

lemma optional_domains_step:
  assumes "transition s t q s' es" "HasValidSnapshotOptionalDomains s" "ValidInternalPayload L t q (job_id s)"
  shows "HasValidSnapshotOptionalDomains s'"
  using assms(1)
proof cases
  case created
  then show ?thesis by (simp add: HasValidSnapshotOptionalDomains_flat InitialSnapshot_def)
next
  case stop
  then show ?thesis using assms(2) by (elim stop_causeE) (simp_all add: HasValidSnapshotOptionalDomains_flat)
next
  case stop_before_launch
  from this(5) show ?thesis using assms(2) stop_before_launch(1) by (elim stop_causeE) (simp_all add: HasValidSnapshotOptionalDomains_flat)
next
  case stopped_worker
  then show ?thesis using assms(2,3)
    by (simp add: HasValidSnapshotOptionalDomains_flat ValidInternalPayload_def split: if_splits)
qed (use assms(2,3) in \<open>(auto simp add: HasValidSnapshotOptionalDomains_flat dest!: valid_payload_facts)[1]\<close>)+

lemma resource_step:
  assumes "transition s t q s' es" "HasValidResourceFacts s" "job_inv s"
  shows "HasValidResourceFacts s'"
  using assms(1)
proof cases
  case created
  then show ?thesis by (simp add: HasValidResourceFacts_flat InitialSnapshot_def)
qed (use assms(2) in \<open>(auto simp add: HasValidResourceFacts_flat)[1]\<close>)+

lemma active_open:
  assumes "job_inv s" "ValidSnapshot s"
    "state s = JobState.kAdmitted \<or> state s = JobState.kPreparing \<or> state s = JobState.kRunning
     \<or> state s = JobState.kStopping"
  shows "process_exit_confirmed s = False" "pending_worker_event_ack s = False"
    "pending_worker_id s = None" "pending_worker_event_sequence s = None"
  using assms by (simp_all add: job_inv_def inv_open_def ValidSnapshot_def HasValidPendingAckFacts_flat)

lemma exit_step:
  assumes "transition s t q s' es" "ValidSnapshot s" "job_inv s"
  shows "HasValidExitFacts s'"
proof -
  have v: "HasValidExitFacts s" using assms(2) by (simp add: ValidSnapshot_def)
  note open_facts = active_open[OF assms(3,2)]
  from assms(1) show ?thesis
  proof cases
    case created
    then show ?thesis by (simp add: HasValidExitFacts_flat InitialSnapshot_def)
  next
    case stop_before_launch
    then show ?thesis using valid_admitted[OF assms(2)] open_facts
      by (elim disjE conjE) (simp_all add: HasValidExitFacts_flat)
  next
    case stop
    then show ?thesis using open_facts v
      by (elim disjE conjE stop_causeE) (simp_all add: HasValidExitFacts_flat)
  qed (use open_facts v in \<open>auto simp: HasValidExitFacts_flat\<close>)
qed

lemma launch_step:
  assumes "transition s t q s' es" "HasValidLaunchFacts s" "ValidInternalPayload L t q (job_id s)"
  shows "HasValidLaunchFacts s'"
  using assms(1)
proof cases
  case created
  then show ?thesis by (simp add: HasValidLaunchFacts_flat InitialSnapshot_def)
qed (use assms(2,3) in \<open>(auto simp: HasValidLaunchFacts_flat dest!: valid_payload_facts)[1]\<close>)+

lemma pending_ack_step:
  assumes "transition s t q s' es" "HasValidPendingAckFacts s" "ValidInternalPayload L t q (job_id s)"
  shows "HasValidPendingAckFacts s'"
  using assms(1)
proof cases
  case created
  then show ?thesis by (simp add: HasValidPendingAckFacts_flat InitialSnapshot_def)
qed (use assms(2,3) in \<open>(auto simp: HasValidPendingAckFacts_flat dest!: valid_payload_facts)[1]\<close>)+

lemma state_step:
  assumes "transition s t q s' es" "HasValidStateFacts s"
  shows "HasValidStateFacts s'"
  using assms(1)
proof cases
  case created
  then show ?thesis by (simp add: HasValidStateFacts_flat InitialSnapshot_def)
next
  case exit_first
  then show ?thesis using assms(2) by (elim disjE) (simp_all add: HasValidStateFacts_flat)
qed (use assms(2) in \<open>(auto simp: HasValidStateFacts_flat)[1]\<close>)+

lemma ValidSnapshot_step:
  assumes "transition s t q s' es" "ValidSnapshot s" "job_inv s" "ValidInternalPayload L t q (job_id s)"
  shows "ValidSnapshot s'"
  using assms exit_step[OF assms(1-3)]
  by (simp add: ValidSnapshot_def identity_step enums_step optional_domains_step resource_step
      launch_step pending_ack_step state_step)
end
