(* ===== verification/Job_Lifecycle.thy ===== *)
theory Job_Lifecycle
  imports Job_Invariant
begin

text \<open>
  Runs of one Job. A run applies proposals one after the other, as the single writer of the core
  does; it fails at the first rejection. The theorems hold of every run, in whatever order the
  commands, timeouts, worker reports and process exits arrive: snapshots stay valid, terminal
  outcomes are final and agree with their cause, effects with an outside consequence are requested
  once, and every Job can be brought to a terminal state.
\<close>

section \<open>Runs\<close>

definition accept :: "ApplyResult \<Rightarrow> (Snapshot \<times> Effect list) option" where
  "accept r = (if ar_rejection r = None then Some (ar_snapshot r, ar_effects r) else None)"

fun run :: "libs \<Rightarrow> Snapshot \<Rightarrow> PreEnvelopeProposal list \<Rightarrow> (Snapshot \<times> Effect list) option" where
  "run L s [] = Some (s, [])"
| "run L s (p # ps) =
     (case accept (Apply L s p) of
        None \<Rightarrow> None
      | Some (s1, es1) \<Rightarrow>
          (case run L s1 ps of None \<Rightarrow> None | Some (s', es) \<Rightarrow> Some (s', es1 @ es)))"

declare run.simps(2) [simp del]

abbreviation initial :: "Uuid \<Rightarrow> Snapshot" where
  "initial j \<equiv> InitialSnapshot j j"

lemma run_Cons:
  "run L s (p # ps) = Some (s', es) \<longleftrightarrow>
     (\<exists>s1 es1 es2. well_formed L s p \<and> transition s (pp_event_type p) (pp_payload p) s1 es1
        \<and> run L s1 ps = Some (s', es2) \<and> es = es1 @ es2)"
  unfolding conj_assoc[symmetric] unfolding accepted_iff_transition[symmetric]
  by (auto simp: run.simps(2) accept_def split: option.splits)

lemma run_append:
  "run L s (ps @ qs) = (case run L s ps of None \<Rightarrow> None | Some (s1, es1) \<Rightarrow>
     (case run L s1 qs of None \<Rightarrow> None | Some (s2, es2) \<Rightarrow> Some (s2, es1 @ es2)))"
  by (induction ps arbitrary: s) (auto simp: run.simps(2) split: option.split)

text \<open>
  Induction over a run: a relation between the snapshots at its ends and its effects holds if it
  is reflexive and closed under one more accepted step of a valid snapshot.
\<close>

lemma run_induct [consumes 3, case_names refl step]:
  assumes "run L s ps = Some (s', es)" "ValidSnapshot s" "job_inv s"
    and "\<And>s. P s s []"
    and "\<And>s p s1 es1 s' es. ValidSnapshot s \<Longrightarrow> job_inv s \<Longrightarrow> well_formed L s p \<Longrightarrow>
           transition s (pp_event_type p) (pp_payload p) s1 es1 \<Longrightarrow> P s1 s' es \<Longrightarrow> P s s' (es1 @ es)"
  shows "P s s' es"
  using assms(1-3)
proof (induction ps arbitrary: s es)
  case (Cons p ps)
  from Cons.prems(1) obtain s1 es1 es2 where t: "well_formed L s p"
    "transition s (pp_event_type p) (pp_payload p) s1 es1" "run L s1 ps = Some (s', es2)"
    "es = es1 @ es2"
    by (auto simp: run_Cons)
  have "ValidInternalPayload L (pp_event_type p) (pp_payload p) (job_id s)"
    using t(1) by (simp add: well_formed_def)
  then have "ValidSnapshot s1" "job_inv s1"
    using ValidSnapshot_step[OF t(2)] job_inv_step[OF t(2)] Cons.prems(2,3) by blast+
  with Cons.IH[OF t(3)] assms(5)[OF Cons.prems(2,3) t(1,2)] t(4) show ?case by simp
qed (use assms(4) in simp)

lemma initial_valid:
  assumes "IsUuid (uuid_value j) CHR ''7''"
  shows "ValidSnapshot (initial j)"
  using assms by (simp add: snapshot_defs InitialSnapshot_def)

lemma run_valid:
  assumes "run L s ps = Some (s', es)" "ValidSnapshot s" "job_inv s"
  shows "ValidSnapshot s' \<and> job_inv s'"
  using assms
proof (induction ps arbitrary: s es)
  case (Cons p ps)
  from Cons.prems(1) obtain s1 es1 es2 where t: "well_formed L s p"
    "transition s (pp_event_type p) (pp_payload p) s1 es1" "run L s1 ps = Some (s', es2)"
    by (auto simp: run_Cons)
  have "ValidInternalPayload L (pp_event_type p) (pp_payload p) (job_id s)"
    using t(1) by (simp add: well_formed_def)
  then have "ValidSnapshot s1" "job_inv s1"
    using ValidSnapshot_step[OF t(2)] job_inv_step[OF t(2)] Cons.prems(2,3) by blast+
  with Cons.IH[OF t(3)] show ?case by blast
qed simp

lemmas initial_run_valid = run_valid[OF _ initial_valid job_inv_initial]

section \<open>Step lemmas\<close>

lemma terminal_exists: "job_inv s \<Longrightarrow> IsTerminal (state s) \<Longrightarrow> entity_exists s"
  by (auto simp: job_inv_def inv_open_def)

lemma terminal_step:
  assumes "transition s t q s' es" "entity_exists s" "IsTerminal (state s)"
  shows "state s' = state s \<and> latched_reason s' = latched_reason s
    \<and> completion_candidate s' = completion_candidate s
    \<and> finalization_status s' = finalization_status s"
  using assms(1) by cases (use assms(2,3) in auto)

lemma latched_step:
  assumes "transition s t q s' es" "job_inv s" "latched_reason s = Some r"
  shows "latched_reason s' = Some r"
proof -
  have i: "inv_reason s" "inv_open s" using assms(2) by (simp_all add: job_inv_def)
  from assms(1) show ?thesis
    by cases (use assms(3) i in \<open>auto simp: inv_reason_def inv_open_def\<close>)
qed

lemma exit_confirmed_step:
  assumes "transition s t q s' es" "job_inv s" "process_exit_confirmed s"
  shows "process_exit_confirmed s'"
proof -
  have i: "inv_open s" using assms(2) by (simp add: job_inv_def)
  from assms(1) show ?thesis
    by cases (use assms(3) i in \<open>auto simp: inv_open_def\<close>)
qed

abbreviation launched :: "Snapshot \<Rightarrow> nat" where
  "launched s \<equiv> (if worker_launch_status s = LaunchStatus.kNotStarted then 0 else 1)"

abbreviation retention_begun :: "Snapshot \<Rightarrow> nat" where
  "retention_begun s \<equiv> (if session_retention_status s = RetentionStatus.kNotStarted then 0 else 1)"

abbreviation finished :: "Snapshot \<Rightarrow> nat" where
  "finished s \<equiv> (if IsTerminal (state s) then 1 else 0)"

lemma effect_count_step:
  assumes "transition s t q s' es" "ValidSnapshot s" "job_inv s"
  shows "launched s + count_list es EffectId.kLaunchWorkerOnce = launched s'"
    and "retention_begun s + count_list es EffectId.kRetainSessionSameIdentity = retention_begun s'"
    and "finished s + count_list es EffectId.kPublishTerminalResult = finished s'"
proof -
  have i: "inv_open s" using assms(3) by (simp add: job_inv_def)
  note v = valid_admitted[OF assms(2)]
  from assms(1) show "launched s + count_list es EffectId.kLaunchWorkerOnce = launched s'"
  proof cases
    case created
    then show ?thesis using i v by (simp add: inv_open_def InitialSnapshot_def)
  next
    case stop
    then show ?thesis by (elim stop_causeE) simp_all
  qed simp_all
  from assms(1) show "retention_begun s + count_list es EffectId.kRetainSessionSameIdentity = retention_begun s'"
  proof cases
    case created
    then show ?thesis using i v by (simp add: inv_open_def InitialSnapshot_def)
  next
    case stop
    then show ?thesis by (elim stop_causeE) simp_all
  qed simp_all
  from assms(1) show "finished s + count_list es EffectId.kPublishTerminalResult = finished s'"
  proof cases
    case created
    then show ?thesis using i v by (simp add: inv_open_def InitialSnapshot_def)
  next
    case stop
    then show ?thesis by (elim disjE conjE stop_causeE) simp_all
  next
    case stop_before_launch
    then show ?thesis by (elim disjE conjE) simp_all
  qed (auto; fail)+
qed

lemma live_launched:
  assumes "ValidSnapshot s" "job_inv s" "maybe_running s \<or> state s = JobState.kStopping
    \<or> (state s = JobState.kFinalizing \<or> IsTerminal (state s)) \<and> \<not> process_exit_confirmed s"
  shows "launch_operation_id s \<noteq> None \<and> worker_id s \<noteq> None"
proof -
  have "inv_process s" using assms(2) by (simp add: job_inv_def)
  then have "worker_launch_status s \<noteq> LaunchStatus.kNotStarted"
    using assms(3) by (elim disjE conjE) (auto simp: inv_process_def)
  then show ?thesis using assms(1) by (simp add: ValidSnapshot_def HasValidLaunchFacts_flat)
qed

lemma stop_target_step:
  assumes "transition s t q s' es" "ValidSnapshot s" "job_inv s"
    "EffectId.kRequestCooperativeStop \<in> set es \<or> EffectId.kRequestForcedStop \<in> set es"
  shows "launch_operation_id s' \<noteq> None \<and> worker_id s' \<noteq> None"
proof -
  note live = live_launched[OF assms(2,3)]
  from assms(1) show ?thesis
  proof cases
    case stop
    from live[OF disjI1, OF this(4)] this(1) show ?thesis by simp
  next
    case escalate_terminate
    then show ?thesis using live by auto
  qed (use assms(4) live in \<open>simp_all split: if_splits\<close>)
qed

lemma effect_bound_step:
  assumes "transition s t q s' es"
  shows "length es \<le> 4"
  using assms by cases (auto elim: stop_causeE)

section \<open>Every Job can finish\<close>

abbreviation proposal :: "Snapshot \<Rightarrow> EventType \<Rightarrow> EventPayload \<Rightarrow> PreEnvelopeProposal" where
  "proposal s t q \<equiv>
     \<lparr>pp_schema_version = 1, pp_job_id = job_id s, pp_event_type = t, pp_payload = q\<rparr>"

abbreviation can_reach :: "libs \<Rightarrow> nat \<Rightarrow> (Snapshot \<Rightarrow> bool) \<Rightarrow> Snapshot \<Rightarrow> bool" where
  "can_reach L n P s \<equiv> \<exists>ps s' es. length ps \<le> n \<and> run L s ps = Some (s', es) \<and> P s'"

lemma can_reach_refl: "P s \<Longrightarrow> can_reach L n P s"
  by (intro exI[of _ "[]"]) simp

lemma can_reach_mono: "can_reach L m P s \<Longrightarrow> m \<le> n \<Longrightarrow> can_reach L n P s"
  using le_trans by blast

lemma can_reach_step:
  assumes "transition s t q s1 es1" "ValidSnapshot s" "ValidInternalPayload L t q (job_id s)"
    "can_reach L n P s1"
  shows "can_reach L (Suc n) P s"
proof -
  from assms(4) obtain ps s' es where r: "length ps \<le> n" "run L s1 ps = Some (s', es)" "P s'" by blast
  have "run L s (proposal s t q # ps) = Some (s', es1 @ es)"
    using assms(1-3) r(2) by (auto simp: run_Cons well_formed_def)
  then show ?thesis using r(1,3) by (metis Suc_le_mono length_Cons)
qed

lemma can_reach_trans:
  assumes "can_reach L m Q s" "ValidSnapshot s" "job_inv s"
    "\<And>s'. Q s' \<Longrightarrow> ValidSnapshot s' \<Longrightarrow> job_inv s' \<Longrightarrow> can_reach L n P s'"
  shows "can_reach L (m + n) P s"
proof -
  from assms(1) obtain ps s1 es1 where r: "length ps \<le> m" "run L s ps = Some (s1, es1)" "Q s1" by blast
  from run_valid[OF r(2) assms(2,3)] assms(4)[OF r(3)] obtain qs s' es
    where "length qs \<le> n" "run L s1 qs = Some (s', es)" "P s'" by blast
  with r show ?thesis by (intro exI[of _ "ps @ qs"]) (auto simp: run_append)
qed

abbreviation decided :: "Snapshot \<Rightarrow> bool" where
  "decided s \<equiv> entity_exists s \<and> state s = JobState.kFinalizing
     \<and> (finalization_status s = FinalizationStatus.kCompleted
        \<or> finalization_status s = FinalizationStatus.kFailed)"

lemma decided_finishes:
  assumes "decided s" "ValidSnapshot s" "job_inv s"
  shows "can_reach L 1 (\<lambda>s'. IsTerminal (state s')) s"
proof -
  let ?r = "case latched_reason s of None \<Rightarrow> TerminalOutcome.kSucceeded | Some r \<Rightarrow> r"
  have "inv_reason s" "inv_finalization s" using assms(3) by (simp_all add: job_inv_def)
  then have "transition s EventType.kTerminalOutcomeCommitted (TerminalOutcomePayload ?r)
      (s\<lparr>state := JobStateForOutcome ?r\<rparr>)
      [EffectId.kDisarmExecutionTimeout, EffectId.kAckTerminalWorkerEventIfPending,
       EffectId.kPublishTerminalResult, EffectId.kArmProcessExitConfirmationTimeoutIfNeeded]"
    using assms(1) by (intro transition.terminal)
      (auto simp: inv_reason_def inv_finalization_def split: option.splits)
  moreover have "ValidInternalPayload L EventType.kTerminalOutcomeCommitted (TerminalOutcomePayload ?r) (job_id s)"
    using latched_cases[OF assms(2)] by (auto simp: ValidInternalPayload_def enum_defs)
  ultimately have "can_reach L (Suc 0) (\<lambda>s'. IsTerminal (state s')) s"
    using can_reach_step[OF _ assms(2)] can_reach_refl[of "\<lambda>s'. IsTerminal (state s')"] by simp
  then show ?thesis by simp
qed

lemma finalizing_decides:
  assumes "entity_exists s" "state s = JobState.kFinalizing" "ValidSnapshot s" "job_inv s"
  shows "can_reach L 1 decided s"
proof (cases "finalization_status s = FinalizationStatus.kPending")
  case True
  have i: "inv_reason s" using assms(4) by (simp add: job_inv_def)
  have "\<exists>s1. transition s EventType.kFinalizationFailed EmptyPayload s1 [] \<and> decided s1"
  proof (cases "latched_reason s")
    case None
    then have "success_candidate s" using i assms(2) by (simp add: inv_reason_def)
    from transition.finalization_failed_candidate[OF assms(1,2) True this] assms(1,2)
    show ?thesis by fastforce
  next
    case (Some r)
    from transition.finalization_failed[OF assms(1,2) True this] assms(1,2)
    show ?thesis by fastforce
  qed
  then obtain s1 where s1: "transition s EventType.kFinalizationFailed EmptyPayload s1 []" "decided s1" by blast
  have "ValidInternalPayload L EventType.kFinalizationFailed EmptyPayload (job_id s)"
    by (simp add: ValidInternalPayload_def enum_defs)
  from can_reach_step[where n=0 and P=decided, OF s1(1) assms(3) this can_reach_refl[of decided, OF s1(2)]]
  show ?thesis by simp
next
  case False
  have "decided s" using False assms(1-3)
    by (cases "finalization_status s") (auto simp: snapshot_defs)
  then show ?thesis using can_reach_refl[of decided] by blast
qed

lemma sample_principal: "IsPrincipal ''operator''"
  by code_simp

lemma stopping_finalizes:
  assumes "entity_exists s" "state s = JobState.kStopping" "ValidSnapshot s" "job_inv s"
  shows "can_reach L 1 (\<lambda>s'. entity_exists s' \<and> state s' = JobState.kFinalizing) s"
proof -
  obtain l where l: "launch_operation_id s = Some l"
    using live_launched[OF assms(3,4)] assms(2) by auto
  let ?q = "ProcessExitConfirmedPayload CompletionMode.kForced l"
  have "IsStable (stable_value l)" using assms(3) l by (simp add: snapshot_defs)
  then have "ValidInternalPayload L EventType.kProcessExitConfirmed ?q (job_id s)"
    by (simp add: ValidInternalPayload_def enum_defs)
  from can_reach_step[OF exit_stopping[OF assms(1,2) l] assms(3) this can_reach_refl[where n=0]] assms(1)
  show ?thesis by simp
qed

lemma active_stops:
  assumes "entity_exists s" "active s" "ValidSnapshot s" "job_inv s"
  shows "can_reach L 1 (\<lambda>s'. entity_exists s'
    \<and> (state s' = JobState.kStopping \<or> state s' = JobState.kFinalizing)) s"
proof (cases "state s = JobState.kStopping")
  case True
  then show ?thesis using assms(1) by (intro exI[of _ "[]"]) simp
next
  case False
  let ?P = "\<lambda>s'. entity_exists s' \<and> (state s' = JobState.kStopping \<or> state s' = JobState.kFinalizing)"
  have q: "ValidInternalPayload L EventType.kCancelAccepted (PrincipalPayload ''operator'') (job_id s)"
    using sample_principal by (simp add: ValidInternalPayload_def enum_defs)
  have "before_launch s \<or> maybe_running s" using False assms(2) by blast
  then obtain s1 es1 where "transition s EventType.kCancelAccepted (PrincipalPayload ''operator'') s1 es1" "?P s1"
    using stop_before_launch[OF assms(1) _ stop_cause.cancel] stop[OF assms(1) _ stop_cause.cancel] assms(1)
    by fastforce
  from can_reach_step[where P="?P" and n=0, OF this(1) assms(3) q can_reach_refl[of ?P, OF this(2)]]
  show ?thesis by simp
qed

lemma can_finish:
  assumes "entity_exists s" "ValidSnapshot s" "job_inv s"
  shows "can_reach L 4 (\<lambda>s'. IsTerminal (state s')) s"
proof -
  let ?T = "\<lambda>s'. IsTerminal (state s')"
  have f: "can_reach L 2 ?T s" if "entity_exists s" "state s = JobState.kFinalizing" "ValidSnapshot s" "job_inv s" for s
    using can_reach_trans[OF finalizing_decides[OF that] that(3,4) decided_finishes] by (simp add: numeral_2_eq_2)
  have g: "can_reach L 3 ?T s" if "entity_exists s \<and> (state s = JobState.kStopping \<or> state s = JobState.kFinalizing)"
    "ValidSnapshot s" "job_inv s" for s
  proof (cases "state s = JobState.kStopping")
    case True
    from can_reach_trans[where n=2 and P="?T", OF stopping_finalizes[OF _ True that(2,3)] that(2,3)] f that
    show ?thesis by (simp add: numeral_3_eq_3 numeral_2_eq_2)
  next
    case False
    then show ?thesis using can_reach_mono[where n=3, OF f] that by simp
  qed
  have "state s \<noteq> JobState.kInvalid" using assms(2) by (simp add: snapshot_defs)
  then consider "active s" | "state s = JobState.kFinalizing" | "?T s" by (cases "state s") auto
  then show ?thesis
  proof cases
    case 1
    from can_reach_trans[where n=3 and P="?T", OF active_stops[OF assms(1) 1 assms(2,3)] assms(2,3)] g
    show ?thesis by simp
  next
    case 2
    show ?thesis using can_reach_mono[where n=4, OF f[OF assms(1) 2 assms(2,3)]] by simp
  next
    case 3
    then show ?thesis using can_reach_refl[of ?T] by blast
  qed
qed

section \<open>Facts about whole runs\<close>

lemma terminal_run:
  assumes "run L s ps = Some (s', es)" "ValidSnapshot s" "job_inv s" "IsTerminal (state s)"
  shows "state s' = state s \<and> latched_reason s' = latched_reason s
    \<and> finalization_status s' = finalization_status s"
proof -
  have "IsTerminal (state s) \<longrightarrow> state s' = state s \<and> latched_reason s' = latched_reason s
    \<and> finalization_status s' = finalization_status s"
    using assms(1-3)
  proof (induction rule: run_induct)
    case (step s p s1 es1 s' es)
    then show ?case using terminal_step[OF step(4) terminal_exists[OF step(2)]] by auto
  qed simp
  with assms(4) show ?thesis by blast
qed

lemma latched_run:
  assumes "run L s ps = Some (s', es)" "ValidSnapshot s" "job_inv s"
  shows "latched_reason s = Some r \<longrightarrow> latched_reason s' = Some r"
  using assms
proof (induction rule: run_induct)
  case (step s p s1 es1 s' es)
  then show ?case using latched_step[OF step(4,2)] by blast
qed simp

lemma effect_count_run:
  assumes "run L s ps = Some (s', es)" "ValidSnapshot s" "job_inv s"
  shows "launched s + count_list es EffectId.kLaunchWorkerOnce = launched s'
    \<and> retention_begun s + count_list es EffectId.kRetainSessionSameIdentity = retention_begun s'
    \<and> finished s + count_list es EffectId.kPublishTerminalResult = finished s'"
  using assms
proof (induction rule: run_induct)
  case (step s p s1 es1 s' es)
  then show ?case using effect_count_step[OF step(4,1,2)] by (simp add: add.assoc[symmetric])
qed simp

section \<open>Properties of every run\<close>

text \<open>
  C8. Every snapshot reached from the initial snapshot of a Job by accepted proposals, in any
  order, satisfies \<open>ValidSnapshot\<close>: no sequence of events leads the reducer to a snapshot it would
  itself reject.
\<close>

theorem reachable_snapshots_valid:
  "IsUuid (uuid_value j) CHR ''7'' \<Longrightarrow> run L (initial j) ps = Some (s, es) \<Longrightarrow> ValidSnapshot s"
  using initial_run_valid by blast

text \<open>
  C9. A terminal outcome is final: after a reachable snapshot is terminal, no further accepted
  proposal changes its state, its latched reason or its finalization status.
\<close>

theorem terminal_outcome_is_final:
  assumes "IsUuid (uuid_value j) CHR ''7''" "run L (initial j) ps = Some (s, es)"
    "IsTerminal (state s)" "run L s qs = Some (s', es')"
  shows "state s' = state s \<and> latched_reason s' = latched_reason s
    \<and> finalization_status s' = finalization_status s"
  using terminal_run[OF assms(4) _ _ assms(3)] initial_run_valid[OF assms(2,1)] by blast


text \<open>
  C16. Effects with an outside consequence are requested at most once in the life of a Job: the
  worker is launched once exactly when a launch was recorded, the session is retained once exactly
  when retention was begun, and the result is published once exactly when the Job is terminal.
\<close>

theorem effects_requested_once:
  assumes "IsUuid (uuid_value j) CHR ''7''" "run L (initial j) ps = Some (s, es)"
  shows "count_list es EffectId.kLaunchWorkerOnce
      = (if worker_launch_status s = LaunchStatus.kNotStarted then 0 else 1)
    \<and> count_list es EffectId.kRetainSessionSameIdentity
      = (if session_retention_status s = RetentionStatus.kNotStarted then 0 else 1)
    \<and> count_list es EffectId.kPublishTerminalResult = (if IsTerminal (state s) then 1 else 0)"
  using effect_count_run[OF assms(2) initial_valid[OF assms(1)] job_inv_initial]
  by (simp add: InitialSnapshot_def)

text \<open>
  C17. The first stop cause wins: once a reason is latched in a reachable snapshot, no later command,
  timeout, worker report or process exit replaces it.
\<close>

theorem first_stop_cause_wins:
  assumes "IsUuid (uuid_value j) CHR ''7''" "run L (initial j) ps = Some (s, es)"
    "latched_reason s = Some r" "run L s qs = Some (s', es')"
  shows "latched_reason s' = Some r"
  using latched_run[OF assms(4)] initial_run_valid[OF assms(2,1)] assms(3) by blast

text \<open>
  C18. Resources are released only when nothing can still use them: in a reachable snapshot with
  released resources the Job is terminal, the process exit is confirmed, no process is present and
  no worker acknowledgement is pending.
\<close>

theorem released_only_after_exit:
  assumes "IsUuid (uuid_value j) CHR ''7''" "run L (initial j) ps = Some (s, es)"
    "resource_status s = ResourceStatus.kReleased"
  shows "IsTerminal (state s) \<and> process_exit_confirmed s
    \<and> process_presence s = ProcessPresence.kAbsent \<and> \<not> pending_worker_event_ack s"
proof -
  have "ValidSnapshot s" "inv_resources s"
    using initial_run_valid[OF assms(2,1)] by (simp_all add: job_inv_def)
  then show ?thesis using assms(3) by (simp add: snapshot_defs inv_resources_def)
qed

text \<open>
  C19. A stop request always has a target: when an accepted proposal of a reachable snapshot
  requests a cooperative or forced stop, the new snapshot names the launch operation and the worker
  that the writer needs to build the request.
\<close>

theorem stop_requests_have_targets:
  assumes "IsUuid (uuid_value j) CHR ''7''" "run L (initial j) ps = Some (s, es)"
    "ar_rejection (Apply L s p) = None"
    "EffectId.kRequestCooperativeStop \<in> set (ar_effects (Apply L s p))
     \<or> EffectId.kRequestForcedStop \<in> set (ar_effects (Apply L s p))"
  shows "launch_operation_id (ar_snapshot (Apply L s p)) \<noteq> None
    \<and> worker_id (ar_snapshot (Apply L s p)) \<noteq> None"
  using stop_target_step accepted_iff_transition initial_run_valid[OF assms(2,1)] assms(3,4) by blast

text \<open>
  \<open>Apply\<close> requests at most four effects, the capacity \<^verbatim>\<open>k_max_prepared_effects\<close> the writer
  reserves for them.
\<close>

theorem effects_bounded: "length (ar_effects (Apply L s p)) \<le> 4"
proof (cases "ar_rejection (Apply L s p) = None")
  case True
  then have "transition s (pp_event_type p) (pp_payload p) (ar_snapshot (Apply L s p))
      (ar_effects (Apply L s p))"
    using accepted_iff_transition by blast
  then show ?thesis by (rule effect_bound_step)
next
  case False
  then show ?thesis using rejected_result by simp
qed

text \<open>
  C20. No Job is stuck: from every reachable snapshot of an existing Job at most four further
  proposals, all accepted, lead to a terminal state.
\<close>

theorem every_job_can_finish:
  assumes "IsUuid (uuid_value j) CHR ''7''" "run L (initial j) ps = Some (s, es)" "entity_exists s"
  shows "\<exists>qs s' es'. length qs \<le> 4 \<and> run L s qs = Some (s', es') \<and> IsTerminal (state s')"
  using can_finish[OF assms(3)] initial_run_valid[OF assms(2,1)] by blast

section \<open>A concrete run\<close>

abbreviation sample :: "EventType \<Rightarrow> EventPayload \<Rightarrow> PreEnvelopeProposal" where
  "sample t q \<equiv>
     \<lparr>pp_schema_version = 1, pp_job_id = sample_job, pp_event_type = t, pp_payload = q\<rparr>"

definition sample_digest :: Digest where
  "sample_digest = Digest (replicate 64 CHR ''a'')"

definition sample_worker :: Uuid where
  "sample_worker = Uuid ''6ba7b810-9dad-4000-8000-00c04fd430c8''"

definition sample_launch :: "PreEnvelopeProposal list" where
  "sample_launch =
     [sample EventType.kJobCreated (JobCreatedPayload sample_job),
      sample EventType.kResourcesCommitted (ResourcesCommittedPayload (StableId ''alloc-1'')
        sample_digest (StableId ''schema-1'') 1 ''{}''),
      sample EventType.kWorkerLaunchIntent (WorkerLaunchIntentPayload (StableId ''op-1'')
        (StableId ''app-1'') ''1.0'' sample_digest (StableId ''alloc-1'') sample_digest sample_worker),
      sample EventType.kWorkerLaunchObserved (WorkerLaunchObservedPayload (StableId ''op-1'') True),
      sample EventType.kWorkerRunning (WorkerRunningPayload sample_worker)]"

definition sample_finish :: "PreEnvelopeProposal list" where
  "sample_finish =
     [sample EventType.kWorkerCompleted (WorkerEventPayload sample_worker 1),
      sample EventType.kProcessExitConfirmed
        (ProcessExitConfirmedPayload CompletionMode.kCooperative (StableId ''op-1'')),
      sample EventType.kSessionRetainRequested (SessionPayload sample_job),
      sample EventType.kSessionRetained (SessionPayload sample_job),
      sample EventType.kFinalizationCompleted EmptyPayload,
      sample EventType.kTerminalOutcomeCommitted (TerminalOutcomePayload TerminalOutcome.kSucceeded)]"

definition sample_cancel :: PreEnvelopeProposal where
  "sample_cancel = sample EventType.kCancelAccepted (PrincipalPayload ''operator'')"

lemma sample_job_uuid: "IsUuid (uuid_value sample_job) CHR ''7''"
  by code_simp

lemma sample_lexical:
  "IsStable ''alloc-1''" "IsStable ''schema-1''" "IsStable ''op-1''" "IsStable ''app-1''"
  "IsDigest (digest_value sample_digest)" "IsUuid (uuid_value sample_worker) CHR ''4''"
  "IsUtf8ScalarString ''1.0'' 128"
  by code_simp+

lemma sample_payloads:
  "ValidInternalPayload sample_libs EventType.kJobCreated (JobCreatedPayload sample_job) sample_job"
  "ValidInternalPayload sample_libs EventType.kResourcesCommitted
     (ResourcesCommittedPayload (StableId ''alloc-1'') sample_digest (StableId ''schema-1'') 1 ''{}'')
     sample_job"
  "ValidInternalPayload sample_libs EventType.kWorkerLaunchIntent
     (WorkerLaunchIntentPayload (StableId ''op-1'') (StableId ''app-1'') ''1.0'' sample_digest
       (StableId ''alloc-1'') sample_digest sample_worker) sample_job"
  "ValidInternalPayload sample_libs EventType.kWorkerLaunchObserved
     (WorkerLaunchObservedPayload (StableId ''op-1'') True) sample_job"
  "ValidInternalPayload sample_libs EventType.kWorkerRunning (WorkerRunningPayload sample_worker) sample_job"
  "ValidInternalPayload sample_libs EventType.kWorkerCompleted (WorkerEventPayload sample_worker 1) sample_job"
  "ValidInternalPayload sample_libs EventType.kProcessExitConfirmed
     (ProcessExitConfirmedPayload CompletionMode.kCooperative (StableId ''op-1'')) sample_job"
  "ValidInternalPayload sample_libs EventType.kSessionRetainRequested (SessionPayload sample_job) sample_job"
  "ValidInternalPayload sample_libs EventType.kSessionRetained (SessionPayload sample_job) sample_job"
  "ValidInternalPayload sample_libs EventType.kFinalizationCompleted EmptyPayload sample_job"
  "ValidInternalPayload sample_libs EventType.kTerminalOutcomeCommitted
     (TerminalOutcomePayload TerminalOutcome.kSucceeded) sample_job"
  "ValidInternalPayload sample_libs EventType.kResourcesReleased
     (ResourcesReleasedPayload (StableId ''alloc-1'') sample_digest) sample_job"
  "ValidInternalPayload sample_libs EventType.kCancelAccepted (PrincipalPayload ''operator'') sample_job"
  using sample_lexical sample_job_uuid sample_principal
  by (simp_all add: ValidInternalPayload_def enum_defs ParseResolvedAllocationJson_def ParseJson_def
      Sha256_def sample_libs_def sample_digest_def)

lemma run_snoc:
  assumes "run sample_libs i ps = Some (s, es)" "transition s t q s1 es1"
    "ValidInternalPayload sample_libs t q sample_job" "job_id s = sample_job" "i = initial sample_job"
  shows "run sample_libs i (ps @ [sample t q]) = Some (s1, es @ es1)"
proof -
  have "ValidSnapshot s" using initial_run_valid[OF _ sample_job_uuid] assms(1,5) by blast
  then have "run sample_libs s [sample t q] = Some (s1, es1)"
    using assms(2-4) by (auto simp: run_Cons well_formed_def)
  then show ?thesis using assms(1) by (simp add: run_append)
qed

definition sample_running :: Snapshot where
  "sample_running = (initial sample_job)\<lparr>entity_exists := True, state := JobState.kRunning,
     resource_status := ResourceStatus.kCommitted, allocation_id := Some (StableId ''alloc-1''),
     allocation_digest := Some sample_digest, worker_launch_status := LaunchStatus.kObserved,
     launch_operation_id := Some (StableId ''op-1''), worker_id := Some sample_worker,
     process_presence := ProcessPresence.kPresent\<rparr>"

definition sample_done :: Snapshot where
  "sample_done = sample_running\<lparr>state := JobState.kSucceeded, completion_candidate := True,
     completion_mode := CompletionMode.kCooperative, process_presence := ProcessPresence.kAbsent,
     process_exit_confirmed := True, session_retention_status := RetentionStatus.kRetained,
     finalization_status := FinalizationStatus.kCompleted\<rparr>"

lemmas sample_snapshot_defs = InitialSnapshot_def sample_running_def sample_done_def

lemma sample_running_run:
  "run sample_libs (initial sample_job) sample_launch = Some (sample_running,
     [EffectId.kArmPreparationTimeout, EffectId.kLaunchWorkerOnce,
      EffectId.kDisarmPreparationTimeout, EffectId.kArmExecutionTimeout])"
proof -
  define i where "i = initial sample_job"
  have "run sample_libs i [] = Some (initial sample_job, [])" by (simp add: i_def)
  note r = this[unfolded InitialSnapshot_def]
  note r = run_snoc[OF r created sample_payloads(1) _ i_def, simplified, unfolded InitialSnapshot_def, simplified]
  note r = run_snoc[OF r resources_committed sample_payloads(2) _ i_def, simplified]
  note r = run_snoc[OF r launch_intent sample_payloads(3) _ i_def, simplified]
  note r = run_snoc[OF r launch_started sample_payloads(4) _ i_def, simplified]
  note r = run_snoc[OF r running sample_payloads(5) _ i_def, simplified]
  from r show ?thesis unfolding i_def by (simp add: sample_launch_def sample_snapshot_defs)
qed

lemma sample_done_run:
  "run sample_libs (initial sample_job) (sample_launch @ sample_finish) = Some (sample_done,
     [EffectId.kArmPreparationTimeout, EffectId.kLaunchWorkerOnce,
      EffectId.kDisarmPreparationTimeout, EffectId.kArmExecutionTimeout,
      EffectId.kDisarmCooperativeStopTimeout, EffectId.kDisarmProcessExitConfirmationTimeout,
      EffectId.kRetainSessionSameIdentity,
      EffectId.kDisarmExecutionTimeout, EffectId.kAckTerminalWorkerEventIfPending,
      EffectId.kPublishTerminalResult, EffectId.kArmProcessExitConfirmationTimeoutIfNeeded])"
proof -
  define i where "i = initial sample_job"
  note r = sample_running_run[folded i_def, unfolded sample_running_def InitialSnapshot_def, simplified]
  note r = run_snoc[OF r completed sample_payloads(6) _ i_def, simplified]
  note r = run_snoc[OF r exit_first sample_payloads(7) _ i_def, simplified]
  note r = run_snoc[OF r retain_requested sample_payloads(8) _ i_def, simplified]
  note r = run_snoc[OF r retained sample_payloads(9) _ i_def, simplified]
  note r = run_snoc[OF r finalization_completed sample_payloads(10) _ i_def, simplified]
  note r = run_snoc[OF r terminal sample_payloads(11) _ i_def, simplified]
  from r show ?thesis unfolding i_def by (simp add: sample_finish_def sample_snapshot_defs)
qed

definition sample_release :: PreEnvelopeProposal where
  "sample_release = sample EventType.kResourcesReleased
     (ResourcesReleasedPayload (StableId ''alloc-1'') sample_digest)"

definition sample_stopping :: Snapshot where
  "sample_stopping = sample_running\<lparr>latched_reason := Some TerminalOutcome.kCancelled,
     completion_mode := CompletionMode.kCooperative, state := JobState.kStopping\<rparr>"

lemma sample_released_run:
  "run sample_libs (initial sample_job) (sample_launch @ sample_finish @ [sample_release])
   = Some (sample_done\<lparr>resource_status := ResourceStatus.kReleased\<rparr>,
      snd (the (run sample_libs (initial sample_job) (sample_launch @ sample_finish))))"
  "run sample_libs sample_done [sample_release]
   = Some (sample_done\<lparr>resource_status := ResourceStatus.kReleased\<rparr>, [])"
proof -
  have t: "transition sample_done EventType.kResourcesReleased
      (ResourcesReleasedPayload (StableId ''alloc-1'') sample_digest)
      (sample_done\<lparr>resource_status := ResourceStatus.kReleased\<rparr>) []"
    by (rule released) (simp_all add: sample_snapshot_defs)
  have j: "job_id sample_done = sample_job" by (simp add: sample_snapshot_defs)
  show "run sample_libs (initial sample_job) (sample_launch @ sample_finish @ [sample_release])
   = Some (sample_done\<lparr>resource_status := ResourceStatus.kReleased\<rparr>,
      snd (the (run sample_libs (initial sample_job) (sample_launch @ sample_finish))))"
    using run_snoc[OF sample_done_run t sample_payloads(12) j refl] sample_done_run
    by (simp add: sample_release_def)
  have "ValidSnapshot sample_done" using initial_run_valid[OF sample_done_run sample_job_uuid] by blast
  then show "run sample_libs sample_done [sample_release]
   = Some (sample_done\<lparr>resource_status := ResourceStatus.kReleased\<rparr>, [])"
    using t j sample_payloads(12) by (auto simp: run_Cons well_formed_def sample_release_def)
qed

lemma sample_stopping_run:
  "run sample_libs (initial sample_job) (sample_launch @ [sample_cancel])
   = Some (sample_stopping, [EffectId.kArmPreparationTimeout, EffectId.kLaunchWorkerOnce,
      EffectId.kDisarmPreparationTimeout, EffectId.kArmExecutionTimeout,
      EffectId.kRequestCooperativeStop, EffectId.kArmCooperativeStopTimeout])"
  "ar_rejection (Apply sample_libs sample_running sample_cancel) = None
   \<and> ar_snapshot (Apply sample_libs sample_running sample_cancel) = sample_stopping
   \<and> ar_effects (Apply sample_libs sample_running sample_cancel) = cooperative_stop"
proof -
  have t: "transition sample_running EventType.kCancelAccepted (PrincipalPayload ''operator'')
      sample_stopping cooperative_stop"
    using stop[OF _ _ stop_cause.cancel, of sample_running "''operator''"]
    by (simp add: sample_snapshot_defs sample_stopping_def)
  have j: "job_id sample_running = sample_job" by (simp add: sample_snapshot_defs)
  show "run sample_libs (initial sample_job) (sample_launch @ [sample_cancel])
   = Some (sample_stopping, [EffectId.kArmPreparationTimeout, EffectId.kLaunchWorkerOnce,
      EffectId.kDisarmPreparationTimeout, EffectId.kArmExecutionTimeout,
      EffectId.kRequestCooperativeStop, EffectId.kArmCooperativeStopTimeout])"
    using run_snoc[OF sample_running_run t sample_payloads(13) j refl] by (simp add: sample_cancel_def)
  have "well_formed sample_libs sample_running sample_cancel"
    using initial_run_valid[OF sample_running_run sample_job_uuid] j sample_payloads(13)
    by (simp add: well_formed_def sample_cancel_def)
  then show "ar_rejection (Apply sample_libs sample_running sample_cancel) = None
   \<and> ar_snapshot (Apply sample_libs sample_running sample_cancel) = sample_stopping
   \<and> ar_effects (Apply sample_libs sample_running sample_cancel) = cooperative_stop"
    using t unfolding accepted_iff_transition by (simp add: sample_cancel_def)
qed

theorem reachable_snapshots_valid_witness: "ValidSnapshot sample_done"
  using reachable_snapshots_valid[OF sample_job_uuid sample_done_run] by simp

theorem terminal_outcome_is_final_witness:
  "state (sample_done\<lparr>resource_status := ResourceStatus.kReleased\<rparr>) = JobState.kSucceeded"
proof -
  have "IsTerminal (state sample_done)" by (simp add: sample_snapshot_defs)
  from terminal_outcome_is_final[OF sample_job_uuid sample_done_run this sample_released_run(2)]
  show ?thesis by (simp add: sample_snapshot_defs)
qed


theorem effects_requested_once_witness:
  "count_list (snd (the (run sample_libs (initial sample_job) (sample_launch @ sample_finish))))
     EffectId.kPublishTerminalResult = 1"
  using effects_requested_once[OF sample_job_uuid sample_done_run] sample_done_run
  by (simp add: sample_snapshot_defs)

theorem first_stop_cause_wins_witness:
  "latched_reason sample_stopping = Some TerminalOutcome.kCancelled
   \<and> run sample_libs sample_stopping [] = Some (sample_stopping, [])"
proof -
  have "latched_reason sample_stopping = Some TerminalOutcome.kCancelled"
    by (simp add: sample_stopping_def)
  from first_stop_cause_wins[OF sample_job_uuid sample_stopping_run(1) this, of "[]"] this
  show ?thesis by simp
qed

theorem released_only_after_exit_witness:
  "process_exit_confirmed (sample_done\<lparr>resource_status := ResourceStatus.kReleased\<rparr>)"
  using released_only_after_exit[OF sample_job_uuid sample_released_run(1)] by simp

theorem stop_requests_have_targets_witness:
  "launch_operation_id sample_stopping \<noteq> None"
  using stop_requests_have_targets[OF sample_job_uuid sample_running_run, of sample_cancel]
  by (simp add: sample_stopping_run(2))

theorem every_job_can_finish_witness:
  "\<exists>qs s' es'. length qs \<le> 4 \<and> run sample_libs sample_running qs = Some (s', es') \<and> IsTerminal (state s')"
  using every_job_can_finish[OF sample_job_uuid sample_running_run] by (simp add: sample_snapshot_defs)

end
