(* ===== verification/Retirement.thy ===== *)
theory Retirement
  imports Job_Lifecycle
begin

text \<open>
  The retirement policy shared by the writer and the replay (\<^verbatim>\<open>IsUnresolved\<close>, \<^verbatim>\<open>IsClosed\<close>,
  \<^verbatim>\<open>OldestClosed\<close> of \<^verbatim>\<open>src/core/job_orchestrator.hpp\<close>) and the capacity arithmetic of its
  \<^verbatim>\<open>Config\<close>. The theorems show that a closed Job stays closed, that every Job can be closed, that
  the policy retires the oldest closed Job, and that the capacity is exact or reported as zero
  when it does not fit in a \<^verbatim>\<open>std::size_t\<close> (64 bits).
\<close>

section \<open>The policy\<close>

definition IsUnresolved :: "Snapshot \<Rightarrow> bool" where
  "IsUnresolved s \<longleftrightarrow> \<not> IsTerminalState (state s)
     \<or> resource_status s = ResourceStatus.kCommitted \<or> cleanup_status s = CleanupStatus.kPending"

definition IsClosed :: "Snapshot \<Rightarrow> bool" where
  "IsClosed s \<longleftrightarrow> \<not> IsUnresolved s \<and> (\<not> pending_worker_event_ack s \<or> process_exit_confirmed s)"

text \<open>
  \<^verbatim>\<open>snapshot_at\<close> returns a null pointer, here \<open>None\<close>, for an index without a Job. The fold runs
  over the indices in increasing order, as the loop does.
\<close>

definition OldestClosedStep ::
  "(nat \<Rightarrow> Snapshot option) \<Rightarrow> (nat \<Rightarrow> u64) \<Rightarrow> nat \<Rightarrow> nat option \<Rightarrow> nat option" where
  "OldestClosedStep snapshot_at sequence_at index oldest =
     (case snapshot_at index of
        None \<Rightarrow> oldest
      | Some s \<Rightarrow>
          (if IsClosed s \<and> (case oldest of None \<Rightarrow> True | Some o' \<Rightarrow> sequence_at index < sequence_at o')
           then Some index else oldest))"

definition OldestClosed ::
  "nat \<Rightarrow> (nat \<Rightarrow> Snapshot option) \<Rightarrow> (nat \<Rightarrow> u64) \<Rightarrow> nat option" where
  "OldestClosed count snapshot_at sequence_at =
     fold (OldestClosedStep snapshot_at sequence_at) [0..<count] None"

definition critical_reserve :: "u64 \<Rightarrow> u64" where
  "critical_reserve max_jobs =
     (if max_jobs > (UINT64_MAX - 1) div 9 - 1 then 0 else 9 * (max_jobs + 1) + 1)"

definition total_capacity :: "u64 \<Rightarrow> u64 \<Rightarrow> u64" where
  "total_capacity max_jobs normal_capacity =
     (let reserve = critical_reserve max_jobs
      in if reserve = 0 then 0
         else if reserve > UINT64_MAX - normal_capacity then 0 else normal_capacity + reserve)"

section \<open>Closed Jobs\<close>

lemma closed_step:
  assumes "transition s t q s' es" "IsClosed s" "job_inv s" "ValidInternalPayload L t q (job_id s)"
  shows "IsClosed s'"
proof -
  have t: "IsTerminal (state s)" using assms(2) by (simp add: IsClosed_def IsUnresolved_def IsTerminalState_def)
  have e: "entity_exists s" using terminal_exists[OF assms(3) t] .
  from assms(1) show ?thesis
  proof cases
    case cleanup_recorded
    then show ?thesis using assms(2,4)
      by (auto simp: IsClosed_def IsUnresolved_def dest: valid_payload_facts(6))
  qed (use assms(2) t e in \<open>(auto simp: IsClosed_def IsUnresolved_def; fail)[1]\<close>)+
qed

lemma closed_run:
  assumes "run L s ps = Some (s', es)" "ValidSnapshot s" "job_inv s"
  shows "IsClosed s \<longrightarrow> IsClosed s'"
  using assms
proof (induction rule: run_induct)
  case (step s p s1 es1 s' es)
  then show ?case using closed_step[OF step(4) _ step(2)] by (auto simp: well_formed_def)
qed simp

text \<open>
  C23. A closed Job stays closed: no accepted proposal reopens it, so retiring its snapshot loses no
  pending obligation.
\<close>

theorem closed_jobs_stay_closed:
  assumes "IsUuid (uuid_value j) CHR ''7''" "run L (initial j) ps = Some (s, es)"
    "IsClosed s" "run L s qs = Some (s', es')"
  shows "IsClosed s'"
  using closed_run[OF assms(4)] initial_run_valid[OF assms(2,1)] assms(3) by blast

section \<open>Every Job can be closed\<close>

lemma terminal_exits:
  assumes "IsTerminal (state s)" "ValidSnapshot s" "job_inv s"
  shows "can_reach L 1 (\<lambda>s'. IsTerminal (state s') \<and> process_exit_confirmed s') s"
proof (cases "process_exit_confirmed s")
  case True
  then show ?thesis using assms(1) by (intro exI[of _ "[]"]) simp
next
  case False
  let ?P = "\<lambda>s'. IsTerminal (state s') \<and> process_exit_confirmed s'"
  obtain l where l: "launch_operation_id s = Some l"
    using live_launched[OF assms(2,3)] assms(1) False by auto
  have "IsStable (stable_value l)" using assms(2) l by (simp add: snapshot_defs)
  then have q: "ValidInternalPayload L EventType.kProcessExitConfirmed
      (ProcessExitConfirmedPayload CompletionMode.kForced l) (job_id s)"
    by (simp add: ValidInternalPayload_def enum_defs)
  from can_reach_step[where n=0 and P="?P", OF exit_first[OF terminal_exists[OF assms(3,1)] _ l False]
      assms(2) q can_reach_refl[of ?P]] assms(1)
  show ?thesis by simp
qed

lemma exited_releases:
  assumes "IsTerminal (state s) \<and> process_exit_confirmed s" "ValidSnapshot s" "job_inv s"
  shows "can_reach L 1 (\<lambda>s'. IsTerminal (state s') \<and> process_exit_confirmed s'
    \<and> resource_status s' \<noteq> ResourceStatus.kCommitted) s"
proof (cases "resource_status s = ResourceStatus.kCommitted")
  case False
  then show ?thesis using assms(1) by (intro exI[of _ "[]"]) simp
next
  case True
  let ?P = "\<lambda>s'. IsTerminal (state s') \<and> process_exit_confirmed s'
    \<and> resource_status s' \<noteq> ResourceStatus.kCommitted"
  obtain a d where a: "allocation_id s = Some a" "allocation_digest s = Some d"
    using assms(2) True by (auto simp: ValidSnapshot_def HasValidResourceFacts_flat)
  have "IsStable (stable_value a)" "IsDigest (digest_value d)"
    using assms(2) a by (simp_all add: snapshot_defs)
  then have q: "ValidInternalPayload L EventType.kResourcesReleased (ResourcesReleasedPayload a d) (job_id s)"
    by (simp add: ValidInternalPayload_def enum_defs)
  from can_reach_step[where n=0 and P="?P", OF released[OF terminal_exists[OF assms(3)] _ _ a]
      assms(2) q can_reach_refl[of ?P]] assms(1)
  show ?thesis by simp
qed

lemma released_closes:
  assumes "IsTerminal (state s) \<and> process_exit_confirmed s \<and> resource_status s \<noteq> ResourceStatus.kCommitted"
    "ValidSnapshot s" "job_inv s"
  shows "can_reach L 1 IsClosed s"
proof (cases "cleanup_status s = CleanupStatus.kPending")
  case False
  then have "IsClosed s" using assms(1) by (simp add: IsClosed_def IsUnresolved_def IsTerminalState_def)
  then show ?thesis by (intro exI[of _ "[]"]) simp
next
  case True
  have q: "ValidInternalPayload L EventType.kCleanupStatusRecorded
      (CleanupStatusPayload CleanupStatus.kCompleted) (job_id s)"
    by (simp add: ValidInternalPayload_def enum_defs)
  from can_reach_step[where n=0 and P=IsClosed, OF cleanup_recorded[OF terminal_exists[OF assms(3)] _ disjI1]
      assms(2) q can_reach_refl[of IsClosed]] assms(1) True
  show ?thesis by (simp add: IsClosed_def IsUnresolved_def IsTerminalState_def)
qed

lemma can_close:
  assumes "entity_exists s" "ValidSnapshot s" "job_inv s"
  shows "can_reach L 7 IsClosed s"
proof -
  have 2: "can_reach L 2 IsClosed s" if "IsTerminal (state s) \<and> process_exit_confirmed s"
    "ValidSnapshot s" "job_inv s" for s
    using can_reach_trans[OF exited_releases[OF that] that(2,3) released_closes] by (simp add: numeral_2_eq_2)
  have 3: "can_reach L 3 IsClosed s" if "IsTerminal (state s)" "ValidSnapshot s" "job_inv s" for s
    using can_reach_trans[OF terminal_exits[OF that] that(2,3) 2] by (simp add: numeral_3_eq_3)
  show ?thesis using can_reach_trans[OF can_finish[OF assms] assms(2,3) 3] by simp
qed

text \<open>
  C24. Every Job can be closed: from every reachable snapshot of an existing Job at most seven
  further proposals, all accepted, lead to a snapshot the policy may retire.
\<close>

theorem every_job_can_close:
  assumes "IsUuid (uuid_value j) CHR ''7''" "run L (initial j) ps = Some (s, es)" "entity_exists s"
  shows "\<exists>qs s' es'. length qs \<le> 7 \<and> run L s qs = Some (s', es') \<and> IsClosed s'"
  using can_close[OF assms(3)] initial_run_valid[OF assms(2,1)] by blast

section \<open>The oldest closed Job\<close>

abbreviation closed_at :: "(nat \<Rightarrow> Snapshot option) \<Rightarrow> nat \<Rightarrow> bool" where
  "closed_at snapshot_at k \<equiv> (case snapshot_at k of None \<Rightarrow> False | Some s \<Rightarrow> IsClosed s)"

lemma OldestClosed_Suc:
  "OldestClosed (Suc n) sa sq = OldestClosedStep sa sq n (OldestClosed n sa sq)"
  by (simp add: OldestClosed_def)

lemma OldestClosed_spec:
  "case OldestClosed n sa sq of
     None \<Rightarrow> \<forall>k<n. \<not> closed_at sa k
   | Some i \<Rightarrow> i < n \<and> closed_at sa i \<and> (\<forall>k<n. closed_at sa k \<longrightarrow> sq i \<le> sq k)
       \<and> (\<forall>k<i. closed_at sa k \<longrightarrow> sq i < sq k)"
proof (induction n)
  case 0
  then show ?case by (simp add: OldestClosed_def)
next
  case (Suc n)
  then show ?case
    by (auto simp: OldestClosed_Suc OldestClosedStep_def less_Suc_eq split: option.splits if_splits
        intro: order.strict_implies_order order.strict_trans2)
qed

text \<open>
  C25. The policy retires the oldest closed Job: it answers nothing exactly when no index holds a
  closed Job, and otherwise the first index whose closed Job has the least creation sequence.
\<close>

theorem OldestClosed_is_oldest:
  "OldestClosed n snapshot_at sequence_at = Some i \<longleftrightarrow>
     i < n \<and> closed_at snapshot_at i
     \<and> (\<forall>k<n. closed_at snapshot_at k \<longrightarrow> sequence_at i \<le> sequence_at k)
     \<and> (\<forall>k<i. closed_at snapshot_at k \<longrightarrow> sequence_at i < sequence_at k)"
  using OldestClosed_spec[of n snapshot_at sequence_at]
  apply (auto split: option.splits)
  by (metis leD linorder_neqE_nat)

section \<open>Capacity\<close>

lemma nine_fits:
  fixes m :: u64
  shows "m \<le> (UINT64_MAX - 1) div 9 - 1 \<longleftrightarrow> 9 * (unat m + 1) + 1 < 2 ^ 64"
proof -
  have "unat ((UINT64_MAX - 1) div 9 - 1 :: u64) = 2049638230412172400" by simp
  then show ?thesis by (simp add: word_le_nat_alt) arith
qed

lemma unat_critical_reserve:
  "unat (critical_reserve m) = (if 9 * (unat m + 1) + 1 < 2 ^ 64 then 9 * (unat m + 1) + 1 else 0)"
proof (cases "9 * (unat m + 1) + 1 < 2 ^ 64")
  case True
  have "9 * (m + 1) + 1 = (of_nat (9 * (unat m + 1) + 1) :: u64)" by simp
  then have "unat (9 * (m + 1) + 1) = (9 * (unat m + 1) + 1) mod 2 ^ 64"
    by (simp only: unat_of_nat) simp
  then have "unat (9 * (m + 1) + 1) = 9 * (unat m + 1) + 1" using True by (simp only: mod_less)
  then show ?thesis using True nine_fits[of m] by (simp add: critical_reserve_def not_less[symmetric])
next
  case False
  then show ?thesis using nine_fits[of m] by (simp add: critical_reserve_def not_le)
qed

text \<open>
  The capacity arithmetic never wraps: the total capacity is the exact sum of the normal
  capacity and nine critical entries per Job, plus nine and one, and is zero exactly when that sum
  does not fit in 64 bits.
\<close>

theorem total_capacity_exact:
  "unat (total_capacity max_jobs normal_capacity) =
     (let exact = unat normal_capacity + 9 * (unat max_jobs + 1) + 1
      in if exact < 2 ^ 64 then exact else 0)"
proof -
  let ?r = "critical_reserve max_jobs"
  have big: "?r > UINT64_MAX - normal_capacity \<longleftrightarrow> \<not> unat normal_capacity + unat ?r < 2 ^ 64"
  proof -
    have "unat (UINT64_MAX - normal_capacity) = 2 ^ 64 - 1 - unat normal_capacity"
      by (subst unat_sub) (simp_all add: unsigned_minus_1_eq_mask mask_eq_exp_minus_1)
    then show ?thesis using unsigned_less[of normal_capacity, where 'a=nat]
      by (simp add: word_less_nat_alt) arith
  qed
  have zero: "?r = 0 \<longleftrightarrow> \<not> 9 * (unat max_jobs + 1) + 1 < 2 ^ 64"
    using unat_critical_reserve[of max_jobs] by (simp add: unat_eq_0[symmetric] del: unat_eq_0)
  have sum: "unat normal_capacity + unat ?r < 2 ^ 64 \<Longrightarrow>
      unat (normal_capacity + ?r) = unat normal_capacity + unat ?r"
    by (simp add: unat_word_ariths)
  show ?thesis
    unfolding total_capacity_def Let_def big zero
    using sum unat_critical_reserve[of max_jobs] by auto
qed

section \<open>Concrete inputs\<close>

definition sample_closed :: Snapshot where
  "sample_closed = sample_done\<lparr>resource_status := ResourceStatus.kReleased,
     cleanup_status := CleanupStatus.kCompleted\<rparr>"

definition sample_cleanup :: PreEnvelopeProposal where
  "sample_cleanup = sample EventType.kCleanupStatusRecorded
     (CleanupStatusPayload CleanupStatus.kCompleted)"

lemma sample_closed_closed: "IsClosed sample_closed"
  by (simp add: sample_closed_def sample_snapshot_defs IsClosed_def IsUnresolved_def IsTerminalState_def)

lemma sample_closed_run:
  "\<exists>es. run sample_libs (initial sample_job)
     ((sample_launch @ sample_finish @ [sample_release]) @ [sample_cleanup]) = Some (sample_closed, es)"
proof -
  let ?s = "sample_done\<lparr>resource_status := ResourceStatus.kReleased\<rparr>"
  have "transition ?s EventType.kCleanupStatusRecorded (CleanupStatusPayload CleanupStatus.kCompleted)
      (?s\<lparr>cleanup_status := CleanupStatus.kCompleted\<rparr>) []"
    by (rule cleanup_recorded) (simp_all add: sample_snapshot_defs)
  moreover have "ValidInternalPayload sample_libs EventType.kCleanupStatusRecorded
      (CleanupStatusPayload CleanupStatus.kCompleted) sample_job"
    by (simp add: ValidInternalPayload_def enum_defs)
  ultimately show ?thesis
    using run_snoc[OF sample_released_run(1)] unfolding sample_cleanup_def sample_closed_def
    by (fastforce simp: sample_snapshot_defs)
qed

theorem closed_jobs_stay_closed_witness:
  "IsClosed sample_closed \<and> run sample_libs sample_closed [] = Some (sample_closed, [])"
proof -
  obtain es where "run sample_libs (initial sample_job)
     ((sample_launch @ sample_finish @ [sample_release]) @ [sample_cleanup]) = Some (sample_closed, es)"
    using sample_closed_run by blast
  from closed_jobs_stay_closed[OF sample_job_uuid this sample_closed_closed, of "[]"]
  show ?thesis by simp
qed

theorem every_job_can_close_witness:
  "\<exists>qs s' es'. length qs \<le> 7 \<and> run sample_libs sample_running qs = Some (s', es') \<and> IsClosed s'"
  using every_job_can_close[OF sample_job_uuid sample_running_run] by (simp add: sample_snapshot_defs)

theorem OldestClosed_is_oldest_witness:
  "OldestClosed 3 (\<lambda>k. if k = 0 then None else Some sample_closed) (\<lambda>k. if k = 1 then 9 else 4) = Some 2"
proof -
  have "\<And>k :: nat. k < 3 \<Longrightarrow> k = 0 \<or> k = 1 \<or> k = 2" by arith
  then show ?thesis
    unfolding OldestClosed_is_oldest using sample_closed_closed by (auto simp: less_Suc_eq)
qed

end
