(* ===== verification/Timer_Ingress.thy ===== *)
theory Timer_Ingress
  imports Job_Contract
begin

text \<open>
  Timer notifications at the boundary of the reducer (\<^verbatim>\<open>IngestTimer\<close> of
  \<^verbatim>\<open>src/core/job_reducer.cpp\<close>): a notification becomes a timeout candidate only if it names the
  Job of the timers, its phase is armed and its generation is the active one. The theorems show
  that this condition is exact, that a stale notification is without effect, and that an emitted
  candidate carries a payload the reducer accepts as valid.
\<close>

section \<open>Ingestion\<close>

definition FailClosed :: TimerIngressResult where
  "FailClosed = \<lparr>tir_kind = TimerIngressKind.kFailClosed, tir_candidate = None,
     tir_effects = [EffectId.kSetReadinessFalse]\<rparr>"

definition Discard :: TimerIngressResult where
  "Discard = \<lparr>tir_kind = TimerIngressKind.kDiscardWithoutCandidate, tir_candidate = None,
     tir_effects = []\<rparr>"

fun phase_armed :: "TimerState \<Rightarrow> TimeoutPhase \<Rightarrow> bool" where
  "phase_armed t TimeoutPhase.kPreparation = preparation_armed t"
| "phase_armed t TimeoutPhase.kExecution = execution_armed t"
| "phase_armed t TimeoutPhase.kCooperativeStop = cooperative_stop_armed t"
| "phase_armed t _ = process_exit_confirmation_armed t"

fun phase_generation :: "TimerState \<Rightarrow> TimeoutPhase \<Rightarrow> u64" where
  "phase_generation t TimeoutPhase.kPreparation = preparation_generation t"
| "phase_generation t TimeoutPhase.kExecution = execution_generation t"
| "phase_generation t TimeoutPhase.kCooperativeStop = cooperative_stop_generation t"
| "phase_generation t _ = process_exit_confirmation_generation t"

definition IngestTimerNotification :: "TimerState \<Rightarrow> TimerNotification \<Rightarrow> TimerIngressResult" where
  "IngestTimerNotification timers notification =
     (if \<not> IsUuid (uuid_value (ts_job_id timers)) CHR ''7''
         \<or> \<not> IsUuid (uuid_value (tn_job_id notification)) CHR ''7''
         \<or> tn_job_id notification \<noteq> ts_job_id timers
      then FailClosed
      else if \<not> IsTimeoutPhase (tn_phase notification) then Discard
      else let armed = phase_armed timers (tn_phase notification);
               active = phase_generation timers (tn_phase notification)
           in if \<not> armed \<or> tn_generation notification \<noteq> active \<or> tn_generation notification = 0
              then Discard
              else \<lparr>tir_kind = TimerIngressKind.kEmitCandidateEvent,
                    tir_candidate = Some \<lparr>tc_job_id = tn_job_id notification,
                      tc_phase = tn_phase notification,
                      tc_timer_generation = tn_generation notification\<rparr>,
                    tir_effects = []\<rparr>)"

definition IngestTimer :: "TimerState \<Rightarrow> TimerIngressInput \<Rightarrow> TimerIngressResult" where
  "IngestTimer timers input =
     (if \<not> IsUuid (uuid_value (ts_job_id timers)) CHR ''7'' then FailClosed
      else if (case tii_arm_request input of
                 None \<Rightarrow> False
               | Some request \<Rightarrow>
                   (let phase = tar_phase request;
                        valid_phase = (phase = TimeoutPhase.kPreparation
                          \<or> phase = TimeoutPhase.kExecution \<or> phase = TimeoutPhase.kCooperativeStop
                          \<or> phase = TimeoutPhase.kProcessExitConfirmation);
                        active_generation =
                          (if phase = TimeoutPhase.kPreparation then preparation_generation timers
                           else if phase = TimeoutPhase.kExecution then execution_generation timers
                           else if phase = TimeoutPhase.kCooperativeStop
                           then cooperative_stop_generation timers
                           else if phase = TimeoutPhase.kProcessExitConfirmation
                           then process_exit_confirmation_generation timers
                           else 0)
                    in \<not> valid_phase \<or> \<not> IsUuid (uuid_value (tar_job_id request)) CHR ''7''
                       \<or> tar_job_id request \<noteq> ts_job_id timers \<or> tar_generation request = 0
                       \<or> tar_generation request = UINT64_MAX \<or> active_generation = UINT64_MAX))
      then FailClosed
      else case tii_notification input of
             Some notification \<Rightarrow> IngestTimerNotification timers notification
           | None \<Rightarrow> Discard)"

section \<open>Properties\<close>

abbreviation own_job :: "TimerState \<Rightarrow> Uuid \<Rightarrow> bool" where
  "own_job timers j \<equiv> IsUuid (uuid_value j) CHR ''7'' \<and> j = ts_job_id timers"

lemmas ingest_defs = IngestTimerNotification_def IngestTimer_def FailClosed_def Discard_def Let_def


definition bad_arm_request :: "TimerState \<Rightarrow> TimerArmRequest \<Rightarrow> bool" where
  "bad_arm_request timers r \<longleftrightarrow> tar_phase r = TimeoutPhase.kInvalid
     \<or> \<not> own_job timers (tar_job_id r) \<or> tar_generation r = 0 \<or> tar_generation r = UINT64_MAX
     \<or> phase_generation timers (tar_phase r) = UINT64_MAX"

text \<open>
  C22. Ingestion fails closed, with readiness withdrawn, exactly on malformed timers, on an arm
  request that is malformed, foreign, or at the end of a generation counter, and on a foreign or
  malformed notification. Arm requests are checked before any notification is looked at.
\<close>

theorem ingest_fails_closed_iff:
  "IngestTimer timers i = FailClosed \<longleftrightarrow>
     \<not> IsUuid (uuid_value (ts_job_id timers)) CHR ''7''
     \<or> (\<exists>r. tii_arm_request i = Some r \<and> bad_arm_request timers r)
     \<or> (\<exists>n. tii_notification i = Some n \<and> \<not> own_job timers (tn_job_id n))"
proof -
  have arm: "(case tii_arm_request i of None \<Rightarrow> False | Some r \<Rightarrow> bad_arm_request timers r)
    \<longleftrightarrow> (\<exists>r. tii_arm_request i = Some r \<and> bad_arm_request timers r)"
    by (simp split: option.split)
  have phases: "(\<not> (p = TimeoutPhase.kPreparation \<or> p = TimeoutPhase.kExecution
      \<or> p = TimeoutPhase.kCooperativeStop \<or> p = TimeoutPhase.kProcessExitConfirmation))
    \<longleftrightarrow> p = TimeoutPhase.kInvalid" for p by (cases p) simp_all
  have gen: "(if p = TimeoutPhase.kPreparation then preparation_generation timers
       else if p = TimeoutPhase.kExecution then execution_generation timers
       else if p = TimeoutPhase.kCooperativeStop then cooperative_stop_generation timers
       else if p = TimeoutPhase.kProcessExitConfirmation then process_exit_confirmation_generation timers
       else 0) = (if p = TimeoutPhase.kInvalid then 0 else phase_generation timers p)" for p
    by (cases p) simp_all
  show ?thesis
    unfolding IngestTimer_def Let_def phases gen
    by (auto simp: IngestTimerNotification_def FailClosed_def Discard_def Let_def bad_arm_request_def
        split: option.splits if_splits)
qed

text \<open>
  What timer ingestion emits, the reducer can read: the candidate names the Job of the timers
  and its phase and generation form a valid timeout payload.
\<close>

theorem timeout_candidates_are_valid:
  assumes "tir_candidate (IngestTimer timers i) = Some c"
  shows "tc_job_id c = ts_job_id timers \<and> IsUuid (uuid_value (tc_job_id c)) CHR ''7''
    \<and> ValidInternalPayload L EventType.kTimeoutExpired
        (TimeoutExpiredPayload (tc_phase c) (tc_timer_generation c)) j"
  using assms
  by (auto simp: ingest_defs enum_defs ValidInternalPayload_def split: option.splits if_splits)

definition sample_timers :: TimerState where
  "sample_timers = \<lparr>ts_job_id = sample_job, preparation_armed = False, execution_armed = True,
     cooperative_stop_armed = False, process_exit_confirmation_armed = False,
     preparation_generation = 1, execution_generation = 2, cooperative_stop_generation = 0,
     process_exit_confirmation_generation = 0\<rparr>"

theorem timeout_candidates_are_valid_witness:
  "tir_candidate (IngestTimer sample_timers \<lparr>tii_arm_request = None, tii_notification =
     Some \<lparr>tn_job_id = sample_job, tn_phase = TimeoutPhase.kExecution, tn_generation = 2\<rparr>\<rparr>)
   = Some \<lparr>tc_job_id = sample_job, tc_phase = TimeoutPhase.kExecution, tc_timer_generation = 2\<rparr>
   \<and> ValidInternalPayload sample_libs EventType.kTimeoutExpired
        (TimeoutExpiredPayload TimeoutPhase.kExecution 2) sample_job"
proof -
  have "IsUuid (uuid_value sample_job) CHR ''7''" by code_simp
  then have c: "tir_candidate (IngestTimer sample_timers \<lparr>tii_arm_request = None, tii_notification =
     Some \<lparr>tn_job_id = sample_job, tn_phase = TimeoutPhase.kExecution, tn_generation = 2\<rparr>\<rparr>)
   = Some \<lparr>tc_job_id = sample_job, tc_phase = TimeoutPhase.kExecution, tc_timer_generation = 2\<rparr>"
    by (simp add: ingest_defs enum_defs sample_timers_def)
  from timeout_candidates_are_valid[OF c, of sample_libs sample_job] c show ?thesis by simp
qed

theorem ingest_fails_closed_iff_witness:
  "IngestTimer sample_timers \<lparr>tii_arm_request = None, tii_notification =
     Some \<lparr>tn_job_id = Uuid ''other'', tn_phase = TimeoutPhase.kExecution, tn_generation = 2\<rparr>\<rparr>
   = FailClosed"
  unfolding ingest_fails_closed_iff by (simp add: sample_timers_def sample_job_def)

end
