(* ===== verification/Codec_Lexical.thy ===== *)
theory Codec_Lexical
  imports Reducer_Lexical
begin

text \<open>
  The lexical checks of the record codec, \<^verbatim>\<open>src/journal/record_codec.cpp\<close>. The codec has its own
  copies of the identifier and UTF-8 checks of the reducer; the theory shows that they agree with
  those of \<^verbatim>\<open>src/core/job_reducer.cpp\<close> on every byte string, and what the timestamp check
  accepts. The suffix \<open>_codec\<close> marks a function whose name the reducer also uses.
\<close>

section \<open>Characters and identifiers\<close>

definition IsLowerHex_codec :: "char \<Rightarrow> bool" where
  "IsLowerHex_codec c \<longleftrightarrow> (48 \<le> byte c \<and> byte c \<le> 57) \<or> (97 \<le> byte c \<and> byte c \<le> 102)"

definition IsDigit :: "char \<Rightarrow> bool" where
  "IsDigit c \<longleftrightarrow> 48 \<le> byte c \<and> byte c \<le> 57"

definition IsAlnum :: "char \<Rightarrow> bool" where
  "IsAlnum c \<longleftrightarrow> IsDigit c \<or> (97 \<le> byte c \<and> byte c \<le> 122) \<or> (65 \<le> byte c \<and> byte c \<le> 90)"

text \<open>The loop of \<^verbatim>\<open>IsUuid\<close>: each position has its own class.\<close>

definition IsUuid_codec :: "string \<Rightarrow> char \<Rightarrow> bool" where
  "IsUuid_codec s version =
     (if length s \<noteq> 36 then False
      else list_all (\<lambda>i.
             if i = 8 \<or> i = 13 \<or> i = 18 \<or> i = 23 then s ! i = CHR ''-''
             else if i = 14 then s ! i = version
             else if i = 19
             then s ! i = CHR ''8'' \<or> s ! i = CHR ''9'' \<or> s ! i = CHR ''a'' \<or> s ! i = CHR ''b''
             else IsLowerHex_codec (s ! i)) [0..<length s])"

definition IsSha256 :: "string \<Rightarrow> bool" where
  "IsSha256 s = (if length s \<noteq> 64 then False else list_all IsLowerHex_codec s)"

definition max_stable_id_chars :: nat where
  "max_stable_id_chars = 128"

definition IsStableId :: "string \<Rightarrow> bool" where
  "IsStableId s =
     (if s = [] \<or> length s > max_stable_id_chars then False
      else if \<not> IsAlnum (hd s) then False
      else list_all (\<lambda>c. IsAlnum c \<or> c = CHR ''.'' \<or> c = CHR ''_'' \<or> c = CHR '':'' \<or> c = CHR ''-'')
             (tl s))"

section \<open>UTF-8\<close>

text \<open>
  The \<^verbatim>\<open>if\<close> chain of \<^verbatim>\<open>Utf8CodePoints\<close>: length of the sequence and the bounds of its second byte.
\<close>

definition utf8_lead :: "nat \<Rightarrow> (nat \<times> nat \<times> nat) option" where
  "utf8_lead lead =
     (if lead \<le> 0x7F then Some (1, 0x80, 0xBF)
      else if 0xC2 \<le> lead \<and> lead \<le> 0xDF then Some (2, 0x80, 0xBF)
      else if lead = 0xE0 then Some (3, 0xA0, 0xBF)
      else if (0xE1 \<le> lead \<and> lead \<le> 0xEC) \<or> lead = 0xEE \<or> lead = 0xEF then Some (3, 0x80, 0xBF)
      else if lead = 0xED then Some (3, 0x80, 0x9F)
      else if lead = 0xF0 then Some (4, 0x90, 0xBF)
      else if 0xF1 \<le> lead \<and> lead \<le> 0xF3 then Some (4, 0x80, 0xBF)
      else if lead = 0xF4 then Some (4, 0x80, 0x8F)
      else None)"

lemma utf8_lead_pos: "utf8_lead lead = Some (n, lo, hi) \<Longrightarrow> 0 < n"
  by (auto simp: utf8_lead_def split: if_splits)

text \<open>The loop over the continuation bytes.\<close>

definition utf8_continues :: "string \<Rightarrow> nat \<Rightarrow> nat \<Rightarrow> nat \<Rightarrow> nat \<Rightarrow> bool" where
  "utf8_continues s i n lo2 hi2 =
     list_all (\<lambda>k. (if k = 1 then lo2 else 0x80) \<le> byte (s ! (i + k))
                 \<and> byte (s ! (i + k)) \<le> (if k = 1 then hi2 else 0xBF)) [1..<n]"

function utf8_points :: "string \<Rightarrow> nat \<Rightarrow> nat \<Rightarrow> nat option" where
  "utf8_points s i count =
     (if i < length s then
        (case utf8_lead (byte (s ! i)) of
           None \<Rightarrow> None
         | Some (n, lo2, hi2) \<Rightarrow>
             if i + n > length s then None
             else if utf8_continues s i n lo2 hi2 then utf8_points s (i + n) (count + 1)
             else None)
      else Some count)"
  by pat_completeness auto
termination
  by (relation "measure (\<lambda>(s, i, count). length s - i)") (auto dest: utf8_lead_pos)

declare utf8_points.simps [simp del]

definition Utf8CodePoints :: "string \<Rightarrow> nat option" where
  "Utf8CodePoints s = utf8_points s 0 0"

definition BoundedText :: "string \<Rightarrow> nat \<Rightarrow> bool" where
  "BoundedText s max_chars =
     (case Utf8CodePoints s of None \<Rightarrow> False | Some points \<Rightarrow> points \<ge> 1 \<and> points \<le> max_chars)"

section \<open>Timestamps\<close>

definition DigitValue :: "char \<Rightarrow> nat" where
  "DigitValue c = byte c - 48"

definition TwoDigits :: "string \<Rightarrow> nat \<Rightarrow> nat \<Rightarrow> nat \<Rightarrow> bool" where
  "TwoDigits s at range_min range_max =
     (if at + 2 > length s then False
      else let a = s ! at; b = s ! (at + 1)
           in if \<not> IsDigit a \<or> \<not> IsDigit b then False
              else let value = DigitValue a * 10 + DigitValue b
                   in range_min \<le> value \<and> value \<le> range_max)"

definition IsLeapYear :: "nat \<Rightarrow> bool" where
  "IsLeapYear year \<longleftrightarrow> (year mod 4 = 0 \<and> year mod 100 \<noteq> 0) \<or> year mod 400 = 0"

definition DaysInMonth :: "nat \<Rightarrow> bool \<Rightarrow> nat" where
  "DaysInMonth month leap =
     (if month = 2 \<and> leap then 29 else [31, 28, 31, 30, 31, 30, 31, 31, 30, 31, 30, 31] ! (month - 1))"

text \<open>The loop over the digits of the fraction.\<close>

function skip_digits :: "string \<Rightarrow> nat \<Rightarrow> nat" where
  "skip_digits s i = (if i < length s \<and> IsDigit (s ! i) then skip_digits s (i + 1) else i)"
  by pat_completeness auto
termination
  by (relation "measure (\<lambda>(s, i). length s - i)") auto

declare skip_digits.simps [simp del]

definition rfc3339_zone :: "string \<Rightarrow> nat \<Rightarrow> bool" where
  "rfc3339_zone s i =
     (if i \<ge> length s then False
      else if s ! i = CHR ''Z'' \<or> s ! i = CHR ''z'' then i + 1 = length s
      else if s ! i \<noteq> CHR ''+'' \<and> s ! i \<noteq> CHR ''-'' then False
      else i + 6 = length s \<and> TwoDigits s (i + 1) 0 23 \<and> s ! (i + 3) = CHR '':''
        \<and> TwoDigits s (i + 4) 0 59)"

definition rfc3339_year :: "string \<Rightarrow> nat" where
  "rfc3339_year s = fold (\<lambda>i year. year * 10 + DigitValue (s ! i)) [0..<4] 0"

definition IsRfc3339 :: "string \<Rightarrow> bool" where
  "IsRfc3339 s =
     (if length s < 20 then False
      else if \<not> list_all (\<lambda>i. IsDigit (s ! i)) [0..<4] then False
      else if rfc3339_year s = 0 then False
      else if s ! 4 \<noteq> CHR ''-'' \<or> \<not> TwoDigits s 5 1 12 \<or> s ! 7 \<noteq> CHR ''-'' \<or> \<not> TwoDigits s 8 1 31
              \<or> (s ! 10 \<noteq> CHR ''T'' \<and> s ! 10 \<noteq> CHR ''t'') \<or> \<not> TwoDigits s 11 0 23
              \<or> s ! 13 \<noteq> CHR '':'' \<or> \<not> TwoDigits s 14 0 59 \<or> s ! 16 \<noteq> CHR '':''
              \<or> \<not> TwoDigits s 17 0 59
      then False
      else let month = DigitValue (s ! 5) * 10 + DigitValue (s ! 6);
               day = DigitValue (s ! 8) * 10 + DigitValue (s ! 9)
           in if day > DaysInMonth month (IsLeapYear (rfc3339_year s)) then False
              else if 19 < length s \<and> s ! 19 = CHR ''.''
              then if skip_digits s 20 = 20 then False else rfc3339_zone s (skip_digits s 20)
              else rfc3339_zone s 19)"

section \<open>Agreement with the reducer\<close>

lemma IsLowerHex_codec_eq: "IsLowerHex_codec c = IsLowerHex c"
  by (simp add: IsLowerHex_codec_def IsLowerHex_def IsAsciiDigit_def)

lemma IsAlnum_eq: "IsAlnum c = IsAsciiAlphanumeric c"
  by (auto simp: IsAlnum_def IsDigit_def IsAsciiAlphanumeric_def IsAsciiDigit_def IsAsciiUpper_def
      IsAsciiLower_def)

lemma IsSha256_eq: "IsSha256 s = IsDigest s"
  by (simp add: IsSha256_def IsDigest_def IsLowerHex_codec_def list_all_iff)

lemma IsStableId_eq: "IsStableId s = IsStable s"
  by (cases s) (auto simp: IsStableId_def IsStable_def IsAlnum_eq max_stable_id_chars_def)

lemma IsUuid_codec_eq:
  assumes "IsLowerHex version"
  shows "IsUuid_codec s version = IsUuid s version"
proof (cases "length s = 36")
  case True
  have special: "IsLowerHex (CHR ''8'')" "IsLowerHex (CHR ''9'')" "IsLowerHex (CHR ''a'')" "IsLowerHex (CHR ''b'')"
    by (simp_all add: IsLowerHex_def IsAsciiDigit_def)
  define n where "n = length s"
  have n: "8 < n" "13 < n" "18 < n" "23 < n" "14 < n" "19 < n" using True by (simp_all add: n_def)
  let ?allowed = "\<lambda>i. if i = 8 \<or> i = 13 \<or> i = 18 \<or> i = 23 then s ! i = CHR ''-''
     else if i = 14 then s ! i = version
     else if i = 19
     then s ! i = CHR ''8'' \<or> s ! i = CHR ''9'' \<or> s ! i = CHR ''a'' \<or> s ! i = CHR ''b''
     else IsLowerHex (s ! i)"
  let ?hex = "\<lambda>i. i = 8 \<or> i = 13 \<or> i = 18 \<or> i = 23 \<or> IsLowerHex (s ! i)"
  have "(\<forall>i<n. ?allowed i) \<longleftrightarrow> s ! 8 = CHR ''-'' \<and> s ! 13 = CHR ''-'' \<and> s ! 18 = CHR ''-'' \<and> s ! 23 = CHR ''-''
      \<and> (\<forall>i<n. ?hex i) \<and> s ! 14 = version
      \<and> (s ! 19 = CHR ''8'' \<or> s ! 19 = CHR ''9'' \<or> s ! 19 = CHR ''a'' \<or> s ! 19 = CHR ''b'')"
    (is "?l \<longleftrightarrow> ?r")
  proof
    assume l: ?l
    have "?hex i" if "i < n" for i using l[rule_format, OF that] special assms by (auto split: if_splits)
    then show ?r using l[rule_format, OF n(1)] l[rule_format, OF n(2)] l[rule_format, OF n(3)]
        l[rule_format, OF n(4)] l[rule_format, OF n(5)] l[rule_format, OF n(6)] by simp
  next
    assume ?r
    then show ?l by auto
  qed
  moreover have "IsUuid_codec s version \<longleftrightarrow> (\<forall>i<n. ?allowed i)"
    using True by (simp add: IsUuid_codec_def n_def IsLowerHex_codec_eq list_all_iff Ball_def)
  moreover have "IsUuid s version \<longleftrightarrow> s ! 8 = CHR ''-'' \<and> s ! 13 = CHR ''-'' \<and> s ! 18 = CHR ''-'' \<and> s ! 23 = CHR ''-''
      \<and> (\<forall>i<n. ?hex i) \<and> s ! 14 = version
      \<and> (s ! 19 = CHR ''8'' \<or> s ! 19 = CHR ''9'' \<or> s ! 19 = CHR ''a'' \<or> s ! 19 = CHR ''b'')"
    using True by (auto simp: IsUuid_def n_def list_all_iff)
  ultimately show ?thesis by simp
qed (simp add: IsUuid_codec_def IsUuid_def)

lemma utf8_lead_eq:
  "utf8_lead b = map_option (\<lambda>q. (seq_length q, second_min q, second_max q)) (Utf8SequenceForLead b)"
  by (auto simp: utf8_lead_def Utf8SequenceForLead_def)

lemma seq_length_cases:
  "Utf8SequenceForLead b = Some q \<Longrightarrow> seq_length q = 1 \<or> seq_length q = 2 \<or> seq_length q = 3 \<or> seq_length q = 4"
  by (auto simp: Utf8SequenceForLead_def split: if_splits)

lemma continuation_eq:
  assumes "Utf8SequenceForLead b = Some q"
  shows "HasValidUtf8Continuation s i q \<longleftrightarrow> i + seq_length q \<le> length s
     \<and> utf8_continues s i (seq_length q) (second_min q) (second_max q)"
proof -
  have upt: "[Suc 0..<2] = [Suc 0]" "[Suc 0..<3] = [Suc 0, 2]" "[Suc 0..<4] = [Suc 0, 2, 3]"
    by (simp_all add: upt_rec)
  have t: "take (Suc 0) (drop (Suc (Suc i)) s) = [s ! (i + 2)]" if "i + 3 \<le> length s"
    using that by (simp add: take_Suc_conv_app_nth)
  have u: "take 2 (drop (Suc (Suc i)) s) = [s ! (i + 2), s ! (i + 3)]" if "i + 4 \<le> length s"
    using that by (simp add: numeral_2_eq_2 numeral_3_eq_3 take_Suc_conv_app_nth)
  show ?thesis
    using seq_length_cases[OF assms]
    by (elim disjE) (auto simp: HasValidUtf8Continuation_def utf8_continues_def upt t u not_less)
qed

lemma utf8_points_ge: "utf8_points s i c = Some n \<Longrightarrow> c \<le> n \<and> (i < length s \<longrightarrow> c < n)"
proof (induction s i c rule: utf8_points.induct)
  case (1 s i c)
  show ?case using 1(2) 1(1)
    by (fastforce simp: utf8_points.simps[of s i c] split: if_splits option.splits)
qed

lemma utf8_scan_eq:
  "c \<le> m \<Longrightarrow> utf8_scan s m i c \<longleftrightarrow> (\<exists>n. utf8_points s i c = Some n \<and> n \<le> m)"
proof (induction s m i c rule: utf8_scan.induct)
  case (1 s m i c)
  show ?case
  proof (cases "i < length s")
    case False
    then show ?thesis using 1(2) by (simp add: utf8_scan.simps utf8_points.simps)
  next
    case True
    show ?thesis
    proof (cases "Utf8SequenceForLead (byte (s ! i))")
      case None
      then show ?thesis using True by (simp add: utf8_scan.simps utf8_points.simps utf8_lead_eq)
    next
      case (Some q)
      note c = continuation_eq[OF Some, of s i]
      show ?thesis
      proof (cases "HasValidUtf8Continuation s i q")
        case False
        then show ?thesis using True Some c
          by (auto simp: utf8_scan.simps[of s m i] utf8_points.simps[of s i] utf8_lead_eq)
      next
        case valid: True
        have p: "utf8_points s i c = utf8_points s (i + seq_length q) (c + 1)"
          using True Some c valid by (simp add: utf8_points.simps[of s i] utf8_lead_eq)
        show ?thesis
        proof (cases "m < c + 1")
          case big: True
          then show ?thesis
            using True Some valid utf8_points_ge[of s i c] by (auto simp: utf8_scan.simps[of s m i])
        next
          case False
          then show ?thesis
            using 1(1)[OF True Some] True Some valid p by (simp add: utf8_scan.simps[of s m i])
        qed
      qed
    qed
  qed
qed

lemma BoundedText_eq: "BoundedText s m = IsUtf8ScalarString s m"
proof (cases s)
  case Nil
  then show ?thesis
    by (simp add: BoundedText_def Utf8CodePoints_def utf8_points.simps IsUtf8ScalarString_def)
next
  case (Cons a x)
  then show ?thesis
    using utf8_scan_eq[of 0 m s 0] utf8_points_ge[of s 0 0]
    by (auto simp: BoundedText_def Utf8CodePoints_def IsUtf8ScalarString_def Suc_le_eq split: option.splits)
qed

text \<open>
  C26. The codec and the reducer accept the same identifiers: their separate implementations of the
  UUID, digest, stable-identifier and bounded UTF-8 text checks agree on every byte string.
\<close>

theorem codec_lexical_agrees:
  "IsUuid_codec s (CHR ''7'') = IsUuid s (CHR ''7'') \<and> IsUuid_codec s (CHR ''4'') = IsUuid s (CHR ''4'')
   \<and> IsSha256 s = IsDigest s \<and> IsStableId s = IsStable s \<and> BoundedText s m = IsUtf8ScalarString s m"
proof -
  have "IsLowerHex (CHR ''7'')" "IsLowerHex (CHR ''4'')"
    by (simp_all add: IsLowerHex_def IsAsciiDigit_def)
  then show ?thesis
    by (simp add: IsUuid_codec_eq IsSha256_eq IsStableId_eq BoundedText_eq)
qed

end
