(* ===== verification/Codec_Validation.thy ===== *)
theory Codec_Validation
  imports Codec_Lexical Job_Contract
begin

text \<open>
  The closed names and the semantic validation of \<^verbatim>\<open>src/journal/record_codec.cpp\<close>
  (\<^verbatim>\<open>NameOf\<close>, \<^verbatim>\<open>ValueOf\<close>, \<^verbatim>\<open>EventTypeOf\<close>, \<^verbatim>\<open>PayloadViolation\<close>, \<^verbatim>\<open>Violation\<close>). A violation is
  \<open>Some\<close> of its message. The theory shows that a payload the reducer accepts never violates the
  record schema, so the writer never decides an event that it cannot encode.
\<close>

section \<open>Closed names\<close>

definition phase_names :: "(TimeoutPhase \<times> string) list" where
  "phase_names = [(TimeoutPhase.kPreparation, ''preparation''), (TimeoutPhase.kExecution, ''execution''),
     (TimeoutPhase.kCooperativeStop, ''cooperative_stop''),
     (TimeoutPhase.kProcessExitConfirmation, ''process_exit_confirmation'')]"

definition completion_mode_names :: "(CompletionMode \<times> string) list" where
  "completion_mode_names = [(CompletionMode.kCooperative, ''cooperative''),
     (CompletionMode.kForced, ''forced''),
     (CompletionMode.kProcessAlreadyExited, ''process_already_exited'')]"

definition outcome_names :: "(TerminalOutcome \<times> string) list" where
  "outcome_names = [(TerminalOutcome.kSucceeded, ''succeeded''), (TerminalOutcome.kFailed, ''failed''),
     (TerminalOutcome.kCancelled, ''cancelled''), (TerminalOutcome.kTerminated, ''terminated''),
     (TerminalOutcome.kTimedOut, ''timed_out'')]"

definition cleanup_names :: "(CleanupStatus \<times> string) list" where
  "cleanup_names = [(CleanupStatus.kCompleted, ''completed''), (CleanupStatus.kIncomplete, ''incomplete'')]"

definition late_original_names :: "(EventType \<times> string) list" where
  "late_original_names = [(EventType.kWorkerCompleted, ''worker_completed''),
     (EventType.kWorkerFailed, ''worker_failed'')]"

lemmas name_tables = phase_names_def completion_mode_names_def outcome_names_def cleanup_names_def
  late_original_names_def

fun NameOf :: "'e \<Rightarrow> ('e \<times> string) list \<Rightarrow> string option" where
  "NameOf value [] = None"
| "NameOf value ((candidate, name) # t) = (if candidate = value then Some name else NameOf value t)"

fun ValueOf :: "string \<Rightarrow> ('e \<times> string) list \<Rightarrow> 'e option" where
  "ValueOf name [] = None"
| "ValueOf name ((value, candidate) # t) = (if candidate = name then Some value else ValueOf name t)"

definition ValidatedName :: "'e \<Rightarrow> ('e \<times> string) list \<Rightarrow> string" where
  "ValidatedName value t = (case NameOf value t of Some name \<Rightarrow> name | None \<Rightarrow> [])"

text \<open>The enumerators below \<^verbatim>\<open>kInvalid\<close> in the order of their integer values.\<close>

definition closed_event_types :: "EventType list" where
  "closed_event_types =
     [EventType.kJobCreated, EventType.kResourcesCommitted, EventType.kWorkerLaunchIntent,
      EventType.kWorkerLaunchObserved, EventType.kWorkerRunning, EventType.kCancelAccepted,
      EventType.kTerminateAccepted, EventType.kTimeoutExpired, EventType.kWorkerCompleted,
      EventType.kWorkerFailed, EventType.kProcessExitConfirmed, EventType.kSessionRetainRequested,
      EventType.kSessionRetained, EventType.kFinalizationCompleted, EventType.kFinalizationFailed,
      EventType.kTerminalOutcomeCommitted, EventType.kResourcesReleased,
      EventType.kCleanupStatusRecorded, EventType.kLateWorkerEvent]"

definition EventTypeOf :: "string \<Rightarrow> EventType option" where
  "EventTypeOf name = List.find (\<lambda>type. EventType_ToString type = name) closed_event_types"

section \<open>Validation\<close>

definition max_allocation_text_bytes :: nat where
  "max_allocation_text_bytes = 65536"

definition max_version_chars :: nat where
  "max_version_chars = 128"

definition max_principal_chars :: nat where
  "max_principal_chars = 256"

text \<open>\<open>first_violation\<close> returns the message of the first check that fails.\<close>

fun first_violation :: "(bool \<times> string) list \<Rightarrow> string option" where
  "first_violation [] = None"
| "first_violation ((ok, message) # checks) = (if \<not> ok then Some message else first_violation checks)"

definition PayloadViolation :: "LogicalJobEvent \<Rightarrow> string option" where
  "PayloadViolation e =
     (case lje_event_type e of
        EventType.kJobCreated \<Rightarrow>
          (case lje_payload e of
             JobCreatedPayload session \<Rightarrow> first_violation
               [(IsUuid_codec (uuid_value session) CHR ''7'', ''session_id is not a UUIDv7'')]
           | _ \<Rightarrow> Some ''payload is not job_created'')
      | EventType.kResourcesCommitted \<Rightarrow>
          (case lje_payload e of
             ResourcesCommittedPayload alloc digest schema version text \<Rightarrow> first_violation
               [(IsStableId (stable_value alloc), ''allocation_id is not a stable id''),
                (IsSha256 (digest_value digest), ''allocation_digest is not sha256''),
                (IsStableId (stable_value schema), ''schema_id is not a stable id''),
                (\<not> version < 1, ''resolved_allocation.schema_version below 1''),
                (\<not> length text > max_allocation_text_bytes, ''payload_utf8 over 65536 bytes''),
                (Utf8CodePoints text \<noteq> None, ''payload_utf8 is not UTF-8'')]
           | _ \<Rightarrow> Some ''payload is not resources_committed'')
      | EventType.kWorkerLaunchIntent \<Rightarrow>
          (case lje_payload e of
             WorkerLaunchIntentPayload operation application version bundle alloc digest worker \<Rightarrow>
               first_violation
               [(IsStableId (stable_value operation), ''operation_id is not a stable id''),
                (IsStableId (stable_value application), ''application_id is not a stable id''),
                (BoundedText version max_version_chars, ''version out of bounds''),
                (IsSha256 (digest_value bundle), ''bundle_sha256 is not sha256''),
                (IsStableId (stable_value alloc), ''allocation_id is not a stable id''),
                (IsSha256 (digest_value digest), ''allocation_digest is not sha256''),
                (IsUuid_codec (uuid_value worker) CHR ''4'', ''worker_id is not a UUIDv4'')]
           | _ \<Rightarrow> Some ''payload is not worker_launch_intent'')
      | EventType.kWorkerLaunchObserved \<Rightarrow>
          (case lje_payload e of
             WorkerLaunchObservedPayload operation started \<Rightarrow> first_violation
               [(IsStableId (stable_value operation), ''operation_id is not a stable id'')]
           | _ \<Rightarrow> Some ''payload is not worker_launch_observed'')
      | EventType.kWorkerRunning \<Rightarrow>
          (case lje_payload e of
             WorkerRunningPayload worker \<Rightarrow> first_violation
               [(IsUuid_codec (uuid_value worker) CHR ''4'', ''worker_id is not a UUIDv4'')]
           | _ \<Rightarrow> Some ''payload is not worker_running'')
      | EventType.kTimeoutExpired \<Rightarrow>
          (case lje_payload e of
             TimeoutExpiredPayload phase generation \<Rightarrow> first_violation
               [(NameOf phase phase_names \<noteq> None, ''phase is not a closed value''),
                (\<not> generation < 1, ''timer_generation below 1'')]
           | _ \<Rightarrow> Some ''payload is not timeout_expired'')
      | EventType.kProcessExitConfirmed \<Rightarrow>
          (case lje_payload e of
             ProcessExitConfirmedPayload mode operation \<Rightarrow> first_violation
               [(NameOf mode completion_mode_names \<noteq> None, ''completion_mode is not a closed value''),
                (IsStableId (stable_value operation), ''launch_operation_id is not a stable id'')]
           | _ \<Rightarrow> Some ''payload is not process_exit_confirmed'')
      | EventType.kTerminalOutcomeCommitted \<Rightarrow>
          (case lje_payload e of
             TerminalOutcomePayload outcome \<Rightarrow> first_violation
               [(NameOf outcome outcome_names \<noteq> None, ''outcome is not a closed value'')]
           | _ \<Rightarrow> Some ''payload is not terminal_outcome_committed'')
      | EventType.kResourcesReleased \<Rightarrow>
          (case lje_payload e of
             ResourcesReleasedPayload alloc digest \<Rightarrow> first_violation
               [(IsStableId (stable_value alloc), ''allocation_id is not a stable id''),
                (IsSha256 (digest_value digest), ''allocation_digest is not sha256'')]
           | _ \<Rightarrow> Some ''payload is not resources_released'')
      | EventType.kCleanupStatusRecorded \<Rightarrow>
          (case lje_payload e of
             CleanupStatusPayload status \<Rightarrow> first_violation
               [(NameOf status cleanup_names \<noteq> None, ''status is not a closed value'')]
           | _ \<Rightarrow> Some ''payload is not cleanup_status_recorded'')
      | EventType.kLateWorkerEvent \<Rightarrow>
          (case lje_payload e of
             LateWorkerEventPayload original worker sequence \<Rightarrow> first_violation
               [(NameOf original late_original_names \<noteq> None,
                 ''original_event_type is not a closed value''),
                (IsUuid_codec (uuid_value worker) CHR ''4'', ''worker_id is not a UUIDv4''),
                (\<not> sequence < 1, ''event_sequence below 1'')]
           | _ \<Rightarrow> Some ''payload is not late_worker_event'')
      | EventType.kInvalid \<Rightarrow> Some ''event_type is not a closed value''
      | _ \<Rightarrow>
          (if lje_event_type e = EventType.kCancelAccepted
              \<or> lje_event_type e = EventType.kTerminateAccepted
           then (case lje_payload e of
                   PrincipalPayload subject \<Rightarrow> first_violation
                     [(BoundedText subject max_principal_chars, ''principal_subject out of bounds'')]
                 | _ \<Rightarrow> Some ''payload is not a principal payload'')
           else if lje_event_type e = EventType.kWorkerCompleted
                   \<or> lje_event_type e = EventType.kWorkerFailed
           then (case lje_payload e of
                   WorkerEventPayload worker sequence \<Rightarrow> first_violation
                     [(IsUuid_codec (uuid_value worker) CHR ''4'', ''worker_id is not a UUIDv4''),
                      (\<not> sequence < 1, ''event_sequence below 1'')]
                 | _ \<Rightarrow> Some ''payload is not a worker event payload'')
           else if lje_event_type e = EventType.kSessionRetainRequested
                   \<or> lje_event_type e = EventType.kSessionRetained
           then (case lje_payload e of
                   SessionPayload session \<Rightarrow> first_violation
                     [(IsUuid_codec (uuid_value session) CHR ''7'', ''session_id is not a UUIDv7'')]
                 | _ \<Rightarrow> Some ''payload is not a session payload'')
           else (if lje_payload e = EmptyPayload then None else Some ''payload is not empty'')))"

definition Violation :: "LogicalJobEvent \<Rightarrow> string option" where
  "Violation e =
     (if lje_schema_version e \<noteq> 1 then Some ''schema_version is not 1''
      else if lje_sequence e < 1 then Some ''sequence below 1''
      else if \<not> IsRfc3339 (lje_recorded_at e) then Some ''recorded_at is not an RFC 3339 date-time''
      else if \<not> IsUuid_codec (uuid_value (lje_job_id e)) CHR ''7'' then Some ''job_id is not a UUIDv7''
      else PayloadViolation e)"

section \<open>What the reducer accepts can be recorded\<close>

lemma first_violation_None: "first_violation checks = None \<longleftrightarrow> list_all fst checks"
  by (induction checks rule: first_violation.induct) auto

lemma NameOf_names:
  "NameOf phase phase_names \<noteq> None \<longleftrightarrow> IsTimeoutPhase phase"
  "NameOf mode completion_mode_names \<noteq> None \<longleftrightarrow> IsCompletionMode mode \<and> mode \<noteq> CompletionMode.kNone"
  "NameOf outcome outcome_names \<noteq> None \<longleftrightarrow> IsTerminalOutcome outcome"
  "NameOf status cleanup_names \<noteq> None \<longleftrightarrow> IsCleanupStatus status \<and> status \<noteq> CleanupStatus.kPending"
  "NameOf original late_original_names \<noteq> None \<longleftrightarrow>
     original = EventType.kWorkerCompleted \<or> original = EventType.kWorkerFailed"
proof -
  show "NameOf phase phase_names \<noteq> None \<longleftrightarrow> IsTimeoutPhase phase"
    by (cases phase) (simp_all add: name_tables enum_defs)
  show "NameOf mode completion_mode_names \<noteq> None \<longleftrightarrow> IsCompletionMode mode \<and> mode \<noteq> CompletionMode.kNone"
    by (cases mode) (simp_all add: name_tables enum_defs)
  show "NameOf outcome outcome_names \<noteq> None \<longleftrightarrow> IsTerminalOutcome outcome"
    by (cases outcome) (simp_all add: name_tables enum_defs)
  show "NameOf status cleanup_names \<noteq> None \<longleftrightarrow> IsCleanupStatus status \<and> status \<noteq> CleanupStatus.kPending"
    by (cases status) (simp_all add: name_tables enum_defs)
  show "NameOf original late_original_names \<noteq> None \<longleftrightarrow>
     original = EventType.kWorkerCompleted \<or> original = EventType.kWorkerFailed"
    by (cases original) (simp_all add: name_tables)
qed

lemma hex_versions [simp]: "IsLowerHex (CHR ''7'')" "IsLowerHex (CHR ''4'')"
  by (simp_all add: IsLowerHex_def IsAsciiDigit_def)

lemma word_less_1 [simp]: "(w :: 'a :: len word) < 1 \<longleftrightarrow> w = 0"
  by (metis One_nat_def less_Suc0 unat_eq_zero unsigned_1 word_less_nat_alt)

lemmas codec_lexical = IsUuid_codec_eq IsSha256_eq IsStableId_eq BoundedText_eq NameOf_names
  NameOf_names[unfolded not_None_eq] first_violation_None

lemma ValidInternalPayload_flat:
  "ValidInternalPayload L t q j \<longleftrightarrow> IsEventType t \<and> PayloadMatches t q \<and>
     (case q of
        JobCreatedPayload session \<Rightarrow> IsUuid (uuid_value session) CHR ''7'' \<and> session = j
      | ResourcesCommittedPayload alloc digest schema version text \<Rightarrow>
          IsStable (stable_value alloc) \<and> IsDigest (digest_value digest)
          \<and> IsStable (stable_value schema) \<and> version \<noteq> 0
          \<and> length text \<le> 65536 \<and> NUL \<notin> set text \<and> json_parse L text \<noteq> None
          \<and> Sha256 L text = digest_value digest
      | WorkerLaunchIntentPayload operation application version bundle alloc digest worker \<Rightarrow>
          IsStable (stable_value operation) \<and> IsStable (stable_value application)
          \<and> IsUtf8ScalarString version 128 \<and> IsDigest (digest_value bundle)
          \<and> IsStable (stable_value alloc) \<and> IsDigest (digest_value digest)
          \<and> IsUuid (uuid_value worker) CHR ''4''
      | WorkerLaunchObservedPayload operation started \<Rightarrow> IsStable (stable_value operation)
      | WorkerRunningPayload worker \<Rightarrow> IsUuid (uuid_value worker) CHR ''4''
      | PrincipalPayload subject \<Rightarrow> IsUtf8ScalarString subject 256
      | TimeoutExpiredPayload phase generation \<Rightarrow> IsTimeoutPhase phase \<and> generation \<noteq> 0
      | WorkerEventPayload worker sequence \<Rightarrow> IsUuid (uuid_value worker) CHR ''4'' \<and> sequence \<noteq> 0
      | ProcessExitConfirmedPayload mode operation \<Rightarrow>
          IsCompletionMode mode \<and> mode \<noteq> CompletionMode.kNone \<and> IsStable (stable_value operation)
      | SessionPayload session \<Rightarrow> IsUuid (uuid_value session) CHR ''7''
      | TerminalOutcomePayload outcome \<Rightarrow> IsTerminalOutcome outcome
      | ResourcesReleasedPayload alloc digest \<Rightarrow>
          IsStable (stable_value alloc) \<and> IsDigest (digest_value digest)
      | CleanupStatusPayload status \<Rightarrow> IsCleanupStatus status \<and> status \<noteq> CleanupStatus.kPending
      | LateWorkerEventPayload original worker sequence \<Rightarrow>
          (original = EventType.kWorkerCompleted \<or> original = EventType.kWorkerFailed)
          \<and> IsUuid (uuid_value worker) CHR ''4'' \<and> sequence \<noteq> 0
      | EmptyPayload \<Rightarrow> True)"
  by (cases q) (auto simp: ValidInternalPayload_def ParseResolvedAllocationJson_def ParseJson_def
      IsPrincipal_def split: if_splits)

text \<open>
  \<open>rejects_invalid_utf8\<close>: the JSON parser of the core rejects a text that is not well-formed UTF-8,
  as RFC 8259 requires and nlohmann/json documents.
\<close>

definition rejects_invalid_utf8 :: "libs \<Rightarrow> bool" where
  "rejects_invalid_utf8 L \<longleftrightarrow> (\<forall>t. json_parse L t \<noteq> None \<longrightarrow> Utf8CodePoints t \<noteq> None)"

lemma PayloadMatches_cases [consumes 1, case_names created resources intent observed running
    cancel terminate timeout completed failed exited retain_requested retained finalized
    finalization_failed outcome released cleanup late]:
  assumes "PayloadMatches t q"
  obtains s where "t = EventType.kJobCreated" "q = JobCreatedPayload s"
  | a d i v x where "t = EventType.kResourcesCommitted" "q = ResourcesCommittedPayload a d i v x"
  | l p v b a d w where "t = EventType.kWorkerLaunchIntent"
      "q = WorkerLaunchIntentPayload l p v b a d w"
  | l b where "t = EventType.kWorkerLaunchObserved" "q = WorkerLaunchObservedPayload l b"
  | w where "t = EventType.kWorkerRunning" "q = WorkerRunningPayload w"
  | u where "t = EventType.kCancelAccepted" "q = PrincipalPayload u"
  | u where "t = EventType.kTerminateAccepted" "q = PrincipalPayload u"
  | ph g where "t = EventType.kTimeoutExpired" "q = TimeoutExpiredPayload ph g"
  | w n where "t = EventType.kWorkerCompleted" "q = WorkerEventPayload w n"
  | w n where "t = EventType.kWorkerFailed" "q = WorkerEventPayload w n"
  | m l where "t = EventType.kProcessExitConfirmed" "q = ProcessExitConfirmedPayload m l"
  | s where "t = EventType.kSessionRetainRequested" "q = SessionPayload s"
  | s where "t = EventType.kSessionRetained" "q = SessionPayload s"
  | "t = EventType.kFinalizationCompleted" "q = EmptyPayload"
  | "t = EventType.kFinalizationFailed" "q = EmptyPayload"
  | r where "t = EventType.kTerminalOutcomeCommitted" "q = TerminalOutcomePayload r"
  | a d where "t = EventType.kResourcesReleased" "q = ResourcesReleasedPayload a d"
  | c where "t = EventType.kCleanupStatusRecorded" "q = CleanupStatusPayload c"
  | o' w n where "t = EventType.kLateWorkerEvent" "q = LateWorkerEventPayload o' w n"
  using assms by (cases t; cases q) simp_all

lemma PayloadViolation_None:
  assumes "ValidInternalPayload L (lje_event_type e) (lje_payload e) j" "rejects_invalid_utf8 L"
  shows "PayloadViolation e = None"
proof -
  have u: "json_parse L x \<noteq> None \<Longrightarrow> Utf8CodePoints x \<noteq> None" for x
    using assms(2) by (simp add: rejects_invalid_utf8_def)
  note limits = max_version_chars_def max_principal_chars_def max_allocation_text_bytes_def
  from payload_shape[OF assms(1)] show ?thesis
    by (cases rule: PayloadMatches_cases)
      (use assms(1) u in \<open>simp_all add: PayloadViolation_def ValidInternalPayload_flat codec_lexical limits\<close>)
qed

end
