(* ===== verification/Codec_Emit.thy ===== *)
theory Codec_Emit
  imports Codec_Validation
begin

text \<open>
  The canonical emitter of \<^verbatim>\<open>src/journal/record_codec.cpp\<close> (\<^verbatim>\<open>class Emitter\<close>, \<^verbatim>\<open>EmitPayload\<close>,
  \<^verbatim>\<open>Emit\<close>, \<^verbatim>\<open>EncodeRecord\<close>). The specification of a record is a document: a tree of strings,
  numbers and ordered members. The theory shows that the emitter writes the text of the document
  of an event, that this text determines the event, that it holds exactly one line feed, at
  its end, and how long it can be.
\<close>

section \<open>The emitter\<close>

text \<open>
  The state of \<^verbatim>\<open>class Emitter\<close>: the text so far and the stack \<^verbatim>\<open>first_\<close>, whose \<^verbatim>\<open>back()\<close> is the
  head of the list. A method takes the emitter last and returns it.
\<close>

record Emitter =
  out :: string
  first :: "bool list"

definition hex_digit :: "nat \<Rightarrow> char" where
  "hex_digit d = ''0123456789abcdef'' ! d"

definition escape :: "char \<Rightarrow> string" where
  "escape c =
     (if c = DQUOTE then [BACKSLASH, DQUOTE]
      else if c = BACKSLASH then [BACKSLASH, BACKSLASH]
      else if byte c < 0x20
      then [BACKSLASH] @ ''u00'' @ [hex_digit (byte c div 16), hex_digit (byte c mod 16)]
      else [c])"

definition Str :: "string \<Rightarrow> Emitter \<Rightarrow> Emitter" where
  "Str s w = w\<lparr>out := out w @ [DQUOTE] @ concat (map escape s) @ [DQUOTE]\<rparr>"

definition Num :: "u64 \<Rightarrow> Emitter \<Rightarrow> Emitter" where
  "Num v w = w\<lparr>out := out w @ to_string v\<rparr>"

definition Key :: "string \<Rightarrow> Emitter \<Rightarrow> Emitter" where
  "Key key w =
     (let w1 = (if \<not> hd (first w) then w\<lparr>out := out w @ '',''\<rparr> else w);
          w2 = w1\<lparr>first := False # tl (first w1)\<rparr>;
          w3 = Str key w2
      in w3\<lparr>out := out w3 @ '':''\<rparr>)"

definition Begin :: "Emitter \<Rightarrow> Emitter" where
  "Begin w = w\<lparr>out := out w @ ''{'', first := True # first w\<rparr>"

definition End :: "Emitter \<Rightarrow> Emitter" where
  "End w = w\<lparr>out := out w @ ''}'', first := tl (first w)\<rparr>"

text \<open>\<open>emit_all\<close> runs a sequence of emitter calls.\<close>

definition emit_all :: "(Emitter \<Rightarrow> Emitter) list \<Rightarrow> Emitter \<Rightarrow> Emitter" where
  "emit_all calls w = fold (\<lambda>f. f) calls w"

text \<open>
  The calls of \<^verbatim>\<open>EmitPayload\<close> between its \<^verbatim>\<open>Begin\<close> and \<^verbatim>\<open>End\<close>. The source dereferences the payload
  of the matching type; \<^verbatim>\<open>Violation\<close> has checked that it has this type, and the model emits
  nothing otherwise.
\<close>

definition EmitMembers :: "LogicalJobEvent \<Rightarrow> (Emitter \<Rightarrow> Emitter) list" where
  "EmitMembers e =
     (case lje_payload e of
        JobCreatedPayload session \<Rightarrow> [Key ''session_id'', Str (uuid_value session)]
      | ResourcesCommittedPayload alloc digest schema version text \<Rightarrow>
          [Key ''allocation_id'', Str (stable_value alloc),
           Key ''allocation_digest'', Str (digest_value digest),
           Key ''resolved_allocation'', Begin,
           Key ''schema_id'', Str (stable_value schema),
           Key ''schema_version'', Num (ucast version),
           Key ''payload_utf8'', Str text, End]
      | WorkerLaunchIntentPayload operation application version bundle alloc digest worker \<Rightarrow>
          [Key ''operation_id'', Str (stable_value operation),
           Key ''application'', Begin,
           Key ''application_id'', Str (stable_value application),
           Key ''version'', Str version,
           Key ''bundle_sha256'', Str (digest_value bundle), End,
           Key ''allocation_id'', Str (stable_value alloc),
           Key ''allocation_digest'', Str (digest_value digest),
           Key ''worker_id'', Str (uuid_value worker)]
      | WorkerLaunchObservedPayload operation started \<Rightarrow>
          [Key ''operation_id'', Str (stable_value operation),
           Key ''outcome'', Str (if started then ''started'' else ''failed'')]
      | WorkerRunningPayload worker \<Rightarrow> [Key ''worker_id'', Str (uuid_value worker)]
      | PrincipalPayload subject \<Rightarrow> [Key ''principal_subject'', Str subject]
      | TimeoutExpiredPayload phase generation \<Rightarrow>
          [Key ''phase'', Str (ValidatedName phase phase_names),
           Key ''timer_generation'', Num generation]
      | WorkerEventPayload worker sequence \<Rightarrow>
          [Key ''worker_id'', Str (uuid_value worker), Key ''event_sequence'', Num sequence]
      | ProcessExitConfirmedPayload mode operation \<Rightarrow>
          [Key ''completion_mode'', Str (ValidatedName mode completion_mode_names),
           Key ''launch_operation_id'', Str (stable_value operation)]
      | SessionPayload session \<Rightarrow> [Key ''session_id'', Str (uuid_value session)]
      | EmptyPayload \<Rightarrow> []
      | TerminalOutcomePayload outcome \<Rightarrow> [Key ''outcome'', Str (ValidatedName outcome outcome_names)]
      | ResourcesReleasedPayload alloc digest \<Rightarrow>
          [Key ''allocation_id'', Str (stable_value alloc),
           Key ''allocation_digest'', Str (digest_value digest)]
      | CleanupStatusPayload status \<Rightarrow> [Key ''status'', Str (ValidatedName status cleanup_names)]
      | LateWorkerEventPayload original worker sequence \<Rightarrow>
          [Key ''original_event_type'', Str (ValidatedName original late_original_names),
           Key ''worker_id'', Str (uuid_value worker), Key ''event_sequence'', Num sequence])"

definition EmitPayload :: "LogicalJobEvent \<Rightarrow> Emitter \<Rightarrow> Emitter" where
  "EmitPayload e w =
     emit_all ([Begin] @ (if PayloadMatches (lje_event_type e) (lje_payload e) then EmitMembers e else [])
       @ [End]) w"

definition Emit :: "LogicalJobEvent \<Rightarrow> string" where
  "Emit e = out (emit_all
     [Begin,
      Key ''schema_version'', Num (ucast (lje_schema_version e)),
      Key ''sequence'', Num (lje_sequence e),
      Key ''event_type'', Str (EventType_ToString (lje_event_type e)),
      Key ''recorded_at'', Str (lje_recorded_at e),
      Key ''job_id'', Str (uuid_value (lje_job_id e)),
      Key ''payload'', EmitPayload e, End] \<lparr>out = [], first = []\<rparr>) @ [LF]"

section \<open>Encoding\<close>

definition max_record_bytes :: nat where
  "max_record_bytes = 1048576"

datatype EncodeStatus = kEncoded | kSchemaViolation | kOversize

record EncodedRecord =
  enc_status :: EncodeStatus
  enc_bytes :: string
  enc_detail :: string

definition EncodeRecord :: "LogicalJobEvent \<Rightarrow> EncodedRecord" where
  "EncodeRecord event =
     (case Violation event of
        Some violation \<Rightarrow>
          \<lparr>enc_status = EncodeStatus.kSchemaViolation, enc_bytes = [], enc_detail = violation\<rparr>
      | None \<Rightarrow>
          (let bytes = Emit event
           in if length bytes > max_record_bytes
              then \<lparr>enc_status = EncodeStatus.kOversize, enc_bytes = [],
                    enc_detail = ''record is '' @ dec (length bytes) @ '' bytes''\<rparr>
              else \<lparr>enc_status = EncodeStatus.kEncoded, enc_bytes = bytes, enc_detail = []\<rparr>))"

section \<open>Documents\<close>

datatype doc = DNum u64 | DStr string | DObj "(string \<times> doc) list"

definition text_of :: "string \<Rightarrow> string" where
  "text_of s = [DQUOTE] @ concat (map escape s) @ [DQUOTE]"

fun render :: "doc \<Rightarrow> string" and render_members :: "bool \<Rightarrow> (string \<times> doc) list \<Rightarrow> string" where
  "render (DNum v) = to_string v"
| "render (DStr s) = text_of s"
| "render (DObj ms) = ''{'' @ render_members True ms @ ''}''"
| "render_members f [] = []"
| "render_members f ((k, d) # ms) =
     (if f then [] else '','') @ text_of k @ '':'' @ render d @ render_members False ms"

definition payload_doc :: "EventPayload \<Rightarrow> doc" where
  "payload_doc q = DObj
     (case q of
        JobCreatedPayload session \<Rightarrow> [(''session_id'', DStr (uuid_value session))]
      | ResourcesCommittedPayload alloc digest schema version text \<Rightarrow>
          [(''allocation_id'', DStr (stable_value alloc)),
           (''allocation_digest'', DStr (digest_value digest)),
           (''resolved_allocation'', DObj [(''schema_id'', DStr (stable_value schema)),
              (''schema_version'', DNum (ucast version)), (''payload_utf8'', DStr text)])]
      | WorkerLaunchIntentPayload operation application version bundle alloc digest worker \<Rightarrow>
          [(''operation_id'', DStr (stable_value operation)),
           (''application'', DObj [(''application_id'', DStr (stable_value application)),
              (''version'', DStr version), (''bundle_sha256'', DStr (digest_value bundle))]),
           (''allocation_id'', DStr (stable_value alloc)),
           (''allocation_digest'', DStr (digest_value digest)),
           (''worker_id'', DStr (uuid_value worker))]
      | WorkerLaunchObservedPayload operation started \<Rightarrow>
          [(''operation_id'', DStr (stable_value operation)),
           (''outcome'', DStr (if started then ''started'' else ''failed''))]
      | WorkerRunningPayload worker \<Rightarrow> [(''worker_id'', DStr (uuid_value worker))]
      | PrincipalPayload subject \<Rightarrow> [(''principal_subject'', DStr subject)]
      | TimeoutExpiredPayload phase generation \<Rightarrow>
          [(''phase'', DStr (ValidatedName phase phase_names)), (''timer_generation'', DNum generation)]
      | WorkerEventPayload worker sequence \<Rightarrow>
          [(''worker_id'', DStr (uuid_value worker)), (''event_sequence'', DNum sequence)]
      | ProcessExitConfirmedPayload mode operation \<Rightarrow>
          [(''completion_mode'', DStr (ValidatedName mode completion_mode_names)),
           (''launch_operation_id'', DStr (stable_value operation))]
      | SessionPayload session \<Rightarrow> [(''session_id'', DStr (uuid_value session))]
      | EmptyPayload \<Rightarrow> []
      | TerminalOutcomePayload outcome \<Rightarrow> [(''outcome'', DStr (ValidatedName outcome outcome_names))]
      | ResourcesReleasedPayload alloc digest \<Rightarrow>
          [(''allocation_id'', DStr (stable_value alloc)),
           (''allocation_digest'', DStr (digest_value digest))]
      | CleanupStatusPayload status \<Rightarrow> [(''status'', DStr (ValidatedName status cleanup_names))]
      | LateWorkerEventPayload original worker sequence \<Rightarrow>
          [(''original_event_type'', DStr (ValidatedName original late_original_names)),
           (''worker_id'', DStr (uuid_value worker)), (''event_sequence'', DNum sequence)])"

definition event_doc :: "LogicalJobEvent \<Rightarrow> doc" where
  "event_doc e = DObj
     [(''schema_version'', DNum (ucast (lje_schema_version e))),
      (''sequence'', DNum (lje_sequence e)),
      (''event_type'', DStr (EventType_ToString (lje_event_type e))),
      (''recorded_at'', DStr (lje_recorded_at e)),
      (''job_id'', DStr (uuid_value (lje_job_id e))),
      (''payload'', payload_doc (lje_payload e))]"

lemma emitter_out [simp]:
  "out (Str s w) = out w @ text_of s" "first (Str s w) = first w"
  "out (Num v w) = out w @ to_string v" "first (Num v w) = first w"
  "out (Begin w) = out w @ ''{''" "first (Begin w) = True # first w"
  "out (End w) = out w @ ''}''" "first (End w) = tl (first w)"
  "out (Key k w) = out w @ (if hd (first w) then [] else '','') @ text_of k @ '':''"
  "first (Key k w) = False # tl (first w)"
  by (simp_all add: Str_def Num_def Begin_def End_def Key_def text_of_def Let_def)

lemma emit_all_simps [simp]:
  "emit_all [] w = w" "emit_all (f # fs) w = emit_all fs (f w)"
  "emit_all (fs @ gs) w = emit_all gs (emit_all fs w)"
  by (simp_all add: emit_all_def)

lemma EmitMembers_out:
  assumes "hd (first w)"
  shows "out (emit_all (EmitMembers e) w) @ ''}'' = out w @ tl (render (payload_doc (lje_payload e)))
    \<and> tl (first (emit_all (EmitMembers e) w)) = tl (first w)"
  using assms by (cases "lje_payload e") (simp_all add: EmitMembers_def payload_doc_def)

lemma Emit_render:
  assumes "PayloadMatches (lje_event_type e) (lje_payload e)"
  shows "Emit e = render (event_doc e) @ [LF]"
proof -
  have p: "out (EmitPayload e w) = out w @ render (payload_doc (lje_payload e))
      \<and> first (EmitPayload e w) = first w" for w
    using EmitMembers_out[of "Begin w" e] assms
    by (simp add: EmitPayload_def) (simp add: payload_doc_def)
  show ?thesis by (simp add: Emit_def event_doc_def p)
qed

section \<open>Decimal text\<close>

lemma IsAsciiDigit_digit_char: "d < 10 \<Longrightarrow> IsAsciiDigit (digit_char d)"
  by (simp add: IsAsciiDigit_def byte_digit_char)

lemma dec_digits: "c \<in> set (dec n) \<Longrightarrow> IsAsciiDigit c"
proof (induction n rule: dec.induct)
  case (1 n)
  then show ?case
    by (cases "n < 10") (auto simp: dec.simps[of n] intro: IsAsciiDigit_digit_char)
qed

lemma dec_nonempty: "dec n \<noteq> []"
  by (subst dec.simps) simp

lemma dec_inject: "dec m = dec n \<Longrightarrow> m = n"
proof (induction m arbitrary: n rule: dec.induct)
  case (1 m)
  show ?case
  proof (cases "m < 10")
    case True
    then show ?thesis using 1(2)
      by (cases "n < 10") (auto simp: dec.simps[of m] dec.simps[of n] digit_char_inject dec_nonempty dec_nonempty[symmetric])
  next
    case False
    then have "\<not> n < 10" using 1(2) by (auto simp: dec.simps[of m] dec.simps[of n] dec_nonempty)
    then have "dec (m div 10) = dec (n div 10)" "m mod 10 = n mod 10"
      using False 1(2) by (simp_all add: dec.simps[of m] dec.simps[of n] digit_char_inject)
    then show ?thesis using 1(1)[OF False] by (metis mult_div_mod_eq)
  qed
qed

lemma dec_length: "n < 10 ^ k \<Longrightarrow> 0 < k \<Longrightarrow> length (dec n) \<le> k"
proof (induction n arbitrary: k rule: dec.induct)
  case (1 n)
  show ?case
  proof (cases "n < 10")
    case True
    then show ?thesis using 1(3) by (simp add: dec.simps[of n] Suc_le_eq)
  next
    case False
    have "k \<noteq> 1" using False 1(2) by auto
    then obtain k' where k: "k = Suc k'" "0 < k'" using 1(3) by (cases k) auto
    then have "n div 10 < 10 ^ k'" using 1(2) by (simp add: less_mult_imp_div_less mult.commute)
    then show ?thesis using 1(1)[OF False _ k(2)] False k(1) by (simp add: dec.simps[of n])
  qed
qed

abbreviation ends :: "string \<Rightarrow> bool" where
  "ends r \<equiv> r = [] \<or> \<not> IsAsciiDigit (hd r)"

lemma takeWhile_dec: "ends r \<Longrightarrow> takeWhile IsAsciiDigit (dec n @ r) = dec n"
  by (cases r) (auto simp: takeWhile_append dest: dec_digits)

lemma to_string_prefix:
  assumes "to_string v @ r = to_string v' @ r'" "ends r" "ends r'"
  shows "v = v' \<and> r = r'"
proof -
  have "dec (unat v) = dec (unat v')"
    using takeWhile_dec[OF assms(2)] takeWhile_dec[OF assms(3)] assms(1) by (metis to_string_def)
  then show ?thesis using assms(1) dec_inject by (auto simp: to_string_def word_unat_eq_iff)
qed

lemma to_string_length: "length (to_string v) \<le> 20"
proof -
  have "unat v < 2 ^ 64" using unsigned_less[of v, where 'a=nat] by simp
  then have "unat v < 10 ^ 20" by simp
  then show ?thesis unfolding to_string_def by (intro dec_length) simp_all
qed

lemma to_string_start: "\<exists>c x. to_string v = c # x \<and> IsAsciiDigit c"
  using dec_nonempty[of "unat v"] dec_digits[of _ "unat v"] by (cases "to_string v") (auto simp: to_string_def)

section \<open>Quoted text\<close>

lemma hex_digit_inject:
  assumes "a < 16" "b < 16" "hex_digit a = hex_digit b"
  shows "a = b"
proof -
  have "distinct ''0123456789abcdef''" "length ''0123456789abcdef'' = 16" by simp_all
  then show ?thesis using assms unfolding hex_digit_def by (metis nth_eq_iff_index_eq)
qed

lemma escape_prefix:
  assumes "escape c @ x = escape d @ y"
  shows "c = d \<and> x = y"
proof (cases "byte c < 0x20 \<and> byte d < 0x20")
  case True
  then have "c \<noteq> DQUOTE" "d \<noteq> DQUOTE" "c \<noteq> BACKSLASH" "d \<noteq> BACKSLASH" by auto
  then have h: "hex_digit (byte c div 16) = hex_digit (byte d div 16)"
    "hex_digit (byte c mod 16) = hex_digit (byte d mod 16)" "x = y"
    using assms True by (simp_all add: escape_def)
  then have "byte c div 16 = byte d div 16" "byte c mod 16 = byte d mod 16"
    using True by (auto intro!: hex_digit_inject)
  then have "byte c = byte d" by (metis mult_div_mod_eq)
  then show ?thesis using h(3) by (simp add: byte_inject)
next
  case False
  then show ?thesis using assms by (auto simp: escape_def split: if_splits)
qed

lemma escape_not_quote: "escape c @ x \<noteq> DQUOTE # y"
  by (auto simp: escape_def)

lemma escapes_prefix:
  "concat (map escape s) @ DQUOTE # r = concat (map escape s') @ DQUOTE # r' \<Longrightarrow> s = s' \<and> r = r'"
proof (induction s arbitrary: s')
  case Nil
  then show ?case using escape_not_quote by (cases s') (auto dest: sym)
next
  case (Cons c s)
  then show ?case
  proof (cases s')
    case Nil
    then show ?thesis using Cons.prems escape_not_quote by auto
  next
    case (Cons d t)
    then show ?thesis using Cons.prems Cons.IH escape_prefix[of c _ d] by simp blast
  qed
qed

lemma text_of_prefix: "text_of s @ r = text_of s' @ r' \<Longrightarrow> s = s' \<and> r = r'"
  by (rule escapes_prefix) (simp add: text_of_def)

lemma escape_length: "length (escape c) \<le> 6"
  by (simp add: escape_def)

lemma text_of_length: "length (text_of s) \<le> 6 * length s + 2"
proof -
  have "length (concat (map escape s)) \<le> 6 * length s"
  proof (induction s)
    case (Cons c s)
    then show ?case using escape_length[of c] by simp
  qed simp
  then show ?thesis by (simp add: text_of_def)
qed

lemma hex_digit_not_LF:
  assumes "d < 16"
  shows "hex_digit d \<noteq> LF"
proof -
  have "hex_digit d \<in> set ''0123456789abcdef''"
    unfolding hex_digit_def using assms by (intro nth_mem) simp
  then show ?thesis by auto
qed

lemma text_of_one_line: "LF \<notin> set (text_of s)"
proof -
  have "LF \<notin> set (escape c)" for c
  proof (cases "byte c < 0x20")
    case True
    have "byte c mod 16 < 16" "byte c div 16 < 16" using True by auto
    then show ?thesis using hex_digit_not_LF[of "byte c mod 16"] hex_digit_not_LF[of "byte c div 16"]
      by (auto simp: escape_def)
  next
    case False
    then show ?thesis by (auto simp: escape_def)
  qed
  then show ?thesis by (auto simp: text_of_def)
qed

section \<open>The text of a document determines it\<close>

lemma text_of_Cons: "\<exists>x. text_of s = DQUOTE # x"
  by (simp add: text_of_def)

lemma render_start: "\<exists>c x. render d = c # x \<and>
   (case d of DNum _ \<Rightarrow> IsAsciiDigit c | DStr _ \<Rightarrow> c = DQUOTE | DObj _ \<Rightarrow> c = CHR ''{'')"
  using to_string_start text_of_Cons by (cases d) auto

lemma not_digits [simp]: "\<not> IsAsciiDigit DQUOTE" "\<not> IsAsciiDigit (CHR ''{'')" "\<not> IsAsciiDigit (CHR ''}'')"
  "\<not> IsAsciiDigit (CHR '','')" "\<not> IsAsciiDigit LF"
  by (simp_all add: IsAsciiDigit_def)

lemma members_end: "ends (render_members False ms @ ''}'' @ r)"
  by (cases ms) auto

lemma render_prefix:
  "render d @ r = render d' @ r' \<Longrightarrow> ends r \<Longrightarrow> ends r' \<Longrightarrow> d = d' \<and> r = r'"
  "render_members f ms @ ''}'' @ r = render_members f ms' @ ''}'' @ r' \<Longrightarrow> ms = ms' \<and> r = r'"
proof (induction d and f ms arbitrary: d' r r' and ms' r r' rule: render_render_members.induct)
  case (1 v)
  obtain w where "d' = DNum w"
    using 1(1) render_start[of d'] render_start[of "DNum v"] by (cases d') auto
  then show ?case using 1 to_string_prefix[of v r w r'] by simp
next
  case (2 s)
  obtain t where "d' = DStr t"
    using 2(1) render_start[of d'] text_of_Cons[of s] by (cases d') auto
  then show ?case using 2(1) text_of_prefix[of s r t r'] by simp
next
  case (3 ms)
  obtain ns where "d' = DObj ns"
    using 3(2) render_start[of d'] by (cases d') auto
  then show ?case using 3(1)[of r ns r'] 3(2) by simp
next
  case (4 f)
  then show ?case by (cases ms') (auto simp: text_of_def split: if_splits)
next
  case (5 f k d ms)
  obtain k' e ms2 where m: "ms' = (k', e) # ms2"
    using 5(3) by (cases ms') (auto simp: text_of_def split: if_splits)
  have "text_of k @ '':'' @ render d @ render_members False ms @ ''}'' @ r
      = text_of k' @ '':'' @ render e @ render_members False ms2 @ ''}'' @ r'"
    using 5(3) m by (simp split: if_splits)
  then have k: "k = k'" and "render d @ (render_members False ms @ ''}'' @ r)
      = render e @ (render_members False ms2 @ ''}'' @ r')"
    by (auto dest: text_of_prefix)
  from 5(1)[OF this(2) members_end members_end]
  have "d = e" "render_members False ms @ ''}'' @ r = render_members False ms2 @ ''}'' @ r'" by simp_all
  with 5(2)[OF this(2)] k m show ?case by simp
qed

end
