(* ===== verification/Codec_Records.thy ===== *)
theory Codec_Records
  imports Codec_Emit Job_Lifecycle
begin

text \<open>
  What the emitter of \<^verbatim>\<open>src/journal/record_codec.cpp\<close> promises the journal: two different valid
  events have different records, a record is one line, and the records of the events that the
  reducer decides stay within the size limit.
\<close>

section \<open>The events without violation\<close>

lemma PayloadViolation_flat:
  "PayloadViolation e = None \<longleftrightarrow> PayloadMatches (lje_event_type e) (lje_payload e) \<and>
     (case lje_payload e of
        JobCreatedPayload session \<Rightarrow> IsUuid (uuid_value session) CHR ''7''
      | ResourcesCommittedPayload alloc digest schema version text \<Rightarrow>
          IsStable (stable_value alloc) \<and> IsDigest (digest_value digest)
          \<and> IsStable (stable_value schema) \<and> version \<noteq> 0
          \<and> length text \<le> 65536 \<and> Utf8CodePoints text \<noteq> None
      | WorkerLaunchIntentPayload operation application version bundle alloc digest worker \<Rightarrow>
          IsStable (stable_value operation) \<and> IsStable (stable_value application)
          \<and> BoundedText version 128 \<and> IsDigest (digest_value bundle)
          \<and> IsStable (stable_value alloc) \<and> IsDigest (digest_value digest)
          \<and> IsUuid (uuid_value worker) CHR ''4''
      | WorkerLaunchObservedPayload operation started \<Rightarrow> IsStable (stable_value operation)
      | WorkerRunningPayload worker \<Rightarrow> IsUuid (uuid_value worker) CHR ''4''
      | PrincipalPayload subject \<Rightarrow> BoundedText subject 256
      | TimeoutExpiredPayload phase generation \<Rightarrow> NameOf phase phase_names \<noteq> None \<and> generation \<noteq> 0
      | WorkerEventPayload worker sequence \<Rightarrow> IsUuid (uuid_value worker) CHR ''4'' \<and> sequence \<noteq> 0
      | ProcessExitConfirmedPayload mode operation \<Rightarrow>
          NameOf mode completion_mode_names \<noteq> None \<and> IsStable (stable_value operation)
      | SessionPayload session \<Rightarrow> IsUuid (uuid_value session) CHR ''7''
      | TerminalOutcomePayload outcome \<Rightarrow> NameOf outcome outcome_names \<noteq> None
      | ResourcesReleasedPayload alloc digest \<Rightarrow>
          IsStable (stable_value alloc) \<and> IsDigest (digest_value digest)
      | CleanupStatusPayload status \<Rightarrow> NameOf status cleanup_names \<noteq> None
      | LateWorkerEventPayload original worker sequence \<Rightarrow>
          NameOf original late_original_names \<noteq> None
          \<and> IsUuid (uuid_value worker) CHR ''4'' \<and> sequence \<noteq> 0
      | EmptyPayload \<Rightarrow> True)"
  by (cases "lje_event_type e"; cases "lje_payload e")
    (simp_all add: PayloadViolation_def IsUuid_codec_eq IsSha256_eq IsStableId_eq
      max_version_chars_def max_principal_chars_def max_allocation_text_bytes_def not_less)

lemma names_inject:
  "NameOf p phase_names \<noteq> None \<Longrightarrow> NameOf p' phase_names \<noteq> None \<Longrightarrow>
     ValidatedName p phase_names = ValidatedName p' phase_names \<Longrightarrow> p = p'"
  "NameOf m completion_mode_names \<noteq> None \<Longrightarrow> NameOf m' completion_mode_names \<noteq> None \<Longrightarrow>
     ValidatedName m completion_mode_names = ValidatedName m' completion_mode_names \<Longrightarrow> m = m'"
  "NameOf r outcome_names \<noteq> None \<Longrightarrow> NameOf r' outcome_names \<noteq> None \<Longrightarrow>
     ValidatedName r outcome_names = ValidatedName r' outcome_names \<Longrightarrow> r = r'"
  "NameOf c cleanup_names \<noteq> None \<Longrightarrow> NameOf c' cleanup_names \<noteq> None \<Longrightarrow>
     ValidatedName c cleanup_names = ValidatedName c' cleanup_names \<Longrightarrow> c = c'"
  "NameOf l late_original_names \<noteq> None \<Longrightarrow> NameOf l' late_original_names \<noteq> None \<Longrightarrow>
     ValidatedName l late_original_names = ValidatedName l' late_original_names \<Longrightarrow> l = l'"
  by (auto simp: name_tables ValidatedName_def split: if_splits)

lemma EventTypeOf_name:
  "EventTypeOf (EventType_ToString t) = (if t = EventType.kInvalid then None else Some t)"
  by (cases t) (simp_all add: EventTypeOf_def closed_event_types_def)

lemma EventType_names:
  assumes "EventType_ToString t = EventType_ToString t'"
  shows "t = t'"
proof -
  have "(if t = EventType.kInvalid then None else Some t)
      = (if t' = EventType.kInvalid then None else Some t')"
    by (simp only: EventTypeOf_name[symmetric] assms)
  then show ?thesis by (simp split: if_splits)
qed

lemma value_inject [simp]:
  "uuid_value u = uuid_value u' \<longleftrightarrow> u = u'" "stable_value s = stable_value s' \<longleftrightarrow> s = s'"
  "digest_value d = digest_value d' \<longleftrightarrow> d = d'"
  by (auto intro: Uuid.expand StableId.expand Digest.expand)

lemma unat_widen [simp]: "unat (ucast (v :: u32) :: u64) = unat v"
proof -
  have "unat v < 2 ^ 32" using unsigned_less[of v, where 'a=nat] by simp
  then have "unat v < 2 ^ 64" by simp
  then show ?thesis by (simp add: unsigned_ucast_eq take_bit_nat_eq_self)
qed

lemma widen_inject [simp]: "(ucast (v :: u32) :: u64) = ucast v' \<longleftrightarrow> v = v'"
  by (metis unat_widen word_unat_eq_iff)

lemma payload_doc_inject:
  assumes "PayloadViolation e = None" "PayloadViolation e' = None"
    "lje_event_type e = lje_event_type e'" "payload_doc (lje_payload e) = payload_doc (lje_payload e')"
  shows "lje_payload e = lje_payload e'"
proof -
  note v = assms(1,2)[unfolded PayloadViolation_flat]
  from v have m: "PayloadMatches (lje_event_type e) (lje_payload e)"
    "PayloadMatches (lje_event_type e) (lje_payload e')" by (simp_all add: assms(3))
  from m(1) show ?thesis
    by (cases rule: PayloadMatches_cases; cases "lje_payload e'")
      (use m v assms(4) in \<open>simp_all add: payload_doc_def names_inject
         split: if_splits\<close>)
qed
section \<open>Distinct events have distinct records\<close>

lemma Violation_None:
  assumes "Violation e = None"
  shows "lje_schema_version e = 1" "lje_sequence e \<noteq> 0" "IsRfc3339 (lje_recorded_at e)"
    "IsUuid (uuid_value (lje_job_id e)) CHR ''7''" "PayloadViolation e = None"
    "PayloadMatches (lje_event_type e) (lje_payload e)"
  using assms by (auto simp: Violation_def IsUuid_codec_eq PayloadViolation_flat split: if_splits)

lemma Emit_prefix:
  assumes "Violation e = None" "Violation e' = None" "Emit e @ r = Emit e' @ r'"
  shows "e = e' \<and> r = r'"
proof -
  note v = Violation_None[OF assms(1)] and v' = Violation_None[OF assms(2)]
  have "render (event_doc e) @ LF # r = render (event_doc e') @ LF # r'"
    using assms(3) v(6) v'(6) by (simp add: Emit_render)
  then have d: "event_doc e = event_doc e'" and r: "r = r'"
    using render_prefix(1)[of "event_doc e" "LF # r" "event_doc e'" "LF # r'"] by simp_all
  have t: "lje_event_type e = lje_event_type e'" "payload_doc (lje_payload e) = payload_doc (lje_payload e')"
    using d EventType_names by (simp_all add: event_doc_def)
  have "lje_payload e = lje_payload e'"
    using payload_doc_inject[OF v(5) v'(5) t] .
  with d t(1) r show ?thesis by (simp add: event_doc_def)
qed

lemma EncodeRecord_encoded:
  "enc_status (EncodeRecord e) = EncodeStatus.kEncoded \<longleftrightarrow>
     Violation e = None \<and> length (Emit e) \<le> max_record_bytes"
  by (auto simp: EncodeRecord_def Let_def split: option.split)

lemma EncodeRecord_bytes:
  "enc_status (EncodeRecord e) = EncodeStatus.kEncoded \<Longrightarrow> enc_bytes (EncodeRecord e) = Emit e"
  by (auto simp: EncodeRecord_def Let_def split: option.splits if_splits)

lemma render_one_line: "LF \<notin> set (render d)" "LF \<notin> set (render_members f ms)"
proof -
  have "LF \<notin> set (to_string v)" for v using dec_digits[of LF "unat v"] by (auto simp: to_string_def)
  then show "LF \<notin> set (render d)" "LF \<notin> set (render_members f ms)"
    using text_of_one_line by (induction d and f ms rule: render_render_members.induct) auto
qed

lemma Emit_line:
  assumes "PayloadMatches (lje_event_type e) (lje_payload e)"
  obtains body where "Emit e = body @ [LF]" "LF \<notin> set body"
  using Emit_render[OF assms] render_one_line(1) by blast

section \<open>The size of a record\<close>

fun weight :: "doc \<Rightarrow> nat" and weight_members :: "(string \<times> doc) list \<Rightarrow> nat" where
  "weight (DNum v) = 20"
| "weight (DStr s) = 6 * length s + 2"
| "weight (DObj ms) = 2 + weight_members ms"
| "weight_members [] = 0"
| "weight_members ((k, d) # ms) = 6 * length k + 4 + weight d + weight_members ms"

lemma render_weight:
  "length (render d) \<le> weight d" "length (render_members f ms) \<le> weight_members ms"
proof (induction d and f ms rule: render_render_members.induct)
  case (5 f k d ms)
  then show ?case using text_of_length[of k] by simp
qed (use to_string_length text_of_length in simp_all)

lemma utf8_lead_length: "utf8_lead lead = Some (n, lo, hi) \<Longrightarrow> n \<le> 4"
  by (auto simp: utf8_lead_def split: if_splits)

lemma utf8_points_length: "utf8_points s i c = Some n \<Longrightarrow> i \<le> length s \<Longrightarrow> length s \<le> i + 4 * (n - c) \<and> c \<le> n"
proof (induction s i c rule: utf8_points.induct)
  case (1 s i c)
  show ?case
  proof (cases "i < length s")
    case True
    obtain m lo hi where u: "utf8_lead (byte (s ! i)) = Some (m, lo, hi)" "\<not> i + m > length s"
      "utf8_continues s i m lo hi" "utf8_points s (i + m) (c + 1) = Some n"
      using 1(2) True by (auto simp: utf8_points.simps[of s i c] split: option.splits if_splits)
    have "length s \<le> i + m + 4 * (n - (c + 1)) \<and> c + 1 \<le> n"
      using 1(1)[OF True u(1) refl refl u(2,3)] u(2,4) by simp
    then show ?thesis using utf8_lead_length[OF u(1)] by linarith
  next
    case False
    then have "utf8_points s i c = Some c" by (simp add: utf8_points.simps[of s i c])
    then show ?thesis using 1(2,3) False by simp
  qed
qed

lemma lengths:
  "IsUuid s v \<Longrightarrow> length s = 36" "IsDigest s \<Longrightarrow> length s = 64" "IsStable s \<Longrightarrow> length s \<le> 128"
  "BoundedText s n \<Longrightarrow> length s \<le> 4 * n"
proof -
  show "BoundedText s n \<Longrightarrow> length s \<le> 4 * n"
    using utf8_points_length[of s 0 0]
    by (fastforce simp: BoundedText_def Utf8CodePoints_def split: option.splits)
qed (auto simp: IsUuid_def IsDigest_def IsStable_def split: if_splits)
lemma name_lengths:
  "length (ValidatedName p phase_names) \<le> 26" "length (ValidatedName m completion_mode_names) \<le> 26"
  "length (ValidatedName r outcome_names) \<le> 26" "length (ValidatedName c cleanup_names) \<le> 26"
  "length (ValidatedName l late_original_names) \<le> 26" "length (EventType_ToString t) \<le> 26"
proof -
  show "length (EventType_ToString t) \<le> 26" by (cases t) simp_all
qed (simp_all add: name_tables ValidatedName_def)

lemma payload_weight:
  assumes "PayloadViolation e = None"
  shows "weight (payload_doc (lje_payload e)) \<le> 420000"
proof -
  note v = assms[unfolded PayloadViolation_flat]
  from v have "PayloadMatches (lje_event_type e) (lje_payload e)" by simp
  then show ?thesis
  proof (cases rule: PayloadMatches_cases)
    case (timeout ph g)
    then show ?thesis using name_lengths(1)[of ph] by (simp add: payload_doc_def)
  next
    case (exited m l)
    then show ?thesis using v name_lengths(2)[of m] lengths(3)[of "stable_value l"]
      by (simp add: payload_doc_def)
  next
    case (outcome r)
    then show ?thesis using name_lengths(3)[of r] by (simp add: payload_doc_def)
  next
    case (cleanup c)
    then show ?thesis using name_lengths(4)[of c] by (simp add: payload_doc_def)
  next
    case (late l w n)
    then show ?thesis using v name_lengths(5)[of l] lengths(1)[of "uuid_value w"]
      by (auto simp: payload_doc_def)
  qed (use v in \<open>auto simp: payload_doc_def dest!: lengths\<close>)
qed

lemma Emit_length:
  assumes "Violation e = None" "length (lje_recorded_at e) \<le> 1000"
  shows "length (Emit e) \<le> max_record_bytes"
proof -
  note v = Violation_None[OF assms(1)]
  have "length (Emit e) \<le> weight (event_doc e) + 1"
    using Emit_render[OF v(6)] render_weight(1)[of "event_doc e"] by simp
  also have "\<dots> \<le> 430000"
    using payload_weight[OF v(5)] name_lengths(6)[of "lje_event_type e"] assms(2) lengths(1)[OF v(4)]
    by (simp add: event_doc_def)
  finally show ?thesis by (simp add: max_record_bytes_def)
qed
section \<open>What the codec promises the journal\<close>

text \<open>The event that the writer builds around an accepted proposal, with its sequence filled in.\<close>

definition Envelope :: "PreEnvelopeProposal \<Rightarrow> u64 \<Rightarrow> string \<Rightarrow> LogicalJobEvent" where
  "Envelope p sequence recorded_at =
     \<lparr>lje_schema_version = 1, lje_sequence = sequence, lje_event_type = pp_event_type p,
      lje_recorded_at = recorded_at, lje_job_id = pp_job_id p, lje_payload = pp_payload p\<rparr>"

text \<open>\<open>encodes\<close>: the codec accepts the event; \<open>record_of\<close>: its record.\<close>

definition encodes :: "LogicalJobEvent \<Rightarrow> bool" where
  "encodes e \<longleftrightarrow> enc_status (EncodeRecord e) = EncodeStatus.kEncoded"

definition record_of :: "LogicalJobEvent \<Rightarrow> string" where
  "record_of e = enc_bytes (EncodeRecord e)"

lemma encodes_facts:
  assumes "encodes e"
  shows "Violation e = None" "record_of e = Emit e" "length (Emit e) \<le> max_record_bytes"
  using assms EncodeRecord_encoded EncodeRecord_bytes by (auto simp: encodes_def record_of_def)

lemma record_line:
  assumes "encodes e"
  obtains body where "record_of e = body @ [LF]" "LF \<notin> set body"
  using Emit_line[OF Violation_None(6)[OF encodes_facts(1)[OF assms]]] encodes_facts(2)[OF assms] by metis

text \<open>
  C27. The text of a journal determines its events: two sequences of encodable events whose
  concatenated records are the same text are the same sequence.
\<close>

theorem journal_text_determines_events:
  assumes "list_all encodes es" "list_all encodes es'"
    "concat (map record_of es) = concat (map record_of es')"
  shows "es = es'"
  using assms
proof (induction es arbitrary: es')
  case Nil
  then show ?case by (cases es') (auto elim: record_line)
next
  case (Cons e es)
  obtain f fs where f: "es' = f # fs"
    using Cons.prems by (cases es') (auto elim: record_line)
  have "Emit e @ concat (map record_of es) = Emit f @ concat (map record_of fs)"
    using Cons.prems f by (simp add: encodes_facts(2))
  with Cons.prems f have "e = f" "concat (map record_of es) = concat (map record_of fs)"
    using Emit_prefix[of e f] encodes_facts(1) by auto
  with Cons.IH[of fs] Cons.prems(1,2) f show ?case by simp
qed

text \<open>
  C28. A record is one line: it ends in a line feed, holds no other one whatever bytes the event
  carries, and is at most \<open>max_record_bytes\<close> long.
\<close>

theorem record_is_one_line:
  assumes "encodes e"
  shows "\<exists>body. record_of e = body @ [LF] \<and> LF \<notin> set body \<and> length (record_of e) \<le> max_record_bytes"
  using record_line[OF assms] encodes_facts(2,3)[OF assms] by metis

text \<open>
  C29. The writer never commits a proposal that the journal cannot encode: if the reducer accepts
  the proposal, then for a non-zero sequence and an RFC 3339 time of at most 1000 bytes its
  envelope has no schema violation and stays below the size limit.
\<close>

theorem accepted_proposals_encode:
  assumes "ar_rejection (Apply L s p) = None" "rejects_invalid_utf8 L" "n \<noteq> 0"
    "IsRfc3339 at" "length at \<le> 1000"
  shows "EncodeRecord (Envelope p n at) =
    \<lparr>enc_status = EncodeStatus.kEncoded, enc_bytes = Emit (Envelope p n at), enc_detail = []\<rparr>"
proof -
  have w: "well_formed L s p"
    using accepted_iff_transition[of L s p "ar_snapshot (Apply L s p)" "ar_effects (Apply L s p)"] assms(1) by simp
  then have "PayloadViolation (Envelope p n at) = None"
    using PayloadViolation_None[of L "Envelope p n at" "job_id s"] assms(2)
    by (simp add: well_formed_def Envelope_def)
  moreover have "IsUuid (uuid_value (pp_job_id p)) CHR ''7''"
    using w by (simp add: well_formed_def snapshot_defs)
  ultimately have v: "Violation (Envelope p n at) = None"
    using assms(3,4) by (simp add: Violation_def Envelope_def IsUuid_codec_eq)
  then show ?thesis
    using Emit_length[OF v] assms(5) by (simp add: EncodeRecord_def Let_def Envelope_def)
qed

section \<open>Witnesses\<close>

text \<open>A parser that reads every UTF-8 text as the empty object.\<close>

definition utf8_libs :: libs where
  "utf8_libs = \<lparr>json_parse = (\<lambda>text. if Utf8CodePoints text = None then None else Some (JObject [])),
     sha256 = (\<lambda>bytes. replicate 64 CHR ''a'')\<rparr>"

definition sample_event :: LogicalJobEvent where
  "sample_event = Envelope sample_created_proposal 1 ''2026-01-02T03:04:05Z''"

lemma sample_event_encodes: "encodes sample_event"
proof -
  have v: "Violation sample_event = None" by code_simp
  have r: "length (lje_recorded_at sample_event) \<le> 1000" by code_simp
  show "encodes sample_event"
    using v Emit_length[OF v r] by (simp add: encodes_def EncodeRecord_encoded)
qed

theorem journal_text_determines_events_witness:
  "list_all encodes [sample_event] \<and> list_all encodes [sample_event, sample_event]
   \<and> concat (map record_of [sample_event]) \<noteq> concat (map record_of [sample_event, sample_event])"
  using journal_text_determines_events[of "[sample_event]" "[sample_event, sample_event]"]
    sample_event_encodes by auto

theorem record_is_one_line_witness:
  "encodes sample_event \<and> (\<exists>body. record_of sample_event = body @ [LF] \<and> LF \<notin> set body
     \<and> length (record_of sample_event) \<le> max_record_bytes)"
  using record_is_one_line[OF sample_event_encodes] sample_event_encodes by simp

theorem accepted_proposals_encode_witness:
  "rejects_invalid_utf8 utf8_libs
   \<and> ar_rejection (Apply utf8_libs (initial sample_job) sample_created_proposal) = None
   \<and> enc_status (EncodeRecord (Envelope sample_created_proposal 1 ''2026-01-02T03:04:05Z''))
     = EncodeStatus.kEncoded"
proof -
  have a: "ar_rejection (Apply utf8_libs (initial sample_job) sample_created_proposal) = None" by code_simp
  have u: "rejects_invalid_utf8 utf8_libs" by (simp add: rejects_invalid_utf8_def utf8_libs_def)
  have t: "IsRfc3339 ''2026-01-02T03:04:05Z''" by code_simp
  show ?thesis using a u accepted_proposals_encode[OF a u _ t, of 1] by simp
qed

end
