(* ===== verification/Codec_Decode.thy ===== *)
theory Codec_Decode
  imports Codec_Records "HOL-Library.State_Monad"
begin

text \<open>
  The decoder of \<^verbatim>\<open>src/journal/record_codec.cpp\<close> (\<^verbatim>\<open>struct Reader\<close>, \<^verbatim>\<open>PayloadFromJson\<close>,
  \<^verbatim>\<open>EventFromJson\<close>, \<^verbatim>\<open>DecodeRecord\<close>). A reader is a state that keeps its first error; its methods
  are actions of the state monad. The theory shows that the decoder accepts only what the encoder
  writes, and that it reads back every event the encoder accepts.
\<close>

section \<open>The reader\<close>

record Reader =
  rd_object :: json
  rd_expected :: nat
  rd_error :: string

datatype value_t = kString | kNumberUnsigned | kObject

definition has_type :: "value_t \<Rightarrow> json \<Rightarrow> bool" where
  "has_type t j =
     (case j of
        JString _ \<Rightarrow> t = value_t.kString
      | JUnsigned _ \<Rightarrow> t = value_t.kNumberUnsigned
      | JObject _ \<Rightarrow> t = value_t.kObject
      | _ \<Rightarrow> False)"

definition json_size :: "json \<Rightarrow> nat" where
  "json_size j = (case j of JObject ms \<Rightarrow> length ms | JArray js \<Rightarrow> length js | JNull \<Rightarrow> 0 | _ \<Rightarrow> 1)"

type_synonym 'a reader = "(Reader, 'a) state"

definition Reader_Ok :: "bool reader" where
  "Reader_Ok = State (\<lambda>r. (rd_error r = [], r))"

definition Reader_Fail :: "string \<Rightarrow> bool reader" where
  "Reader_Fail message =
     State (\<lambda>r. (False, if rd_error r = [] then r\<lparr>rd_error := message\<rparr> else r))"

definition Reader_Get :: "string \<Rightarrow> value_t \<Rightarrow> json option reader" where
  "Reader_Get key type = do {
     ok \<leftarrow> Reader_Ok;
     if \<not> ok then State_Monad.return None
     else do {
       r \<leftarrow> State_Monad.get;
       (case json_member (rd_object r) key of
          None \<Rightarrow> do { _ \<leftarrow> Reader_Fail (key @ '' is missing''); State_Monad.return None }
        | Some v \<Rightarrow>
            if \<not> has_type type v
            then do { _ \<leftarrow> Reader_Fail (key @ '' has the wrong type''); State_Monad.return None }
            else State_Monad.return (Some v)) } }"

definition Reader_Str :: "string \<Rightarrow> string reader" where
  "Reader_Str key = do {
     v \<leftarrow> Reader_Get key value_t.kString;
     State_Monad.return (case v of Some (JString s) \<Rightarrow> s | _ \<Rightarrow> []) }"

definition Reader_U64 :: "string \<Rightarrow> u64 reader" where
  "Reader_U64 key = do {
     v \<leftarrow> Reader_Get key value_t.kNumberUnsigned;
     State_Monad.return (case v of Some (JUnsigned n) \<Rightarrow> n | _ \<Rightarrow> 0) }"

definition Reader_U32 :: "string \<Rightarrow> u32 reader" where
  "Reader_U32 key = do {
     v \<leftarrow> Reader_U64 key;
     ok \<leftarrow> Reader_Ok;
     if ok \<and> v > 0xFFFFFFFF
     then do { _ \<leftarrow> Reader_Fail (key @ '' exceeds 32 bits''); State_Monad.return 0 }
     else State_Monad.return (ucast v) }"

definition CheckMemberCount :: "bool reader" where
  "CheckMemberCount = do {
     r \<leftarrow> State_Monad.get;
     ok \<leftarrow> Reader_Ok;
     if ok \<and> json_size (rd_object r) \<noteq> rd_expected r then Reader_Fail ''unexpected member''
     else Reader_Ok }"

definition ClosedValue :: "string \<Rightarrow> ('e \<times> string) list \<Rightarrow> 'e \<Rightarrow> 'e reader" where
  "ClosedValue key t invalid = do {
     name \<leftarrow> Reader_Str key;
     ok \<leftarrow> Reader_Ok;
     if \<not> ok then State_Monad.return invalid
     else (case ValueOf name t of
             None \<Rightarrow> do { _ \<leftarrow> Reader_Fail (key @ '' is not a closed value''); State_Monad.return invalid }
           | Some v \<Rightarrow> State_Monad.return v) }"

section \<open>Payloads\<close>

text \<open>
  The lambda \<^verbatim>\<open>make\<close> of \<^verbatim>\<open>PayloadFromJson\<close>: it runs the given actions on a fresh reader and then
  checks the number of members. An error message is \<open>Inl\<close>.
\<close>

definition make_payload :: "json \<Rightarrow> nat \<Rightarrow> EventPayload reader \<Rightarrow> string + EventPayload" where
  "make_payload payload members build =
     (let (result, r) = run_state build \<lparr>rd_object = payload, rd_expected = members, rd_error = []\<rparr>;
          (counted, r') = run_state CheckMemberCount r
      in if \<not> counted then Inl (rd_error r') else Inr result)"

text \<open>\<open>nested_reader\<close>: a reader of a nested object, whose error the outer one takes over.\<close>

definition nested_reader :: "string \<Rightarrow> 'a \<Rightarrow> 'a reader \<Rightarrow> 'a reader" where
  "nested_reader key unset build = do {
     nested \<leftarrow> Reader_Get key value_t.kObject;
     (case nested of
        None \<Rightarrow> State_Monad.return unset
      | Some object \<Rightarrow>
          (let (v, n) = run_state build \<lparr>rd_object = object, rd_expected = 3, rd_error = []\<rparr>;
               (counted, n') = run_state CheckMemberCount n
           in if \<not> counted
              then do { _ \<leftarrow> Reader_Fail (key @ ''.'' @ rd_error n'); State_Monad.return v }
              else State_Monad.return v)) }"

definition read_resources_committed :: "EventPayload reader" where
  "read_resources_committed = do {
     allocation_id \<leftarrow> Reader_Str ''allocation_id'';
     allocation_digest \<leftarrow> Reader_Str ''allocation_digest'';
     (schema_id, schema_version, payload_utf8) \<leftarrow> nested_reader ''resolved_allocation'' ([], 0, []) (do {
       i \<leftarrow> Reader_Str ''schema_id'';
       v \<leftarrow> Reader_U32 ''schema_version'';
       p \<leftarrow> Reader_Str ''payload_utf8'';
       State_Monad.return (i, v, p) });
     State_Monad.return (ResourcesCommittedPayload (StableId allocation_id) (Digest allocation_digest)
       (StableId schema_id) schema_version payload_utf8) }"

definition read_worker_launch_intent :: "EventPayload reader" where
  "read_worker_launch_intent = do {
     operation_id \<leftarrow> Reader_Str ''operation_id'';
     (application_id, application_version, bundle_sha256) \<leftarrow> nested_reader ''application'' ([], [], []) (do {
       i \<leftarrow> Reader_Str ''application_id'';
       v \<leftarrow> Reader_Str ''version'';
       b \<leftarrow> Reader_Str ''bundle_sha256'';
       State_Monad.return (i, v, b) });
     allocation_id \<leftarrow> Reader_Str ''allocation_id'';
     allocation_digest \<leftarrow> Reader_Str ''allocation_digest'';
     worker_id \<leftarrow> Reader_Str ''worker_id'';
     State_Monad.return (WorkerLaunchIntentPayload (StableId operation_id) (StableId application_id)
       application_version (Digest bundle_sha256) (StableId allocation_id) (Digest allocation_digest)
       (Uuid worker_id)) }"

definition read_worker_launch_observed :: "EventPayload reader" where
  "read_worker_launch_observed = do {
     operation_id \<leftarrow> Reader_Str ''operation_id'';
     outcome \<leftarrow> Reader_Str ''outcome'';
     ok \<leftarrow> Reader_Ok;
     _ \<leftarrow> (if ok \<and> outcome \<noteq> ''started'' \<and> outcome \<noteq> ''failed''
           then Reader_Fail ''outcome is not a closed value'' else Reader_Ok);
     State_Monad.return (WorkerLaunchObservedPayload (StableId operation_id) (outcome = ''started'')) }"

definition read_worker_event :: "EventPayload reader" where
  "read_worker_event = do {
     worker_id \<leftarrow> Reader_Str ''worker_id'';
     event_sequence \<leftarrow> Reader_U64 ''event_sequence'';
     State_Monad.return (WorkerEventPayload (Uuid worker_id) event_sequence) }"

definition read_session :: "(Uuid \<Rightarrow> EventPayload) \<Rightarrow> EventPayload reader" where
  "read_session con = do {
     session_id \<leftarrow> Reader_Str ''session_id'';
     State_Monad.return (con (Uuid session_id)) }"

definition read_principal :: "EventPayload reader" where
  "read_principal = do {
     subject \<leftarrow> Reader_Str ''principal_subject'';
     State_Monad.return (PrincipalPayload subject) }"

definition read_late_worker_event :: "EventPayload reader" where
  "read_late_worker_event = do {
     original \<leftarrow> ClosedValue ''original_event_type'' late_original_names EventType.kInvalid;
     worker_id \<leftarrow> Reader_Str ''worker_id'';
     event_sequence \<leftarrow> Reader_U64 ''event_sequence'';
     State_Monad.return (LateWorkerEventPayload original (Uuid worker_id) event_sequence) }"

definition PayloadFromJson :: "EventType \<Rightarrow> json \<Rightarrow> string + EventPayload" where
  "PayloadFromJson type payload =
     (if \<not> is_object payload then Inl ''payload is not an object''
      else case type of
        EventType.kJobCreated \<Rightarrow> make_payload payload 1 (read_session JobCreatedPayload)
      | EventType.kResourcesCommitted \<Rightarrow> make_payload payload 3 read_resources_committed
      | EventType.kWorkerLaunchIntent \<Rightarrow> make_payload payload 5 read_worker_launch_intent
      | EventType.kWorkerLaunchObserved \<Rightarrow> make_payload payload 2 read_worker_launch_observed
      | EventType.kWorkerRunning \<Rightarrow> make_payload payload 1 (do {
          worker_id \<leftarrow> Reader_Str ''worker_id'';
          State_Monad.return (WorkerRunningPayload (Uuid worker_id)) })
      | EventType.kCancelAccepted \<Rightarrow> make_payload payload 1 read_principal
      | EventType.kTerminateAccepted \<Rightarrow> make_payload payload 1 read_principal
      | EventType.kTimeoutExpired \<Rightarrow> make_payload payload 2 (do {
          phase \<leftarrow> ClosedValue ''phase'' phase_names TimeoutPhase.kInvalid;
          generation \<leftarrow> Reader_U64 ''timer_generation'';
          State_Monad.return (TimeoutExpiredPayload phase generation) })
      | EventType.kWorkerCompleted \<Rightarrow> make_payload payload 2 read_worker_event
      | EventType.kWorkerFailed \<Rightarrow> make_payload payload 2 read_worker_event
      | EventType.kProcessExitConfirmed \<Rightarrow> make_payload payload 2 (do {
          mode \<leftarrow> ClosedValue ''completion_mode'' completion_mode_names CompletionMode.kInvalid;
          operation \<leftarrow> Reader_Str ''launch_operation_id'';
          State_Monad.return (ProcessExitConfirmedPayload mode (StableId operation)) })
      | EventType.kSessionRetainRequested \<Rightarrow> make_payload payload 1 (read_session SessionPayload)
      | EventType.kSessionRetained \<Rightarrow> make_payload payload 1 (read_session SessionPayload)
      | EventType.kFinalizationCompleted \<Rightarrow> make_payload payload 0 (State_Monad.return EmptyPayload)
      | EventType.kFinalizationFailed \<Rightarrow> make_payload payload 0 (State_Monad.return EmptyPayload)
      | EventType.kTerminalOutcomeCommitted \<Rightarrow> make_payload payload 1 (do {
          outcome \<leftarrow> ClosedValue ''outcome'' outcome_names TerminalOutcome.kInvalid;
          State_Monad.return (TerminalOutcomePayload outcome) })
      | EventType.kResourcesReleased \<Rightarrow> make_payload payload 2 (do {
          allocation_id \<leftarrow> Reader_Str ''allocation_id'';
          allocation_digest \<leftarrow> Reader_Str ''allocation_digest'';
          State_Monad.return
            (ResourcesReleasedPayload (StableId allocation_id) (Digest allocation_digest)) })
      | EventType.kCleanupStatusRecorded \<Rightarrow> make_payload payload 1 (do {
          status \<leftarrow> ClosedValue ''status'' cleanup_names CleanupStatus.kInvalid;
          State_Monad.return (CleanupStatusPayload status) })
      | EventType.kLateWorkerEvent \<Rightarrow> make_payload payload 3 read_late_worker_event
      | EventType.kInvalid \<Rightarrow> Inl ''event_type is not a closed value'')"

section \<open>Records\<close>

definition envelope_members :: nat where
  "envelope_members = 6"

definition read_envelope :: "(u32 \<times> u64 \<times> string \<times> string \<times> string \<times> json option) reader" where
  "read_envelope = do {
     schema_version \<leftarrow> Reader_U32 ''schema_version'';
     sequence \<leftarrow> Reader_U64 ''sequence'';
     type_name \<leftarrow> Reader_Str ''event_type'';
     recorded_at \<leftarrow> Reader_Str ''recorded_at'';
     job_id \<leftarrow> Reader_Str ''job_id'';
     payload \<leftarrow> Reader_Get ''payload'' value_t.kObject;
     State_Monad.return (schema_version, sequence, type_name, recorded_at, job_id, payload) }"

text \<open>
  The source dereferences \<^verbatim>\<open>payload\<close> only after \<^verbatim>\<open>CheckMemberCount\<close> succeeded, when it is not null;
  the model has the reader's error for the null pointer.
\<close>

definition EventFromJson :: "json \<Rightarrow> string + LogicalJobEvent" where
  "EventFromJson j =
     (if \<not> is_object j then Inl ''record is not an object''
      else
        (let ((version, sequence, type_name, recorded_at, job, payload), r) =
               run_state read_envelope \<lparr>rd_object = j, rd_expected = envelope_members, rd_error = []\<rparr>;
             (counted, r') = run_state CheckMemberCount r
         in if \<not> counted then Inl (rd_error r')
            else case EventTypeOf type_name of
              None \<Rightarrow> Inl ''event_type is not a closed value''
            | Some type \<Rightarrow>
                (case (case payload of None \<Rightarrow> Inl (rd_error r') | Some p \<Rightarrow> PayloadFromJson type p) of
                   Inl e \<Rightarrow> Inl e
                 | Inr q \<Rightarrow> Inr
                     \<lparr>lje_schema_version = version, lje_sequence = sequence, lje_event_type = type,
                      lje_recorded_at = recorded_at, lje_job_id = Uuid job, lje_payload = q\<rparr>)))"

datatype DecodeStatus = kDecoded | kOversize | kMalformedJson | kSchemaViolation | kNonCanonical

text \<open>\<^verbatim>\<open>struct DecodedRecord\<close>; its event is valid only when the status is \<^verbatim>\<open>kDecoded\<close>.\<close>

record DecodedRecord =
  dec_status :: DecodeStatus
  dec_event :: "LogicalJobEvent option"
  dec_detail :: string

definition undecoded :: "DecodeStatus \<Rightarrow> string \<Rightarrow> DecodedRecord" where
  "undecoded status detail = \<lparr>dec_status = status, dec_event = None, dec_detail = detail\<rparr>"

definition DecodeRecord :: "libs \<Rightarrow> string \<Rightarrow> DecodedRecord" where
  "DecodeRecord L rec =
     (if length rec > max_record_bytes
      then undecoded DecodeStatus.kOversize (''record is '' @ dec (length rec) @ '' bytes'')
      else if rec = [] \<or> last rec \<noteq> LF
      then undecoded DecodeStatus.kMalformedJson ''record does not end with LF''
      else let body = butlast rec
      in if List.member body LF
      then undecoded DecodeStatus.kMalformedJson ''record spans more than one line''
      else case json_parse L body of
        None \<Rightarrow> undecoded DecodeStatus.kMalformedJson ''record is not valid JSON''
      | Some j \<Rightarrow>
          (case EventFromJson j of
             Inl e \<Rightarrow> undecoded DecodeStatus.kSchemaViolation e
           | Inr event \<Rightarrow>
               (case Violation event of
                  Some violation \<Rightarrow> undecoded DecodeStatus.kSchemaViolation violation
                | None \<Rightarrow>
                    if Emit event \<noteq> rec
                    then undecoded DecodeStatus.kNonCanonical
                      ''record is not the canonical encoding of its event''
                    else \<lparr>dec_status = DecodeStatus.kDecoded, dec_event = Some event, dec_detail = []\<rparr>)))"

section \<open>Reading back a document\<close>

text \<open>
  \<open>same_json\<close>: the JSON value holds what the document holds; the order of the members of an object
  is free, since \<^verbatim>\<open>nlohmann::json\<close> keeps them sorted by key.
\<close>

fun same_json :: "doc \<Rightarrow> json \<Rightarrow> bool"
  and same_members :: "(string \<times> doc) list \<Rightarrow> (string \<times> json) list \<Rightarrow> bool" where
  "same_json (DNum v) j \<longleftrightarrow> j = JUnsigned v"
| "same_json (DStr s) j \<longleftrightarrow> j = JString s"
| "same_json (DObj ms) j \<longleftrightarrow>
     (case j of JObject js \<Rightarrow> length js = length ms \<and> same_members ms js | _ \<Rightarrow> False)"
| "same_members [] js \<longleftrightarrow> True"
| "same_members ((k, d) # ms) js \<longleftrightarrow>
     (case map_of js k of Some j \<Rightarrow> same_json d j | None \<Rightarrow> False) \<and> same_members ms js"

text \<open>
  \<open>reads_back L d\<close>: the JSON parser reads the text of the document as a value with the same content.
\<close>

definition reads_back :: "libs \<Rightarrow> doc \<Rightarrow> bool" where
  "reads_back L d \<longleftrightarrow> (case json_parse L (render d) of Some j \<Rightarrow> same_json d j | None \<Rightarrow> False)"

lemma same_jsonE:
  "same_json (DObj ms) j \<Longrightarrow> \<exists>js. j = JObject js \<and> length js = length ms \<and> same_members ms js"
  by (cases j) simp_all

lemma same_member [simp]:
  "(case m of Some j \<Rightarrow> same_json (DStr s) j | None \<Rightarrow> False) \<longleftrightarrow> m = Some (JString s)"
  "(case m of Some j \<Rightarrow> same_json (DNum v) j | None \<Rightarrow> False) \<longleftrightarrow> m = Some (JUnsigned v)"
  by (auto split: option.split)

abbreviation fresh :: "json \<Rightarrow> nat \<Rightarrow> Reader" where
  "fresh j n \<equiv> \<lparr>rd_object = j, rd_expected = n, rd_error = []\<rparr>"

lemma json_member_JObject [simp]: "json_member (JObject js) k = map_of js k"
  by (simp add: json_member_def)

lemma Reader_Get_run [simp]:
  "json_member j k = Some v \<Longrightarrow> has_type t v \<Longrightarrow>
     run_state (Reader_Get k t) (fresh j n) = (Some v, fresh j n)"
  by (simp add: Reader_Get_def Reader_Ok_def)

lemma Reader_Str_run [simp]:
  "json_member j k = Some (JString s) \<Longrightarrow> run_state (Reader_Str k) (fresh j n) = (s, fresh j n)"
  by (simp add: Reader_Str_def has_type_def)

lemma Reader_U64_run [simp]:
  "json_member j k = Some (JUnsigned v) \<Longrightarrow> run_state (Reader_U64 k) (fresh j n) = (v, fresh j n)"
  by (simp add: Reader_U64_def has_type_def)

lemma ucast_narrow [simp]: "ucast (ucast (v :: u32) :: u64) = v"
  by (rule bit_word_eqI) (auto simp: bit_simps)

lemma Reader_U32_run [simp]:
  assumes "json_member j k = Some (JUnsigned (ucast (v :: u32)))"
  shows "run_state (Reader_U32 k) (fresh j n) = (v, fresh j n)"
proof -
  have "\<not> (ucast v :: u64) > 0xFFFFFFFF"
    using unsigned_less[of v, where 'a=nat] by (simp add: word_less_nat_alt)
  then show ?thesis using assms by (simp add: Reader_U32_def Reader_Ok_def)
qed

lemma CheckMemberCount_run [simp]:
  "run_state CheckMemberCount (fresh (JObject js) n) =
     (if length js = n then (True, fresh (JObject js) n)
      else (False, (fresh (JObject js) n)\<lparr>rd_error := ''unexpected member''\<rparr>))"
  by (simp add: CheckMemberCount_def Reader_Ok_def Reader_Fail_def json_size_def)

lemma ValueOf_name [simp]:
  "NameOf p phase_names \<noteq> None \<Longrightarrow> ValueOf (ValidatedName p phase_names) phase_names = Some p"
  "NameOf m completion_mode_names \<noteq> None \<Longrightarrow>
     ValueOf (ValidatedName m completion_mode_names) completion_mode_names = Some m"
  "NameOf r outcome_names \<noteq> None \<Longrightarrow> ValueOf (ValidatedName r outcome_names) outcome_names = Some r"
  "NameOf c cleanup_names \<noteq> None \<Longrightarrow> ValueOf (ValidatedName c cleanup_names) cleanup_names = Some c"
  "NameOf l late_original_names \<noteq> None \<Longrightarrow>
     ValueOf (ValidatedName l late_original_names) late_original_names = Some l"
  by (auto simp: name_tables ValidatedName_def split: if_splits)

lemma ClosedValue_run [simp]:
  "json_member j k = Some (JString s) \<Longrightarrow> ValueOf s t = Some v \<Longrightarrow>
     run_state (ClosedValue k t invalid) (fresh j n) = (v, fresh j n)"
  by (simp add: ClosedValue_def Reader_Ok_def)

lemma nested_reader_run [simp]:
  "json_member j k = Some (JObject js) \<Longrightarrow> length js = 3 \<Longrightarrow>
   run_state build (fresh (JObject js) 3) = (v, fresh (JObject js) 3) \<Longrightarrow>
     run_state (nested_reader k unset build) (fresh j n) = (v, fresh j n)"
  by (simp add: nested_reader_def has_type_def)

lemma make_run [simp]:
  "run_state build (fresh (JObject js) n) = (q, fresh (JObject js) n) \<Longrightarrow> length js = n \<Longrightarrow>
     make_payload (JObject js) n build = Inr q"
  by (simp add: make_payload_def)

lemmas readers = read_resources_committed_def read_worker_launch_intent_def
  read_worker_launch_observed_def read_worker_event_def read_session_def read_principal_def
  read_late_worker_event_def

lemma PayloadFromJson_same:
  assumes "PayloadViolation e = None" "same_json (payload_doc (lje_payload e)) j"
  shows "PayloadFromJson (lje_event_type e) j = Inr (lje_payload e)"
proof -
  note v = assms(1)[unfolded PayloadViolation_flat]
  obtain js where j: "j = JObject js"
    using assms(2) by (auto simp: payload_doc_def split: json.splits)
  from v have "PayloadMatches (lje_event_type e) (lje_payload e)" by simp
  then show ?thesis
  proof (cases rule: PayloadMatches_cases)
    case (resources a d i w x)
    then obtain rs where "map_of js ''resolved_allocation'' = Some (JObject rs)"
      using assms(2) j by (auto simp: payload_doc_def split: option.splits json.splits)
    then show ?thesis using resources v assms(2) j
      by (simp add: PayloadFromJson_def is_object_def payload_doc_def readers)
  next
    case (intent l p w b a d u)
    then obtain rs where "map_of js ''application'' = Some (JObject rs)"
      using assms(2) j by (auto simp: payload_doc_def split: option.splits json.splits)
    then show ?thesis using intent v assms(2) j
      by (simp add: PayloadFromJson_def is_object_def payload_doc_def readers)
  next
    case (observed l b)
    then show ?thesis using v assms(2) j
      by (simp add: PayloadFromJson_def is_object_def payload_doc_def readers Reader_Ok_def)
  qed (use v assms(2) j in \<open>simp_all add: PayloadFromJson_def is_object_def payload_doc_def readers\<close>)
qed
lemma EventFromJson_same:
  assumes "Violation e = None" "same_json (event_doc e) j"
  shows "EventFromJson j = Inr e"
proof -
  note v = Violation_None[OF assms(1)]
  obtain js where j: "j = JObject js" and l: "length js = 6"
    and m: "map_of js ''schema_version'' = Some (JUnsigned (ucast (lje_schema_version e)))"
      "map_of js ''sequence'' = Some (JUnsigned (lje_sequence e))"
      "map_of js ''event_type'' = Some (JString (EventType_ToString (lje_event_type e)))"
      "map_of js ''recorded_at'' = Some (JString (lje_recorded_at e))"
      "map_of js ''job_id'' = Some (JString (uuid_value (lje_job_id e)))"
    and p: "(case map_of js ''payload'' of Some x \<Rightarrow> same_json (payload_doc (lje_payload e)) x
      | None \<Rightarrow> False)"
    using assms(2) by (auto simp: event_doc_def split: json.splits)
  from p obtain x where x: "map_of js ''payload'' = Some x" "same_json (payload_doc (lje_payload e)) x"
    by (auto split: option.splits)
  have o: "has_type value_t.kObject x"
    using x(2) by (auto simp: payload_doc_def has_type_def split: json.splits)
  have r: "run_state read_envelope (fresh j envelope_members)
      = ((lje_schema_version e, lje_sequence e, EventType_ToString (lje_event_type e), lje_recorded_at e,
          uuid_value (lje_job_id e), Some x), fresh j envelope_members)"
    using m x(1) o by (simp add: read_envelope_def j)
  have "lje_event_type e \<noteq> EventType.kInvalid" using v(6) by auto
  then show ?thesis
    using r l PayloadFromJson_same[OF v(5) x(2)]
    by (simp add: EventFromJson_def is_object_def j envelope_members_def EventTypeOf_name)
qed

section \<open>The decoder and the encoder\<close>

lemma DecodeRecord_Emit:
  assumes e: "encodes e" and "reads_back L (event_doc e)"
  shows "DecodeRecord L (Emit e)
    = \<lparr>dec_status = DecodeStatus.kDecoded, dec_event = Some e, dec_detail = []\<rparr>"
proof -
  note f = encodes_facts[OF e]
  have b: "Emit e = render (event_doc e) @ [LF]" "LF \<notin> set (render (event_doc e))"
    using Emit_render[OF Violation_None(6)[OF f(1)]] render_one_line(1) by blast+
  obtain j where "json_parse L (render (event_doc e)) = Some j" "same_json (event_doc e) j"
    using assms(2) by (auto simp: reads_back_def split: option.splits)
  with EventFromJson_same[OF f(1)] f b show ?thesis
    by (simp add: DecodeRecord_def Let_def)
qed

text \<open>
  C30. The decoder accepts only what the encoder writes: for any JSON parser, a record it decodes
  is exactly the canonical encoding of the event that it returns, and that event is free of schema
  violations.
\<close>

theorem decoded_records_are_canonical:
  assumes "dec_status (DecodeRecord L rec) = DecodeStatus.kDecoded"
  shows "\<exists>e. DecodeRecord L rec = \<lparr>dec_status = DecodeStatus.kDecoded, dec_event = Some e, dec_detail = []\<rparr>
    \<and> EncodeRecord e = \<lparr>enc_status = EncodeStatus.kEncoded, enc_bytes = rec, enc_detail = []\<rparr>"
  using assms
  by (auto simp: DecodeRecord_def undecoded_def Let_def EncodeRecord_def
      split: if_splits option.splits sum.splits)

text \<open>
  C10. The decoder reads back every record the encoder writes: if the JSON parser reads the text of
  the record as an object with the same members, decoding gives exactly the encoded event.
\<close>

theorem decode_after_encode:
  assumes "enc_status (EncodeRecord e) = EncodeStatus.kEncoded" "reads_back L (event_doc e)"
  shows "DecodeRecord L (enc_bytes (EncodeRecord e))
    = \<lparr>dec_status = DecodeStatus.kDecoded, dec_event = Some e, dec_detail = []\<rparr>"
  using DecodeRecord_Emit[of e L] EncodeRecord_bytes[OF assms(1)] assms by (simp add: encodes_def)

section \<open>Witnesses\<close>

fun json_of :: "doc \<Rightarrow> json" and json_members :: "(string \<times> doc) list \<Rightarrow> (string \<times> json) list" where
  "json_of (DNum v) = JUnsigned v"
| "json_of (DStr s) = JString s"
| "json_of (DObj ms) = JObject (json_members ms)"
| "json_members [] = []"
| "json_members ((k, d) # ms) = (k, json_of d) # json_members ms"

text \<open>A parser that knows the texts of the given documents.\<close>

definition table_libs :: "doc list \<Rightarrow> libs" where
  "table_libs ds = \<lparr>json_parse = (\<lambda>text. map_option json_of (List.find (\<lambda>d. render d = text) ds)),
     sha256 = (\<lambda>bytes. replicate 64 CHR ''a'')\<rparr>"

lemma sample_reads_back: "reads_back (table_libs [event_doc sample_event]) (event_doc sample_event)"
  by code_simp

theorem decode_after_encode_witness:
  "reads_back (table_libs [event_doc sample_event]) (event_doc sample_event)
   \<and> dec_event (DecodeRecord (table_libs [event_doc sample_event]) (enc_bytes (EncodeRecord sample_event)))
     = Some sample_event"
  using decode_after_encode[OF sample_event_encodes[unfolded encodes_def] sample_reads_back]
    sample_reads_back by simp

theorem decoded_records_are_canonical_witness:
  "dec_status (DecodeRecord (table_libs [event_doc sample_event]) (Emit sample_event)) = DecodeStatus.kDecoded
   \<and> (\<exists>e. EncodeRecord e
       = \<lparr>enc_status = EncodeStatus.kEncoded, enc_bytes = Emit sample_event, enc_detail = []\<rparr>)"
proof -
  have "dec_status (DecodeRecord (table_libs [event_doc sample_event]) (Emit sample_event))
      = DecodeStatus.kDecoded"
    using DecodeRecord_Emit[OF sample_event_encodes sample_reads_back] by simp
  with decoded_records_are_canonical show ?thesis by blast
qed

end
