(* ===== verification/System_Clock.thy ===== *)
theory System_Clock
  imports Codec_Records
begin

text \<open>
  The production clock (\<^verbatim>\<open>src/identity/system_clock.cpp\<close>): exact scaling of tick counts with
  64-bit arithmetic, the diagnostic timestamp, and the reading that never moves backwards.
  A thrown exception is an \<open>Inl\<close> value. The standard library's \<^verbatim>\<open>std::gcd\<close>, \<^verbatim>\<open>std::to_chars\<close> and
  calendar (\<^verbatim>\<open>year_month_day\<close>, \<^verbatim>\<open>hh_mm_ss\<close>) are modelled by their meaning.
\<close>

unbundle bit_operations_syntax

section \<open>Checked arithmetic\<close>

datatype clock_error = overflow_error string | invalid_argument string | out_of_range string

type_synonym i64 = "64 word"

definition CheckedAdd :: "u64 \<Rightarrow> u64 \<Rightarrow> clock_error + u64" where
  "CheckedAdd left right =
     (if right > UINT64_MAX - left then Inl (overflow_error ''elapsed time addition overflow'')
      else Inr (left + right))"

definition CheckedMultiply :: "u64 \<Rightarrow> u64 \<Rightarrow> clock_error + u64" where
  "CheckedMultiply left right =
     (if right \<noteq> 0 \<and> left > UINT64_MAX div right
      then Inl (overflow_error ''elapsed time multiplication overflow'')
      else Inr (left * right))"

record WideProduct =
  wp_high :: u64
  wp_low :: u64

definition MultiplyWide :: "u64 \<Rightarrow> u64 \<Rightarrow> WideProduct" where
  "MultiplyWide left right =
     (let k_mask = 0xFFFFFFFF;
          lower = (left AND k_mask) * (right AND k_mask);
          middle = drop_bit 32 left * (right AND k_mask) + drop_bit 32 lower;
          upper_middle = (middle AND k_mask) + (left AND k_mask) * drop_bit 32 right
      in \<lparr>wp_high = drop_bit 32 left * drop_bit 32 right + drop_bit 32 middle + drop_bit 32 upper_middle,
          wp_low = push_bit 32 upper_middle OR (lower AND k_mask)\<rparr>)"

record Division =
  div_quotient :: u64
  div_remainder :: u64

text \<open>
  The loop of \<^verbatim>\<open>MultiplyDivide\<close>: \<open>divide_bits low divisor n (quo, remainder)\<close> runs its body for
  the bits \<open>n - 1\<close> down to \<open>0\<close>.
\<close>

fun divide_bits :: "u64 \<Rightarrow> u64 \<Rightarrow> nat \<Rightarrow> u64 \<times> u64 \<Rightarrow> u64 \<times> u64" where
  "divide_bits low divisor 0 (quo, remainder) = (quo, remainder)"
| "divide_bits low divisor (Suc n) (quo, remainder) =
     (let carry = drop_bit 63 remainder \<noteq> 0;
          shifted = push_bit 1 remainder OR (drop_bit n low AND 1)
      in if carry \<or> shifted \<ge> divisor
         then divide_bits low divisor n (quo OR push_bit n 1, shifted - divisor)
         else divide_bits low divisor n (quo, shifted))"

definition MultiplyDivide :: "u64 \<Rightarrow> u64 \<Rightarrow> u64 \<Rightarrow> clock_error + Division" where
  "MultiplyDivide left right divisor =
     (if right = 0 \<or> left = 0 then Inr \<lparr>div_quotient = 0, div_remainder = 0\<rparr>
      else if left \<le> UINT64_MAX div right
      then Inr \<lparr>div_quotient = left * right div divisor, div_remainder = left * right mod divisor\<rparr>
      else let product = MultiplyWide left right
      in if wp_high product \<ge> divisor then Inl (overflow_error ''elapsed time quotient overflow'')
      else let (quo, remainder) = divide_bits (wp_low product) divisor 64 (0, wp_high product)
      in Inr \<lparr>div_quotient = quo, div_remainder = remainder\<rparr>)"

section \<open>Scaling\<close>

record TickPeriod =
  numerator :: u64
  denominator :: u64

record TickInstant =
  ti_ticks :: i64
  ti_period :: TickPeriod

definition ValidatePeriod :: "TickPeriod \<Rightarrow> clock_error option" where
  "ValidatePeriod period =
     (if numerator period = 0 \<or> denominator period = 0
      then Some (invalid_argument ''sample tick period must be positive'') else None)"

record Scaled =
  sc_whole :: u64
  sc_fractional :: bool

definition gcd_u64 :: "u64 \<Rightarrow> u64 \<Rightarrow> u64" where
  "gcd_u64 a b = of_nat (gcd (unat a) (unat b))"

text \<open>The last four steps of \<^verbatim>\<open>Scale\<close>, on the reduced factors.\<close>

definition scale_reduced :: "u64 \<Rightarrow> u64 \<Rightarrow> u64 \<Rightarrow> u64 \<Rightarrow> clock_error + Scaled" where
  "scale_reduced magnitude num divisor factor =
     (case MultiplyDivide magnitude num divisor of Inl e \<Rightarrow> Inl e | Inr integral \<Rightarrow>
       (case MultiplyDivide (div_remainder integral) factor divisor of Inl e \<Rightarrow> Inl e | Inr fractional \<Rightarrow>
         (case CheckedMultiply (div_quotient integral) factor of Inl e \<Rightarrow> Inl e | Inr scaled \<Rightarrow>
           (case CheckedAdd scaled (div_quotient fractional) of Inl e \<Rightarrow> Inl e | Inr whole \<Rightarrow>
             Inr \<lparr>sc_whole = whole, sc_fractional = div_remainder fractional \<noteq> 0\<rparr>))))"

definition Scale :: "u64 \<Rightarrow> TickPeriod \<Rightarrow> u64 \<Rightarrow> clock_error + Scaled" where
  "Scale magnitude period units_per_second =
     (case ValidatePeriod period of Some e \<Rightarrow> Inl e | None \<Rightarrow>
       (let unit_gcd = gcd_u64 units_per_second (denominator period);
            factor = units_per_second div unit_gcd;
            divisor0 = denominator period div unit_gcd;
            period_gcd = gcd_u64 (numerator period) divisor0;
            num = numerator period div period_gcd;
            divisor = divisor0 div period_gcd
        in scale_reduced magnitude num divisor factor))"

definition Magnitude :: "i64 \<Rightarrow> u64" where
  "Magnitude v = (if sint v < 0 then - (v + 1) + 1 else v)"

section \<open>The arithmetic is exact\<close>

lemma limbs: "unat (x AND 0xFFFFFFFF :: u64) = unat x mod 2 ^ 32" "unat (drop_bit 32 x :: u64) = unat x div 2 ^ 32"
proof -
  have "x AND 0xFFFFFFFF = take_bit 32 x"
    by (simp add: take_bit_eq_mask mask_eq_exp_minus_1)
  then show "unat (x AND 0xFFFFFFFF) = unat x mod 2 ^ 32"
    by (simp only: unsigned_take_bit_eq) (simp add: take_bit_eq_mod)
  show "unat (drop_bit 32 x) = unat x div 2 ^ 32"
    by (simp only: unat_drop_bit_eq) (simp add: drop_bit_eq_div)
qed

lemma wide_nat:
  fixes B :: nat
  assumes "0 < B" "m = ah * bl + al * bl div B" "u = m mod B + al * bh"
  shows "(ah * bh + m div B + u div B) * B\<^sup>2 + ((u mod B) * B + al * bl mod B) = (ah * B + al) * (bh * B + bl)"
proof -
  have "(u div B) * B\<^sup>2 + (u mod B) * B = u * B" "(m div B) * B\<^sup>2 + (m mod B) * B = m * B"
    by (metis add_mult_distrib div_mult_mod_eq mult.assoc power2_eq_square)+
  moreover have "(al * bl div B) * B + al * bl mod B = al * bl" by simp
  ultimately show ?thesis using assms by (simp add: algebra_simps power2_eq_square)
qed

lemma unat_shift_join:
  assumes "unat l < 2 ^ 32"
  shows "unat (push_bit 32 u OR l :: u64) = (unat u mod 2 ^ 32) * 2 ^ 32 + unat l"
proof -
  have l: "take_bit 32 l = l"
    unfolding word_unat_eq_iff unsigned_take_bit_eq using assms by (rule take_bit_nat_eq_self)
  have "push_bit 32 u AND l = 0"
    by (subst l[symmetric], rule bit_word_eqI) (auto simp: bit_simps)
  then have "push_bit 32 u OR l = push_bit 32 u + l" by (simp add: disjunctive_add_eq_or)
  moreover have "unat (push_bit 32 u) = (unat u mod 2 ^ 32) * 2 ^ 32"
    by (simp only: unsigned_push_bit_eq) (simp add: take_bit_eq_mod push_bit_eq_mult mult_mod_left)
  moreover have "(unat u mod 2 ^ 32) * 2 ^ 32 + unat l < 2 ^ 64"
  proof -
    have "unat u mod 2 ^ 32 \<le> 2 ^ 32 - 1" by simp
    then have "(unat u mod 2 ^ 32) * 2 ^ 32 \<le> (2 ^ 32 - 1) * 2 ^ 32" by (rule mult_le_mono1)
    then show ?thesis using assms by simp
  qed
  ultimately show ?thesis using unat_add_exact by simp
qed

lemma limb_product: "(a :: nat) < 2 ^ 32 \<Longrightarrow> b < 2 ^ 32 \<Longrightarrow> a * b \<le> (2 ^ 32 - 1) * (2 ^ 32 - 1)"
  by (rule mult_le_mono) simp_all

lemma MultiplyWide_exact:
  "unat (wp_high (MultiplyWide left right)) * 2 ^ 64 + unat (wp_low (MultiplyWide left right))
     = unat left * unat right"
proof -
  let ?B = "2 ^ 32 :: nat"
  define ah al bh bl where d: "ah = unat left div ?B" "al = unat left mod ?B"
    "bh = unat right div ?B" "bl = unat right mod ?B"
  have lt: "unat left < 2 ^ 64" "unat right < 2 ^ 64"
    using unsigned_less[of left, where 'a=nat] unsigned_less[of right, where 'a=nat] by simp_all
  have b: "ah < ?B" "al < ?B" "bh < ?B" "bl < ?B" using lt by (simp_all add: d less_mult_imp_div_less)
  note p = limb_product[OF b(1) b(3)] limb_product[OF b(1) b(4)] limb_product[OF b(2) b(3)]
    limb_product[OF b(2) b(4)]
  define l where "l = al * bl"
  define m where "m = ah * bl + l div ?B"
  define u where "u = m mod ?B + al * bh"
  define lower :: u64 where "lower = (left AND 0xFFFFFFFF) * (right AND 0xFFFFFFFF)"
  define middle where "middle = drop_bit 32 left * (right AND 0xFFFFFFFF) + drop_bit 32 lower"
  define upper where "upper = (middle AND 0xFFFFFFFF) + (left AND 0xFFFFFFFF) * drop_bit 32 right"
  have lower: "unat lower = l"
    unfolding lower_def l_def using p(4) by (subst unat_mult_exact) (simp_all add: limbs d)
  have "l div ?B \<le> 2 ^ 32 - 1" using p(4) div_le_mono[of l "(2 ^ 32 - 1) * (2 ^ 32 - 1)" ?B] by (simp add: l_def)
  then have middle: "unat middle = m" and m: "m < 2 ^ 64"
    using p(2) unat_mult_exact[of "drop_bit 32 left" "right AND 0xFFFFFFFF"]
      unat_add_exact[of "drop_bit 32 left * (right AND 0xFFFFFFFF)" "drop_bit 32 lower"]
    by (simp_all add: middle_def m_def limbs lower d)
  have upper: "unat upper = u"
    using p(3) unat_mult_exact[of "left AND 0xFFFFFFFF" "drop_bit 32 right"] mod_less_divisor[of ?B m]
      unat_add_exact[of "middle AND 0xFFFFFFFF" "(left AND 0xFFFFFFFF) * drop_bit 32 right"]
    by (simp add: upper_def u_def limbs middle d)
  have w: "(ah * bh + m div ?B + u div ?B) * 2 ^ 64 + ((u mod ?B) * ?B + l mod ?B) = unat left * unat right"
    using wide_nat[of ?B m ah bl al u bh] by (simp add: m_def l_def u_def d)
  have "unat left * unat right < 2 ^ 64 * 2 ^ 64" using lt by (rule mult_strict_mono) simp_all
  with w have "(ah * bh + m div ?B + u div ?B) * 2 ^ 64 < 2 ^ 64 * 2 ^ 64" by linarith
  then have h: "ah * bh + m div ?B + u div ?B < 2 ^ 64" by simp
  then have "unat (wp_high (MultiplyWide left right)) = ah * bh + m div ?B + u div ?B"
    using unat_mult_exact[of "drop_bit 32 left" "drop_bit 32 right"]
      unat_add_exact[of "drop_bit 32 left * drop_bit 32 right" "drop_bit 32 middle"]
      unat_add_exact[of "drop_bit 32 left * drop_bit 32 right + drop_bit 32 middle" "drop_bit 32 upper"]
    by (simp add: MultiplyWide_def Let_def lower_def[symmetric] middle_def[symmetric] upper_def[symmetric]
        limbs middle upper d)
  moreover have "unat (wp_low (MultiplyWide left right)) = (u mod ?B) * ?B + l mod ?B"
    using unat_shift_join[of "lower AND 0xFFFFFFFF" upper] mod_less_divisor[of ?B l]
    by (simp add: MultiplyWide_def Let_def lower_def[symmetric] middle_def[symmetric] upper_def[symmetric]
        limbs lower upper)
  ultimately show ?thesis using w by simp
qed

lemma unat_next_bit: "unat (drop_bit n low AND 1 :: u64) = (unat low div 2 ^ n) mod 2"
proof -
  have "unat (drop_bit n low AND 1 :: u64) = unat (drop_bit n low) mod unat (2 :: u64)"
    by (simp only: and_one_eq unat_mod_distrib)
  then show ?thesis by (simp add: unat_drop_bit_eq) (simp add: drop_bit_eq_div)
qed

lemma unat_shift_in:
  assumes "unat b < 2"
  shows "unat (push_bit 1 r OR b :: u64) = (2 * unat r + unat b) mod 2 ^ 64"
proof -
  have "b = 0 \<or> b = 1" using assms by (auto simp: word_unat_eq_iff)
  moreover have "push_bit 1 r AND 1 = 0"
    by (rule bit_word_eqI) (auto simp del: push_bit_Suc push_bit_of_1 simp: bit_and_iff bit_push_bit_iff bit_1_iff)
  ultimately have "push_bit 1 r AND b = 0" by auto
  then have "push_bit 1 r OR b = 2 * r + b" by (simp add: disjunctive_add_eq_or[symmetric] push_bit_eq_mult)
  then show ?thesis by (simp add: unat_word_ariths mod_simps)
qed

lemma unat_set_bit:
  assumes "2 ^ Suc n dvd unat q" "n < 64"
  shows "unat (q OR push_bit n 1 :: u64) = unat q + 2 ^ n"
proof -
  obtain k where k: "unat q = 2 ^ Suc n * k" using assms(1) by (rule dvdE)
  have "\<not> bit (unat q) n"
    by (simp add: k bit_iff_odd)
  then have "\<not> bit q n" by (simp add: bit_unsigned_iff)
  then have "q AND push_bit n 1 = 0"
    by (intro bit_word_eqI) (auto simp: bit_and_iff bit_push_bit_iff bit_1_iff bit_exp_iff)
  then have "q OR push_bit n 1 = q + 2 ^ n" by (simp add: disjunctive_add_eq_or push_bit_eq_mult)
  moreover have "unat q + 2 ^ n < 2 ^ 64"
  proof -
    have p: "(2 :: nat) ^ 64 = 2 ^ Suc n * 2 ^ (63 - n)" using assms(2) by (simp flip: power_add)
    have "2 ^ Suc n * k < 2 ^ Suc n * 2 ^ (63 - n)"
      using unsigned_less[of q, where 'a=nat] by (simp only: k p[symmetric]) simp
    then have "k + 1 \<le> 2 ^ (63 - n)" by simp
    then have "2 ^ Suc n * (k + 1) \<le> (2 :: nat) ^ 64" unfolding p by (rule mult_le_mono2)
    moreover have "2 ^ Suc n * k + 2 ^ n < 2 ^ Suc n * (k + 1)" by simp
    ultimately show ?thesis unfolding k by (rule less_le_trans[rotated])
  qed
  moreover have "unat (2 ^ n :: u64) = 2 ^ n"
    using unsigned_push_bit_eq[of n "1 :: u64", where 'a=nat] assms(2) by (simp add: push_bit_eq_mult)
  ultimately show ?thesis using unat_add_exact[of q "2 ^ n"] by simp
qed

text \<open>One turn of the loop in unbounded arithmetic: \<open>S\<close> is the remainder with the next bit shifted in.\<close>

lemma divide_turn:
  fixes D :: nat
  assumes "D \<le> S"
  shows "(S * 2 ^ n + L) div D = (((S - D) * 2 ^ n + L) div D) + 2 ^ n \<or> D = 0"
    "(S * 2 ^ n + L) mod D = ((S - D) * 2 ^ n + L) mod D"
proof -
  have e: "S * 2 ^ n + L = ((S - D) * 2 ^ n + L) + D * 2 ^ n"
    using assms by (metis (no_types) add.assoc add.commute add_mult_distrib le_add_diff_inverse2)
  show "(S * 2 ^ n + L) div D = (((S - D) * 2 ^ n + L) div D) + 2 ^ n \<or> D = 0"
    by (subst e, cases "D = 0") simp_all
  show "(S * 2 ^ n + L) mod D = ((S - D) * 2 ^ n + L) mod D"
    by (subst e) simp
qed

lemma divide_step:
  fixes r d low :: u64 and n :: nat
  defines "S \<equiv> 2 * unat r + (unat low div 2 ^ n) mod 2"
    and "shifted \<equiv> push_bit 1 r OR (drop_bit n low AND 1)"
  assumes "unat r < unat d"
  shows "(drop_bit 63 r \<noteq> 0 \<or> shifted \<ge> d) \<longleftrightarrow> unat d \<le> S"
    "unat d \<le> S \<Longrightarrow> unat (shifted - d) = S - unat d" "S < unat d \<Longrightarrow> unat shifted = S"
    "S < 2 * unat d"
proof -
  have sh: "unat shifted = S mod 2 ^ 64"
    using unat_shift_in[of "drop_bit n low AND 1" r] by (simp add: unat_next_bit S_def shifted_def)
  have d: "unat d < 2 ^ 64" using unsigned_less[of d, where 'a=nat] by simp
  have "unat (drop_bit 63 r) = unat r div 2 ^ 63" by (subst unat_drop_bit_eq) (rule drop_bit_eq_div)
  then have carry: "drop_bit 63 r \<noteq> 0 \<longleftrightarrow> 2 ^ 64 \<le> 2 * unat r"
    unfolding word_unat_eq_iff by (simp add: div_eq_0_iff not_less)
  have nocarry: "drop_bit 63 r = 0 \<Longrightarrow> S mod 2 ^ 64 = S"
    using carry mod_less_divisor[of 2 "unat low div 2 ^ n"] by (simp add: S_def)
  show small: "S < 2 * unat d" using assms(3) by (simp add: S_def)
  show s: "S < unat d \<Longrightarrow> unat shifted = S" using sh d by simp
  show "(drop_bit 63 r \<noteq> 0 \<or> shifted \<ge> d) \<longleftrightarrow> unat d \<le> S"
    using sh nocarry carry d by (auto simp: word_le_nat_alt S_def)
  show "unat d \<le> S \<Longrightarrow> unat (shifted - d) = S - unat d"
  proof -
    assume "unat d \<le> S"
    then have "shifted - d = of_nat (S - unat d)"
      using sh by (simp add: unat_of_nat of_nat_diff flip: word_unat_eq_iff)
        (simp add: word_unat_eq_iff unat_of_nat)
    then show ?thesis using small d by (simp add: unat_of_nat)
  qed
qed

lemma divide_bits_exact:
  assumes "n \<le> 64" "unat r < unat d" "2 ^ n dvd unat q" "divide_bits low d n (q, r) = (q', r')"
  shows "unat q' = unat q + (unat r * 2 ^ n + unat low mod 2 ^ n) div unat d
    \<and> unat r' = (unat r * 2 ^ n + unat low mod 2 ^ n) mod unat d"
  using assms
proof (induction n arbitrary: q r)
  case 0
  then show ?case by simp
next
  case (Suc n)
  define S where "S = 2 * unat r + (unat low div 2 ^ n) mod 2"
  define shifted where "shifted = push_bit 1 r OR (drop_bit n low AND 1)"
  note step = divide_step[OF Suc.prems(2), where low = low and n = n, folded S_def shifted_def]
  have "unat low mod 2 ^ Suc n = ((unat low div 2 ^ n) mod 2) * 2 ^ n + unat low mod 2 ^ n"
    using mod_mult2_eq[of "unat low" "2 ^ n" 2] by (simp add: mult.commute)
  then have total: "unat r * 2 ^ Suc n + unat low mod 2 ^ Suc n = S * 2 ^ n + unat low mod 2 ^ n"
    by (simp add: S_def algebra_simps)
  have dvd: "2 ^ n dvd unat q" using Suc.prems(3) by (metis dvd_trans le_imp_power_dvd lessI less_imp_le)
  show ?case
  proof (cases "unat d \<le> S")
    case True
    then have run: "divide_bits low d n (q OR push_bit n 1, shifted - d) = (q', r')"
      using Suc.prems(4) step(1) by (simp add: shifted_def Let_def)
    have "unat (q OR push_bit n 1) = unat q + 2 ^ n"
      using unat_set_bit[of n q] Suc.prems(1,3) by simp
    then have "unat q' = unat q + 2 ^ n + ((S - unat d) * 2 ^ n + unat low mod 2 ^ n) div unat d
        \<and> unat r' = ((S - unat d) * 2 ^ n + unat low mod 2 ^ n) mod unat d"
      using Suc.IH[OF _ _ _ run] Suc.prems(1) step(2,4) dvd True by (simp add: dvd_add)
    then show ?thesis
      using divide_turn[OF True, of n "unat low mod 2 ^ n"] Suc.prems(2) by (auto simp only: total)
  next
    case False
    then have run: "divide_bits low d n (q, shifted) = (q', r')"
      using Suc.prems(4) step(1) by (simp add: shifted_def Let_def)
    then show ?thesis
      using Suc.IH[OF _ _ dvd run] Suc.prems(1) step(3) False total by simp
  qed
qed

lemma fits_iff:
  assumes "right \<noteq> 0"
  shows "left \<le> UINT64_MAX div right \<longleftrightarrow> unat left * unat right < 2 ^ 64"
proof -
  have "0 < unat right" using assms by (simp add: unat_gt_0)
  then have "unat left \<le> (2 ^ 64 - 1) div unat right \<longleftrightarrow> unat left * unat right \<le> 2 ^ 64 - 1"
    by (rule less_eq_div_iff_mult_less_eq)
  then show ?thesis by (auto simp: word_le_nat_alt unat_div_distrib unat_max)
qed

lemma CheckedMultiply_exact:
  "CheckedMultiply left right =
     (if unat left * unat right < 2 ^ 64 then Inr (left * right)
      else Inl (overflow_error ''elapsed time multiplication overflow''))"
  using fits_iff[of right left] by (cases "right = 0") (auto simp: CheckedMultiply_def not_less[symmetric])

lemma CheckedAdd_exact:
  "CheckedAdd left right =
     (if unat left + unat right < 2 ^ 64 then Inr (left + right)
      else Inl (overflow_error ''elapsed time addition overflow''))"
proof -
  have "unat (UINT64_MAX - left) = 2 ^ 64 - 1 - unat left"
    by (subst unat_sub) (simp_all add: unat_max)
  then have "right > UINT64_MAX - left \<longleftrightarrow> \<not> unat left + unat right < 2 ^ 64"
    using u64_less[of left] by (simp add: word_less_nat_alt) linarith
  then show ?thesis by (simp add: CheckedAdd_def)
qed

lemma MultiplyDivide_exact:
  assumes "d \<noteq> 0"
  shows "MultiplyDivide l r d =
    (if unat l * unat r div unat d < 2 ^ 64
     then Inr \<lparr>div_quotient = of_nat (unat l * unat r div unat d),
               div_remainder = of_nat (unat l * unat r mod unat d)\<rparr>
     else Inl (overflow_error ''elapsed time quotient overflow''))"
proof -
  let ?P = "unat l * unat r"
  have d: "0 < unat d" using assms by (simp add: unat_gt_0)
  consider "r = 0 \<or> l = 0" | "r \<noteq> 0" "l \<noteq> 0" "?P < 2 ^ 64" | "r \<noteq> 0" "l \<noteq> 0" "\<not> ?P < 2 ^ 64"
    by blast
  then show ?thesis
  proof cases
    case 1
    then show ?thesis by (auto simp: MultiplyDivide_def)
  next
    case 2
    have "?P div unat d < 2 ^ 64" using 2(3) by (meson div_le_dividend le_less_trans)
    moreover have "l * r div d = of_nat (?P div unat d)" "l * r mod d = of_nat (?P mod unat d)"
      using 2(3) unat_mult_exact[of l r] by (simp_all add: word_arith_nat_div word_arith_nat_mod)
    ultimately show ?thesis using 2 by (simp add: MultiplyDivide_def fits_iff)
  next
    case 3
    define w where "w = MultiplyWide l r"
    have P: "unat (wp_high w) * 2 ^ 64 + unat (wp_low w) = ?P"
      using MultiplyWide_exact by (simp add: w_def)
    have hi: "wp_high w \<ge> d \<longleftrightarrow> \<not> ?P div unat d < 2 ^ 64"
    proof -
      have "?P div unat d < 2 ^ 64 \<longleftrightarrow> ?P < 2 ^ 64 * unat d" using d by (rule div_less_iff_less_mult)
      also have "\<dots> \<longleftrightarrow> unat (wp_high w) < unat d"
        using u64_less[of "wp_low w"] unfolding P[symmetric] by auto
      finally show ?thesis by (simp add: word_le_nat_alt not_less)
    qed
    obtain q' r' where run: "divide_bits (wp_low w) d 64 (0, wp_high w) = (q', r')" by fastforce
    have "wp_high w < d \<Longrightarrow> unat q' = ?P div unat d \<and> unat r' = ?P mod unat d"
      using divide_bits_exact[OF _ _ _ run] u64_less[of "wp_low w"] P by (simp add: word_less_nat_alt)
    then have "wp_high w < d \<Longrightarrow> q' = of_nat (?P div unat d) \<and> r' = of_nat (?P mod unat d)"
      by (metis of_nat_unat_u64)
    then show ?thesis
      using 3 run hi by (auto simp: MultiplyDivide_def fits_iff w_def[symmetric] Let_def)
  qed
qed

lemma scale_nat:
  fixes m N U D :: nat
  assumes "0 < D" "0 < U" "0 < N"
  defines "f \<equiv> U div gcd U D" and "d0 \<equiv> D div gcd U D"
  defines "n \<equiv> N div gcd N d0" and "d \<equiv> d0 div gcd N d0"
  shows "0 < d" "0 < f" "m * N * U div D = m * n div d * f + m * n mod d * f div d"
    "D dvd m * N * U \<longleftrightarrow> m * n mod d * f mod d = 0"
proof -
  define g p where "g = gcd U D" and "p = gcd N d0"
  have e: "U = g * f" "D = g * d0" by (simp_all add: g_def f_def d0_def)
  have e2: "N = p * n" "d0 = p * d" by (simp_all add: p_def n_def d_def)
  have pos: "0 < g" "0 < p" using assms(1,2,3) by (simp_all add: g_def p_def)
  show d: "0 < d" using assms(1) e e2 by (auto intro: Nat.gr0I)
  show "0 < f" using assms(2) e by (auto intro: Nat.gr0I)
  have t: "m * N * U = (g * p) * (m * n * f)" "D = (g * p) * d" using e e2 by simp_all
  have s: "m * n * f = (m * n div d * f) * d + m * n mod d * f"
    by (metis add_mult_distrib div_mult_mod_eq mult.assoc mult.commute)
  have "m * N * U div D = m * n * f div d" unfolding t using pos by simp
  also have "\<dots> = m * n div d * f + m * n mod d * f div d"
    using d by (subst s) simp
  finally show "m * N * U div D = m * n div d * f + m * n mod d * f div d" .
  have "D dvd m * N * U \<longleftrightarrow> d dvd m * n * f" unfolding t using pos by simp
  also have "\<dots> \<longleftrightarrow> m * n mod d * f mod d = 0"
    by (subst s) (simp add: dvd_eq_mod_eq_0)
  finally show "D dvd m * N * U \<longleftrightarrow> m * n mod d * f mod d = 0" .
qed

lemma unat_gcd: "b \<noteq> 0 \<Longrightarrow> unat (gcd_u64 a b) = gcd (unat a) (unat b)"
proof -
  assume "b \<noteq> 0"
  then have "gcd (unat a) (unat b) \<le> unat b" by (simp add: gcd_le2_nat unat_gt_0)
  then show ?thesis using u64_less[of b] by (simp add: gcd_u64_def unat_of_nat)
qed

text \<open>The value that \<^verbatim>\<open>Scale\<close> computes, in unbounded arithmetic.\<close>

definition scaled_ticks :: "u64 \<Rightarrow> TickPeriod \<Rightarrow> u64 \<Rightarrow> nat" where
  "scaled_ticks magnitude period units = unat magnitude * unat (numerator period) * unat units"

text \<open>The four checked steps of \<^verbatim>\<open>Scale\<close> on the reduced fraction.\<close>

lemma scale_steps:
  assumes "d \<noteq> 0" "0 < unat f"
    and T: "T div D = unat m * unat n div unat d * unat f + unat m * unat n mod unat d * unat f div unat d"
      "D dvd T \<longleftrightarrow> unat m * unat n mod unat d * unat f mod unat d = 0"
  shows "if T div D < 2 ^ 64
    then scale_reduced m n d f = Inr \<lparr>sc_whole = of_nat (T div D), sc_fractional = (\<not> D dvd T)\<rparr>
    else \<exists>e. scale_reduced m n d f = Inl (overflow_error e)"
proof -
  define Q R where "Q = unat m * unat n div unat d" and "R = unat m * unat n mod unat d"
  have d: "0 < unat d" using assms(1) by (simp add: unat_gt_0)
  have R: "R < unat d" using d by (simp add: R_def)
  have uR: "unat (of_nat R :: u64) = R" using R u64_less[of d] by (simp add: unat_of_nat)
  have "R * unat f < unat d * unat f" using R assms(2) by simp
  then have F: "R * unat f div unat d < unat f"
    using d by (simp add: div_less_iff_less_mult mult.commute)
  have uF: "unat (of_nat (R * unat f div unat d) :: u64) = R * unat f div unat d"
    "R * unat f div unat d < 2 ^ 64"
    using F u64_less[of f] by (simp_all add: unat_of_nat)
  have rem: "(of_nat (R * unat f mod unat d) :: u64) = 0 \<longleftrightarrow> D dvd T"
    using d u64_less[of d] mod_less_divisor[OF d, of "R * unat f"]
    by (simp add: T(2) word_unat_eq_iff unat_of_nat R_def)
  show ?thesis
  proof (cases "Q < 2 ^ 64")
    case True
    have uQ: "unat (of_nat Q :: u64) = Q" using True by (simp add: unat_of_nat)
    have m1: "MultiplyDivide m n d = Inr \<lparr>div_quotient = of_nat Q, div_remainder = of_nat R\<rparr>"
      using MultiplyDivide_exact[OF assms(1), of m n] True by (simp add: Q_def R_def)
    have m2: "MultiplyDivide (of_nat R) f d = Inr \<lparr>div_quotient = of_nat (R * unat f div unat d),
        div_remainder = of_nat (R * unat f mod unat d)\<rparr>"
      using MultiplyDivide_exact[OF assms(1), of "of_nat R" f] uF(2) by (simp add: uR)
    have t: "T div D = Q * unat f + R * unat f div unat d" using T(1) by (simp add: Q_def R_def)
    have "scale_reduced m n d f = (if T div D < 2 ^ 64
        then Inr \<lparr>sc_whole = of_nat (T div D), sc_fractional = (\<not> D dvd T)\<rparr>
        else Inl (overflow_error (if Q * unat f < 2 ^ 64 then ''elapsed time addition overflow''
          else ''elapsed time multiplication overflow'')))"
      using uQ uF rem unat_mult_exact[of "of_nat Q" f]
      by (auto simp: scale_reduced_def m1 m2 CheckedMultiply_exact CheckedAdd_exact t)
    then show ?thesis by auto
  next
    case False
    have "Q \<le> Q * unat f" using assms(2) by simp
    moreover have "T div D = Q * unat f + R * unat f div unat d" using T(1) by (simp add: Q_def R_def)
    ultimately have "\<not> T div D < 2 ^ 64" using False by linarith
    moreover have "scale_reduced m n d f = Inl (overflow_error ''elapsed time quotient overflow'')"
      using False MultiplyDivide_exact[OF assms(1), of m n] by (simp add: Q_def scale_reduced_def)
    ultimately show ?thesis by simp
  qed
qed

lemma Scale_exact:
  assumes "numerator p \<noteq> 0" "denominator p \<noteq> 0" "units \<noteq> 0"
  shows "if scaled_ticks m p units div unat (denominator p) < 2 ^ 64
    then Scale m p units = Inr \<lparr>sc_whole = of_nat (scaled_ticks m p units div unat (denominator p)),
      sc_fractional = (\<not> unat (denominator p) dvd scaled_ticks m p units)\<rparr>
    else \<exists>e. Scale m p units = Inl (overflow_error e)"
proof -
  define g where "g = gcd_u64 units (denominator p)"
  define f where "f = units div g"
  define d0 where "d0 = denominator p div g"
  define pg where "pg = gcd_u64 (numerator p) d0"
  define n where "n = numerator p div pg"
  define d where "d = d0 div pg"
  have pos: "0 < unat (denominator p)" "0 < unat units" "0 < unat (numerator p)"
    using assms by (simp_all add: unat_gt_0)
  have g: "unat g = gcd (unat units) (unat (denominator p))" using unat_gcd assms(2) by (simp add: g_def)
  have fd: "unat f = unat units div gcd (unat units) (unat (denominator p))"
    "unat d0 = unat (denominator p) div gcd (unat units) (unat (denominator p))"
    by (simp_all add: f_def d0_def unat_div_distrib g)
  have "d0 \<noteq> 0" using fd(2) pos by (metis dvd_div_eq_0_iff gcd_dvd2 less_numeral_extra(3) unat_0)
  then have pg: "unat pg = gcd (unat (numerator p)) (unat d0)" by (simp add: pg_def unat_gcd)
  have nd: "unat n = unat (numerator p) div gcd (unat (numerator p)) (unat d0)"
    "unat d = unat d0 div gcd (unat (numerator p)) (unat d0)"
    by (simp_all add: n_def d_def unat_div_distrib pg)
  note s = scale_nat(1,2)[OF pos, folded fd, folded nd]
    scale_nat(3,4)[OF pos, where m = "unat m", folded fd, folded nd, folded scaled_ticks_def]
  have d: "d \<noteq> 0" using s(1) by (auto simp: unat_gt_0)
  have "Scale m p units = scale_reduced m n d f"
    using assms by (simp add: Scale_def ValidatePeriod_def Let_def g_def f_def d0_def pg_def n_def d_def)
  then show ?thesis using scale_steps[OF d s(2,3,4)] by simp
qed

end
