(* ===== verification/Clock_Reading.thy ===== *)
theory Clock_Reading
  imports System_Clock
begin

text \<open>
  The reading of the production clock (\<^verbatim>\<open>src/identity/system_clock.cpp\<close>): the diagnostic
  timestamp \<^verbatim>\<open>FormatRecordedAt\<close> and \<^verbatim>\<open>SystemClock::Read\<close>. The theory shows that the timestamp is the
  calendar time of the wall sample rounded down to a millisecond, for which instants the journal
  accepts it, and that successive readings never move backwards.
\<close>

section \<open>The calendar of the standard library\<close>

text \<open>
  The proleptic Gregorian calendar of \<^verbatim>\<open>std::chrono\<close>: \<open>year_start y\<close> is the number of days from
  1 January of year 0 to 1 January of year \<open>y\<close>, and \<open>year_month_day d\<close> the date of the day \<open>d\<close>.
\<close>

definition days_in_year :: "nat \<Rightarrow> nat" where
  "days_in_year y = (if IsLeapYear y then 366 else 365)"

definition year_start :: "nat \<Rightarrow> nat" where
  "year_start y = 365 * y + (y + 3) div 4 + (y + 399) div 400 - (y + 99) div 100"

lemma div_step:
  assumes "0 < k"
  shows "(Suc n + (k - 1)) div k = (n + (k - 1)) div k + (if k dvd n then 1 else 0 :: nat)"
proof -
  have "(n + (k - 1)) div k = n div k + (n mod k + (k - 1)) div k"
  proof -
    have "n + (k - 1) = (n mod k + (k - 1)) + n div k * k" by simp
    then have "(n + (k - 1)) div k = ((n mod k + (k - 1)) + n div k * k) div k" by (rule arg_cong)
    also have "\<dots> = n div k + (n mod k + (k - 1)) div k" using assms by (subst div_mult_self1) simp_all
    finally show ?thesis .
  qed
  moreover have "(n mod k + (k - 1)) div k = (if k dvd n then 0 else 1)"
  proof (cases "k dvd n")
    case False
    then have "0 < n mod k" "n mod k < k" using assms by (auto simp: dvd_eq_mod_eq_0)
    then have "n mod k + (k - 1) = k + (n mod k - 1)" "n mod k - 1 < k" by auto
    then show ?thesis using False assms by (simp only: div_add_self1) simp
  qed (use assms in simp)
  moreover have "(Suc n + (k - 1)) div k = n div k + 1" using assms by (simp add: div_add_self2)
  ultimately show ?thesis by simp
qed

lemma year_start_Suc: "year_start (Suc y) = year_start y + days_in_year y"
proof -
  have d: "(400 :: nat) dvd y \<Longrightarrow> 100 dvd y" "(100 :: nat) dvd y \<Longrightarrow> 4 dvd y"
    by (auto elim: dvd_trans[rotated])
  define A B C where "A = (y + 3) div 4" and "B = (y + 99) div 100" and "C = (y + 399) div 400"
  have s: "(Suc y + 3) div 4 = A + (if 4 dvd y then 1 else 0)"
    "(Suc y + 99) div 100 = B + (if 100 dvd y then 1 else 0)"
    "(Suc y + 399) div 400 = C + (if 400 dvd y then 1 else 0)"
    using div_step[of 4 y] div_step[of 100 y] div_step[of 400 y] by (simp_all add: A_def B_def C_def)
  have "B \<le> y" unfolding B_def by (cases y) (simp_all add: div_le_mono less_mult_imp_div_less Suc_le_eq)
  then show ?thesis
    unfolding year_start_def days_in_year_def IsLeapYear_def s A_def[symmetric] B_def[symmetric]
      C_def[symmetric] dvd_eq_mod_eq_0[symmetric]
    using d by auto
qed

function year_from :: "nat \<Rightarrow> nat \<Rightarrow> nat" where
  "year_from y d = (if d < year_start (Suc y) then y else year_from (Suc y) d)"
  by pat_completeness auto
termination
proof (relation "measure (\<lambda>(y, d). Suc d - year_start y)")
  fix y d assume "\<not> d < year_start (Suc y)"
  moreover have "year_start y < year_start (Suc y)" by (simp add: year_start_Suc days_in_year_def)
  ultimately show "((Suc y, d), (y, d)) \<in> measure (\<lambda>(y, d). Suc d - year_start y)" by simp
qed simp

declare year_from.simps [simp del]

fun month_from :: "nat \<Rightarrow> bool \<Rightarrow> nat \<Rightarrow> nat \<times> nat" where
  "month_from 0 leap d = (12, d)"
| "month_from (Suc n) leap d =
     (if d < DaysInMonth (12 - n) leap \<or> n = 0 then (12 - n, d)
      else month_from n leap (d - DaysInMonth (12 - n) leap))"

definition year_month_day :: "nat \<Rightarrow> nat \<times> nat \<times> nat" where
  "year_month_day d =
     (let y = year_from (d div 366) d; (m, r) = month_from 12 (IsLeapYear y) (d - year_start y)
      in (y, m, r + 1))"

section \<open>The diagnostic timestamp\<close>

record TimestampField =
  tf_offset :: nat
  tf_width :: nat

definition PutDigits :: "string \<Rightarrow> TimestampField \<Rightarrow> nat \<Rightarrow> clock_error + string" where
  "PutDigits text field v =
     (let digits = dec v; len = length digits in
      if len > 4 then Inl (overflow_error ''timestamp digit conversion failed'')
      else if len > tf_width field \<or> tf_offset field > length text
              \<or> tf_width field > length text - tf_offset field
      then Inl (out_of_range ''timestamp field exceeds its fixed width'')
      else let at = tf_offset field + tf_width field - len
           in Inr (take at text @ digits @ drop (at + len) text))"

fun put_fields :: "string \<Rightarrow> (TimestampField \<times> nat) list \<Rightarrow> clock_error + string" where
  "put_fields text [] = Inr text"
| "put_fields text ((field, v) # rest) =
     (case PutDigits text field v of Inl e \<Rightarrow> Inl e | Inr text' \<Rightarrow> put_fields text' rest)"

abbreviation ms_per_day :: int where
  "ms_per_day \<equiv> 86400000"

definition k_first :: i64 where
  "k_first = word_of_int (- (int (year_start 1970) * ms_per_day))"

definition k_after_last :: i64 where
  "k_after_last = word_of_int ((int (year_start 10000) - int (year_start 1970)) * ms_per_day)"

text \<open>\<^verbatim>\<open>FormatRecordedAt\<close> up to \<^verbatim>\<open>signed_ms\<close>, and the text of a point in time.\<close>

definition signed_ms :: "TickInstant \<Rightarrow> clock_error + int" where
  "signed_ms instant =
     (case Scale (Magnitude (ti_ticks instant)) (ti_period instant) 1000 of Inl e \<Rightarrow> Inl e | Inr scaled \<Rightarrow>
       (let negative = sint (ti_ticks instant) < 0 in
        case CheckedAdd (sc_whole scaled) (if negative \<and> sc_fractional scaled then 1 else 0) of
          Inl e \<Rightarrow> Inl e
        | Inr magnitude \<Rightarrow>
            if (negative \<and> magnitude > Magnitude k_first) \<or> (\<not> negative \<and> magnitude \<ge> k_after_last)
            then Inl (out_of_range ''diagnostic timestamp is outside the four-digit year domain'')
            else Inr (if negative then - sint magnitude else sint magnitude)))"

definition timestamp_text :: "int \<Rightarrow> clock_error + string" where
  "timestamp_text ms =
     (let (y, m, d) = year_month_day (nat (ms div ms_per_day + int (year_start 1970)));
          t = nat (ms mod ms_per_day)
      in put_fields ''0000-00-00T00:00:00.000Z''
        [(\<lparr>tf_offset = 0, tf_width = 4\<rparr>, y), (\<lparr>tf_offset = 5, tf_width = 2\<rparr>, m),
         (\<lparr>tf_offset = 8, tf_width = 2\<rparr>, d), (\<lparr>tf_offset = 11, tf_width = 2\<rparr>, t div 3600000),
         (\<lparr>tf_offset = 14, tf_width = 2\<rparr>, t div 60000 mod 60),
         (\<lparr>tf_offset = 17, tf_width = 2\<rparr>, t div 1000 mod 60),
         (\<lparr>tf_offset = 20, tf_width = 3\<rparr>, t mod 1000)])"

definition FormatRecordedAt :: "TickInstant \<Rightarrow> clock_error + string" where
  "FormatRecordedAt instant =
     (case signed_ms instant of Inl e \<Rightarrow> Inl e | Inr ms \<Rightarrow> timestamp_text ms)"

section \<open>The clock\<close>

record ClockSample =
  cs_wall :: TickInstant
  cs_steady :: TickInstant

record ClockReading =
  recorded_at :: string
  monotonic_time :: u64

record SystemClock =
  ck_origin :: TickInstant
  ck_last_ticks :: i64
  ck_last_ns :: u64

text \<open>
  The constructor of \<^verbatim>\<open>SystemClock::Impl\<close> with the first sample of its sampler, or \<open>None\<close> for an
  absent sampler; \<open>Read\<close> with the next sample. The sampler, which reads the clocks of the
  operating system, is the argument.
\<close>

definition make_clock :: "ClockSample option \<Rightarrow> clock_error + SystemClock" where
  "make_clock sampler =
     (case sampler of None \<Rightarrow> Inl (invalid_argument ''clock sampler must be present'')
      | Some now \<Rightarrow>
          (case ValidatePeriod (ti_period (cs_wall now)) of Some e \<Rightarrow> Inl e | None \<Rightarrow>
            (case ValidatePeriod (ti_period (cs_steady now)) of Some e \<Rightarrow> Inl e | None \<Rightarrow>
              Inr \<lparr>ck_origin = cs_steady now, ck_last_ticks = ti_ticks (cs_steady now), ck_last_ns = 0\<rparr>)))"

definition Read :: "SystemClock \<Rightarrow> ClockSample \<Rightarrow> clock_error + (ClockReading \<times> SystemClock)" where
  "Read c now =
     (let steady = cs_steady now in
      if ti_period steady \<noteq> ti_period (ck_origin c)
      then Inl (invalid_argument ''steady sample period changed within the instance'')
      else if sint (ti_ticks steady) < sint (ti_ticks (ck_origin c))
              \<or> sint (ti_ticks steady) < sint (ck_last_ticks c)
      then Inl (out_of_range ''steady sample moved backwards'')
      else case Scale (ti_ticks steady - ti_ticks (ck_origin c)) (ti_period steady) 1000000000 of
        Inl e \<Rightarrow> Inl e
      | Inr scaled \<Rightarrow>
          (let elapsed = sc_whole scaled in
           if elapsed < ck_last_ns c then Inl (out_of_range ''monotonic coordinate decreased'')
           else case FormatRecordedAt (cs_wall now) of
             Inl e \<Rightarrow> Inl e
           | Inr text \<Rightarrow> Inr (\<lparr>recorded_at = text, monotonic_time = elapsed\<rparr>,
               c\<lparr>ck_last_ticks := ti_ticks steady, ck_last_ns := elapsed\<rparr>)))"

section \<open>The text of a timestamp\<close>

fun fixed :: "nat \<Rightarrow> nat \<Rightarrow> string" where
  "fixed 0 v = []"
| "fixed (Suc w) v = fixed w (v div 10) @ [digit_char (v mod 10)]"

lemma length_fixed [simp]: "length (fixed w v) = w"
  by (induction w arbitrary: v) simp_all

lemma digit_char_0: "digit_char 0 = CHR ''0''"
  by code_simp

lemma fixed_0: "fixed w 0 = replicate w CHR ''0''"
  by (induction w) (simp_all add: digit_char_0 replicate_append_same)

lemma fixed_dec:
  "v < 10 ^ w \<Longrightarrow> 0 < w \<Longrightarrow> fixed w v = replicate (w - length (dec v)) CHR ''0'' @ dec v \<and> length (dec v) \<le> w"
proof (induction w arbitrary: v)
  case (Suc w)
  show ?case
  proof (cases "v < 10")
    case True
    then show ?thesis by (simp add: dec.simps[of v] fixed_0)
  next
    case False
    have "0 < w" using False Suc.prems by (cases w) simp_all
    moreover have "v div 10 < 10 ^ w" using Suc.prems(1) by (simp add: less_mult_imp_div_less mult.commute)
    ultimately show ?thesis using Suc.IH[of "v div 10"] False by (simp add: dec.simps[of v])
  qed
qed simp

lemma PutDigits_blank:
  assumes "v < 10 ^ w" "0 < w" "w \<le> 4" "length a = off"
  shows "PutDigits (a @ replicate w CHR ''0'' @ b) \<lparr>tf_offset = off, tf_width = w\<rparr> v = Inr (a @ fixed w v @ b)"
proof -
  have f: "fixed w v = replicate (w - length (dec v)) CHR ''0'' @ dec v" and l: "length (dec v) \<le> w"
    using fixed_dec[OF assms(1,2)] by simp_all
  have "replicate w CHR ''0'' = replicate (w - length (dec v)) CHR ''0'' @ replicate (length (dec v)) CHR ''0''"
    using l by (simp flip: replicate_add)
  then show ?thesis
    using assms l by (simp add: PutDigits_def Let_def f)
qed

lemma year_start_le: "year_start y \<le> 366 * y"
  by (induction y) (simp_all add: year_start_Suc days_in_year_def, simp add: year_start_def)

lemma year_start_mono: "y \<le> z \<Longrightarrow> year_start y \<le> year_start z"
  by (induction z rule: dec_induct) (simp_all add: year_start_Suc)

lemma year_from_spec:
  "year_start y \<le> d \<Longrightarrow> year_start (year_from y d) \<le> d \<and> d < year_start (Suc (year_from y d))"
proof (induction y d rule: year_from.induct)
  case (1 y d)
  then show ?case by (cases "d < year_start (Suc y)") (simp_all add: year_from.simps[of y d])
qed

abbreviation days_before :: "nat \<Rightarrow> nat \<Rightarrow> bool \<Rightarrow> nat" where
  "days_before a m leap \<equiv> (\<Sum>i\<leftarrow>[a..<m]. DaysInMonth i leap)"

lemma month_from_spec:
  assumes "month_from (Suc n) leap d = (m, r)" "n < 12" "d < days_before (12 - n) 13 leap"
  shows "12 - n \<le> m \<and> m \<le> 12 \<and> r < DaysInMonth m leap \<and> d = days_before (12 - n) m leap + r"
  using assms
proof (induction n arbitrary: d)
  case (Suc n)
  have e: "12 - n = Suc (12 - Suc n)" using Suc.prems(2) by simp
  have u: "[12 - Suc n..<13] = (12 - Suc n) # [12 - n..<13]"
    unfolding e by (rule upt_conv_Cons) simp
  show ?case
  proof (cases "d < DaysInMonth (12 - Suc n) leap")
    case True
    then show ?thesis using Suc.prems by auto
  next
    case False
    let ?d = "d - DaysInMonth (12 - Suc n) leap"
    have "month_from (Suc n) leap ?d = (m, r)" using Suc.prems(1) False by simp
    moreover have "?d < days_before (12 - n) 13 leap" using Suc.prems(3)[unfolded u] False by simp
    ultimately have i: "12 - n \<le> m" "m \<le> 12" "r < DaysInMonth m leap" "?d = days_before (12 - n) m leap + r"
      using Suc.IH[of ?d] Suc.prems(2) by auto
    have v: "[12 - Suc n..<m] = (12 - Suc n) # [12 - n..<m]"
      using i(1) unfolding e by (intro upt_conv_Cons) simp
    show ?thesis unfolding v using i False Suc.prems(2) by auto
  qed
qed (auto split: if_splits)

lemma days_before_year: "days_before 1 13 (IsLeapYear y) = days_in_year y"
  by (cases "IsLeapYear y") (simp_all add: days_in_year_def DaysInMonth_def upt_rec numeral_nat)

lemma year_month_day_spec:
  assumes "year_month_day d = (y, m, k)"
  shows "1 \<le> m \<and> m \<le> 12 \<and> 1 \<le> k \<and> k \<le> DaysInMonth m (IsLeapYear y)
    \<and> d = year_start y + days_before 1 m (IsLeapYear y) + (k - 1)
    \<and> d < year_start (Suc y)"
proof -
  have y: "y = year_from (d div 366) d" using assms by (simp add: year_month_day_def Let_def split: prod.splits)
  have "year_start (d div 366) \<le> d"
    using year_start_le[of "d div 366"] div_times_less_eq_dividend[of d 366] by simp
  then have s: "year_start y \<le> d" "d < year_start (Suc y)" using year_from_spec y by auto
  obtain m' r where mf: "month_from 12 (IsLeapYear y) (d - year_start y) = (m', r)" by fastforce
  then have e: "m' = m" "k = r + 1"
    using assms by (simp_all add: year_month_day_def Let_def y[symmetric])
  then have r: "month_from (Suc 11) (IsLeapYear y) (d - year_start y) = (m, r)"
    using mf by (simp del: month_from.simps)
  have "d - year_start y < days_before (12 - 11) 13 (IsLeapYear y)"
    using s days_before_year[of y] by (simp add: year_start_Suc)
  from month_from_spec[OF r _ this] e(2) s show ?thesis by auto
qed

lemma put_field:
  assumes "v < 10 ^ w" "0 < w" "w \<le> 4" "off + w \<le> length text"
    "take w (drop off text) = replicate w CHR ''0''"
  shows "put_fields text ((\<lparr>tf_offset = off, tf_width = w\<rparr>, v) # rest)
    = put_fields (take off text @ fixed w v @ drop (off + w) text) rest"
proof -
  have "text = take off text @ replicate w CHR ''0'' @ drop (off + w) text"
    by (metis append_take_drop_id assms(5) drop_drop add.commute)
  then show ?thesis
    using PutDigits_blank[OF assms(1,2,3), of "take off text" off "drop (off + w) text"] assms(4) by simp
qed

definition timestamp_form :: "nat \<Rightarrow> nat \<Rightarrow> nat \<Rightarrow> nat \<Rightarrow> nat \<Rightarrow> nat \<Rightarrow> nat \<Rightarrow> string" where
  "timestamp_form y m d h n s f = fixed 4 y @ ''-'' @ fixed 2 m @ ''-'' @ fixed 2 d @ ''T'' @ fixed 2 h
     @ '':'' @ fixed 2 n @ '':'' @ fixed 2 s @ ''.'' @ fixed 3 f @ ''Z''"

lemma put_all:
  assumes "y < 10000" "m < 100" "d < 100" "h < 100" "n < 100" "s < 100" "f < 1000"
  shows "put_fields ''0000-00-00T00:00:00.000Z''
     [(\<lparr>tf_offset = 0, tf_width = 4\<rparr>, y), (\<lparr>tf_offset = 5, tf_width = 2\<rparr>, m),
      (\<lparr>tf_offset = 8, tf_width = 2\<rparr>, d), (\<lparr>tf_offset = 11, tf_width = 2\<rparr>, h),
      (\<lparr>tf_offset = 14, tf_width = 2\<rparr>, n), (\<lparr>tf_offset = 17, tf_width = 2\<rparr>, s),
      (\<lparr>tf_offset = 20, tf_width = 3\<rparr>, f)] = Inr (timestamp_form y m d h n s f)"
proof -
  have zeros: "replicate 2 z = [z, z]" "replicate 3 z = [z, z, z]" "replicate 4 z = [z, z, z, z]" for z :: char
    by (simp_all add: eval_nat_numeral)
  have len: "length (fixed 4 y) = Suc (Suc (Suc (Suc 0)))" "length (fixed 2 m) = Suc (Suc 0)"
    "length (fixed 2 d) = Suc (Suc 0)" "length (fixed 2 h) = Suc (Suc 0)" "length (fixed 2 n) = Suc (Suc 0)"
    "length (fixed 2 s) = Suc (Suc 0)" "length (fixed 3 f) = Suc (Suc (Suc 0))"
    by simp_all
  obtain y1 y2 y3 y4 m1 m2 d1 d2 h1 h2 n1 n2 s1 s2 f1 f2 f3 where
    "fixed 4 y = [y1, y2, y3, y4]" "fixed 2 m = [m1, m2]" "fixed 2 d = [d1, d2]" "fixed 2 h = [h1, h2]"
    "fixed 2 n = [n1, n2]" "fixed 2 s = [s1, s2]" "fixed 3 f = [f1, f2, f3]"
    using len unfolding length_Suc_conv length_0_conv by blast
  then show ?thesis
    using assms by (simp add: put_field timestamp_form_def zeros del: put_fields.simps(2))
qed

lemma digit_char_digit [simp]: "d < 10 \<Longrightarrow> IsDigit (digit_char d)" "d < 10 \<Longrightarrow> DigitValue (digit_char d) = d"
  by (simp_all add: IsDigit_def DigitValue_def byte_digit_char)

lemma fixed_digits:
  "fixed 2 v = [digit_char (v div 10 mod 10), digit_char (v mod 10)]"
  "fixed 3 v = [digit_char (v div 100 mod 10), digit_char (v div 10 mod 10), digit_char (v mod 10)]"
  "fixed 4 v = [digit_char (v div 1000 mod 10), digit_char (v div 100 mod 10), digit_char (v div 10 mod 10),
     digit_char (v mod 10)]"
proof -
  have "fixed (numeral k) v = fixed (pred_numeral k) (v div 10) @ [digit_char (v mod 10)]" for k v
    by (subst numeral_eq_Suc) (rule fixed.simps)
  then show "fixed 2 v = [digit_char (v div 10 mod 10), digit_char (v mod 10)]"
    "fixed 3 v = [digit_char (v div 100 mod 10), digit_char (v div 10 mod 10), digit_char (v mod 10)]"
    "fixed 4 v = [digit_char (v div 1000 mod 10), digit_char (v div 100 mod 10), digit_char (v div 10 mod 10),
      digit_char (v mod 10)]"
    by (simp_all add: div_mult2_eq[symmetric])
qed

lemma two_digits: "(v :: nat) < 100 \<Longrightarrow> v div 10 mod 10 * 10 + v mod 10 = v"
  by (simp add: mod_less less_mult_imp_div_less)

lemma four_digits:
  "(v :: nat) < 10000 \<Longrightarrow> ((v div 1000 mod 10 * 10 + v div 100 mod 10) * 10 + v div 10 mod 10) * 10 + v mod 10 = v"
proof -
  assume "v < 10000"
  then have "v div 1000 mod 10 = v div 1000" by (simp add: less_mult_imp_div_less)
  moreover have "v div 100 = v div 1000 * 10 + v div 100 mod 10"
    using div_mult_mod_eq[of "v div 100" 10] by (simp add: div_mult2_eq[symmetric])
  moreover have "v div 10 = v div 100 * 10 + v div 10 mod 10"
    using div_mult_mod_eq[of "v div 10" 10] by (simp add: div_mult2_eq[symmetric])
  moreover have "v = v div 10 * 10 + v mod 10" by simp
  ultimately show ?thesis by metis
qed

lemma skip_three:
  assumes "IsDigit a" "IsDigit b" "IsDigit c" "\<not> IsDigit z" "length p = n"
  shows "skip_digits (p @ [a, b, c, z]) n = n + 3"
  using assms
  by (simp add: skip_digits.simps[of _ n] skip_digits.simps[of _ "Suc n"] skip_digits.simps[of _ "Suc (Suc n)"]
      skip_digits.simps[of _ "Suc (Suc (Suc n))"] nth_append)

lemma DaysInMonth_le:
  assumes "1 \<le> m" "m \<le> 12"
  shows "DaysInMonth m leap \<le> 31"
proof -
  have "list_all (\<lambda>x. x \<le> 31) [31, 28, 31, 30, 31, 30, 31, 31, 30, 31, 30, 31 :: nat]" by simp
  then have "[31, 28, 31, 30, 31, 30, 31, 31, 30, 31, 30, 31 :: nat] ! (m - 1) \<le> 31"
    using assms unfolding list_all_length by simp
  then show ?thesis unfolding DaysInMonth_def by simp
qed

lemma timestamp_form_rfc3339:
  assumes "y < 10000" "1 \<le> m" "m \<le> 12" "1 \<le> d" "d \<le> DaysInMonth m (IsLeapYear y)" "h < 24" "n < 60" "s < 60"
  shows "IsRfc3339 (timestamp_form y m d h n s f) \<longleftrightarrow> y \<noteq> 0" "length (timestamp_form y m d h n s f) = 24"
proof -
  show "length (timestamp_form y m d h n s f) = 24" by (simp add: timestamp_form_def)
  have d31: "d \<le> 31" using DaysInMonth_le[OF assms(2,3)] assms(5) by (rule order_trans[rotated])
  define t where "t = timestamp_form y m d h n s f"
  have t: "t = [digit_char (y div 1000 mod 10), digit_char (y div 100 mod 10), digit_char (y div 10 mod 10),
     digit_char (y mod 10), CHR ''-'', digit_char (m div 10 mod 10), digit_char (m mod 10), CHR ''-'',
     digit_char (d div 10 mod 10), digit_char (d mod 10), CHR ''T'', digit_char (h div 10 mod 10),
     digit_char (h mod 10), CHR '':'', digit_char (n div 10 mod 10), digit_char (n mod 10), CHR '':'',
     digit_char (s div 10 mod 10), digit_char (s mod 10), CHR ''.'', digit_char (f div 100 mod 10),
     digit_char (f div 10 mod 10), digit_char (f mod 10), CHR ''Z'']"
    by (simp add: t_def timestamp_form_def fixed_digits)
  have not_Z: "\<not> IsDigit (CHR ''Z'')" by (simp add: IsDigit_def)
  have "skip_digits t 20 = 23"
    using skip_three[of "digit_char (f div 100 mod 10)" "digit_char (f div 10 mod 10)" "digit_char (f mod 10)"
      "CHR ''Z''" "take 20 t" 20] not_Z by (simp add: t)
  moreover have "rfc3339_zone t 23" by (simp add: t rfc3339_zone_def)
  moreover have "rfc3339_year t = y"
    using four_digits[OF assms(1)] assms(1) by (simp add: t rfc3339_year_def upt_rec less_mult_imp_div_less)
  moreover have "length t = 24" "t ! 4 = CHR ''-''" "t ! 7 = CHR ''-''" "t ! 10 = CHR ''T''" "t ! 13 = CHR '':''"
    "t ! 16 = CHR '':''" "t ! 19 = CHR ''.''" "list_all (\<lambda>i. IsDigit (t ! i)) [0..<4]"
    by (simp_all add: t upt_rec)
  moreover have "TwoDigits t 5 1 12" "TwoDigits t 8 1 31" "TwoDigits t 11 0 23" "TwoDigits t 14 0 59"
    "TwoDigits t 17 0 59"
    using two_digits[of m] two_digits[of d] two_digits[of h] two_digits[of n] two_digits[of s] assms d31
    by (simp_all add: t TwoDigits_def)
  moreover have "DigitValue (t ! 5) * 10 + DigitValue (t ! 6) = m" "DigitValue (t ! 8) * 10 + DigitValue (t ! 9) = d"
    using two_digits[of m] two_digits[of d] assms(3) d31 by (simp_all add: t)
  ultimately have "IsRfc3339 t \<longleftrightarrow> y \<noteq> 0" using assms(5) by (simp add: IsRfc3339_def)
  then show "IsRfc3339 (timestamp_form y m d h n s f) \<longleftrightarrow> y \<noteq> 0" by (simp add: t_def)
qed

section \<open>The milliseconds of an instant\<close>

lemma sint_bounds: "- (2 ^ 63) \<le> sint (v :: i64)" "sint (v :: i64) < 2 ^ 63"
  using sint_ge[of v] sint_lt[of v] by simp_all

lemma Magnitude_exact: "int (unat (Magnitude v)) = \<bar>sint v\<bar>"
proof (cases "sint v < 0")
  case True
  have "uint (word_of_int (- sint v) :: i64) = - sint v mod 2 ^ 64"
    by (simp only: uint_word_of_int) (simp add: take_bit_eq_mod)
  then have "uint (- v) = - sint v mod 2 ^ 64" by simp
  then show ?thesis using True sint_bounds(1)[of v] by (simp add: Magnitude_def)
next
  case False
  have "uint (word_of_int (sint v) :: i64) = sint v mod 2 ^ 64"
    by (simp only: uint_word_of_int) (simp add: take_bit_eq_mod)
  then have "uint v = sint v mod 2 ^ 64" by simp
  then show ?thesis using False sint_bounds(2)[of v] by (simp add: Magnitude_def)
qed

lemma sint_small:
  assumes "unat (x :: i64) < 2 ^ 63"
  shows "sint x = int (unat x)"
proof -
  have ub: "uint x < 2 ^ 63" using assms by (metis of_nat_less_iff of_nat_numeral of_nat_power uint_nat)
  have lb: "- (2 ^ 63) \<le> uint x" by (rule order_trans[of _ 0]) simp_all
  have "signed_take_bit 63 (uint x) = uint x" by (rule signed_take_bit_int_eq_self[OF lb ub])
  then show ?thesis by (simp add: sint_uint)
qed

definition instant_ms :: "TickInstant \<Rightarrow> int" where
  "instant_ms i = sint (ti_ticks i) * int (unat (numerator (ti_period i))) * 1000
     div int (unat (denominator (ti_period i)))"

definition first_ms :: int where "first_ms = -62167219200000"
definition first_valid_ms :: int where "first_valid_ms = -62135596800000"
definition after_last_ms :: int where "after_last_ms = 253402300800000"

lemma limits: "int (unat (Magnitude k_first)) = - first_ms" "int (unat k_after_last) = after_last_ms"
proof -
  have "year_start 1970 = 719528" "year_start 10000 = 3652425" by (simp_all add: year_start_def)
  then show "int (unat (Magnitude k_first)) = - first_ms" "int (unat k_after_last) = after_last_ms"
    by (simp only: Magnitude_exact, simp add: k_first_def first_ms_def)
      (simp add: k_after_last_def after_last_ms_def \<open>year_start 1970 = 719528\<close> \<open>year_start 10000 = 3652425\<close>)
qed

lemma signed_range:
  assumes "Q < 2 ^ 64"
  shows "of_nat Q \<ge> k_after_last \<longleftrightarrow> after_last_ms \<le> int Q" "of_nat Q > Magnitude k_first \<longleftrightarrow> int Q > - first_ms"
    "int Q < 2 ^ 63 \<Longrightarrow> sint (of_nat Q :: u64) = int Q"
proof -
  have u: "unat (of_nat Q :: u64) = Q" using assms by (simp add: unat_of_nat)
  show "of_nat Q \<ge> k_after_last \<longleftrightarrow> after_last_ms \<le> int Q"
    unfolding word_le_nat_alt u limits(2)[symmetric] by (rule of_nat_le_iff[symmetric])
  show "of_nat Q > Magnitude k_first \<longleftrightarrow> int Q > - first_ms"
    unfolding word_less_nat_alt u limits(1)[symmetric] by (rule of_nat_less_iff[symmetric])
  show "int Q < 2 ^ 63 \<Longrightarrow> sint (of_nat Q :: u64) = int Q"
  proof -
    assume "int Q < 2 ^ 63"
    then have "Q < 2 ^ 63" by simp
    then show ?thesis using sint_small[of "of_nat Q"] unfolding u by blast
  qed
qed

lemma signed_ms_exact:
  assumes "ValidatePeriod (ti_period i) = None"
  shows "if first_ms \<le> instant_ms i \<and> instant_ms i < after_last_ms then signed_ms i = Inr (instant_ms i)
    else \<exists>e. signed_ms i = Inl e"
proof -
  define T where "T = scaled_ticks (Magnitude (ti_ticks i)) (ti_period i) 1000"
  define D where "D = unat (denominator (ti_period i))"
  define Q where "Q = T div D"
  have nz: "numerator (ti_period i) \<noteq> 0" "denominator (ti_period i) \<noteq> 0"
    using assms by (auto simp: ValidatePeriod_def split: if_splits)
  have "0 < D" using nz by (simp add: D_def unat_gt_0)
  then have D: "0 < int D" by simp
  have T: "int T = \<bar>sint (ti_ticks i)\<bar> * int (unat (numerator (ti_period i))) * 1000"
    by (simp only: T_def scaled_ticks_def of_nat_mult Magnitude_exact) simp
  note scale = Scale_exact[OF nz, of 1000 "Magnitude (ti_ticks i)", folded T_def D_def, folded Q_def]
  note lim = limits first_ms_def after_last_ms_def
  show ?thesis
  proof (cases "sint (ti_ticks i) < 0")
    case False
    then have ms: "instant_ms i = int Q" using T by (simp add: instant_ms_def Q_def zdiv_int D_def)
    show ?thesis
    proof (cases "Q < 2 ^ 64")
      case fits: True
      have m: "signed_ms i = (if of_nat Q \<ge> k_after_last
          then Inl (out_of_range ''diagnostic timestamp is outside the four-digit year domain'')
          else Inr (sint (of_nat Q :: u64)))"
        using scale fits False by (simp add: signed_ms_def CheckedAdd_exact unat_of_nat)
      show ?thesis unfolding m ms using signed_range[of Q] fits by (auto simp: lim)
    qed (use scale ms in \<open>auto simp: signed_ms_def lim\<close>)
  next
    case True
    then have "instant_ms i = (- int T) div int D" using T by (simp add: instant_ms_def D_def)
    then have ms: "instant_ms i = - int (Q + (if D dvd T then 0 else 1))"
      using D by (simp add: zdiv_zminus1_eq_if Q_def zdiv_int mod_eq_0_iff_dvd)
    show ?thesis
    proof (cases "Q + (if D dvd T then 0 else 1) < 2 ^ 64")
      case fits: True
      define M where "M = Q + (if D dvd T then 0 else 1)"
      have "of_nat Q + (if D dvd T then 0 else 1) = (of_nat M :: u64)" by (simp add: M_def)
      then have m: "signed_ms i = (if of_nat M > Magnitude k_first
          then Inl (out_of_range ''diagnostic timestamp is outside the four-digit year domain'')
          else Inr (- sint (of_nat M :: u64)))"
        using scale fits True by (auto simp: signed_ms_def CheckedAdd_exact unat_of_nat M_def)
      show ?thesis unfolding m ms M_def[symmetric] using signed_range[of M] fits by (auto simp: lim M_def)
    qed (use scale ms True in \<open>auto simp: signed_ms_def lim CheckedAdd_exact unat_of_nat split: if_splits\<close>)
  qed
qed

section \<open>What a reading tells\<close>

lemma year_zero: "d < year_start 10000 \<Longrightarrow> year_month_day d = (y, m, k) \<Longrightarrow> y < 10000 \<and> (y = 0 \<longleftrightarrow> d < 366)"
proof -
  assume d: "d < year_start 10000" and e: "year_month_day d = (y, m, k)"
  have s: "year_start y \<le> d" "d < year_start (Suc y)" using year_month_day_spec[OF e] by auto
  have "y < 10000" using d s(1) year_start_mono[of 10000 y] by (cases "10000 \<le> y") auto
  moreover have "year_start 1 = 366" by (simp add: year_start_def)
  then have "y = 0 \<longleftrightarrow> d < 366" using s year_start_mono[of 1 y] by (cases y) auto
  ultimately show ?thesis by simp
qed

lemma timestamp_text_valid:
  assumes "first_ms \<le> ms" "ms < after_last_ms"
  shows "\<exists>text. timestamp_text ms = Inr text \<and> length text = 24 \<and> (IsRfc3339 text \<longleftrightarrow> first_valid_ms \<le> ms)"
proof -
  have ys: "year_start 1970 = 719528" "year_start 10000 = 3652425" by (simp_all add: year_start_def)
  define d where "d = nat (ms div ms_per_day + int (year_start 1970))"
  obtain y m k where ymd: "year_month_day d = (y, m, k)" by (cases "year_month_day d") auto
  define t where "t = nat (ms mod ms_per_day)"
  have "t < 86400000" by (simp add: t_def)
  then have t: "t div 3600000 < 24" "t div 60000 mod 60 < 60" "t div 1000 mod 60 < 60" "t mod 1000 < 1000"
    by (simp_all add: less_mult_imp_div_less)
  have d: "d < year_start 10000" "d < 366 \<longleftrightarrow> \<not> first_valid_ms \<le> ms"
    using assms by (auto simp: d_def ys first_ms_def after_last_ms_def first_valid_ms_def)
  have y: "y < 10000" "y = 0 \<longleftrightarrow> d < 366" using year_zero[OF d(1) ymd] by auto
  have c: "1 \<le> m" "m \<le> 12" "1 \<le> k" "k \<le> DaysInMonth m (IsLeapYear y)"
    using year_month_day_spec[OF ymd] by auto
  then have "k < 100" using DaysInMonth_le[of m "IsLeapYear y"] by simp
  then have "timestamp_text ms
      = Inr (timestamp_form y m k (t div 3600000) (t div 60000 mod 60) (t div 1000 mod 60) (t mod 1000))"
    using put_all[of y m k "t div 3600000" "t div 60000 mod 60" "t div 1000 mod 60" "t mod 1000"] y(1) c t ymd
    by (simp add: timestamp_text_def Let_def d_def[symmetric] t_def[symmetric])
  then show ?thesis
    using timestamp_form_rfc3339[OF y(1) c t(1,2,3)] y(2) d(2) by simp
qed

text \<open>
  C31. The diagnostic timestamp of a wall sample with a positive period exists exactly when its time,
  rounded down to a millisecond, lies in the years 0 to 9999. It is then 24 bytes long, and the
  journal accepts it as an RFC 3339 time exactly from the year 1 on.
\<close>

theorem recorded_at_validity:
  assumes "ValidatePeriod (ti_period i) = None"
  shows "if first_ms \<le> instant_ms i \<and> instant_ms i < after_last_ms
    then \<exists>text. FormatRecordedAt i = Inr text \<and> length text = 24
      \<and> (IsRfc3339 text \<longleftrightarrow> first_valid_ms \<le> instant_ms i)
    else \<exists>e. FormatRecordedAt i = Inl e"
  using signed_ms_exact[OF assms] timestamp_text_valid[of "instant_ms i"]
  by (auto simp: FormatRecordedAt_def)

lemma delta_exact:
  assumes "sint (a :: i64) \<le> sint b"
  shows "int (unat (b - a)) = sint b - sint a"
proof -
  have "uint (word_of_int (sint b - sint a) :: i64) = (sint b - sint a) mod 2 ^ 64"
    by (simp only: uint_word_of_int) (simp add: take_bit_eq_mod)
  then have "uint (b - a) = (sint b - sint a) mod 2 ^ 64" by simp
  moreover have "sint b - sint a < 2 ^ 64" using sint_bounds[of a] sint_bounds[of b] by simp
  ultimately show ?thesis using assms by simp
qed

text \<open>
  C32. The monotonic time of a reading is exact: the number of whole nanoseconds between the steady
  sample and the origin, for every pair of 64-bit tick counts and every positive period.
\<close>

theorem elapsed_is_exact:
  assumes "Read c now = Inr (r, c')" "ValidatePeriod (ti_period (ck_origin c)) = None"
  shows "int (unat (monotonic_time r)) =
    (sint (ti_ticks (cs_steady now)) - sint (ti_ticks (ck_origin c)))
      * int (unat (numerator (ti_period (ck_origin c)))) * 1000000000
      div int (unat (denominator (ti_period (ck_origin c))))"
proof -
  let ?p = "ti_period (ck_origin c)" and ?d = "ti_ticks (cs_steady now) - ti_ticks (ck_origin c)"
  have nz: "numerator ?p \<noteq> 0" "denominator ?p \<noteq> 0"
    using assms(2) by (auto simp: ValidatePeriod_def split: if_splits)
  have le: "sint (ti_ticks (ck_origin c)) \<le> sint (ti_ticks (cs_steady now))"
    and sc: "\<exists>x. Scale ?d ?p 1000000000 = Inr x \<and> sc_whole x = monotonic_time r"
    using assms(1) by (auto simp: Read_def Let_def split: if_splits sum.splits)
  define N where "N = scaled_ticks ?d ?p 1000000000 div unat (denominator ?p)"
  have "monotonic_time r = of_nat N \<and> N < 2 ^ 64"
    using Scale_exact[OF nz, of 1000000000 ?d, folded N_def] sc by (auto split: if_splits)
  then have "unat (monotonic_time r) = scaled_ticks ?d ?p 1000000000 div unat (denominator ?p)"
    by (simp add: unat_of_nat N_def[symmetric])
  then show ?thesis
    unfolding scaled_ticks_def using delta_exact[OF le] by (simp only: zdiv_int of_nat_mult) simp
qed

text \<open>\<open>readings c ns\<close>: the results of the calls of \<open>Read\<close> that do not throw.\<close>

fun readings :: "SystemClock \<Rightarrow> ClockSample list \<Rightarrow> ClockReading list" where
  "readings c [] = []"
| "readings c (n # ns) = (case Read c n of Inl e \<Rightarrow> readings c ns | Inr (r, c') \<Rightarrow> r # readings c' ns)"

lemma Read_last: "Read c n = Inr (r, c') \<Longrightarrow> ck_last_ns c \<le> monotonic_time r \<and> ck_last_ns c' = monotonic_time r"
  by (auto simp: Read_def Let_def split: if_splits sum.splits)

text \<open>
  The clock never goes back: whatever the sampler returns, and however many readings fail in
  between, the monotonic times of successive readings do not decrease.
\<close>

theorem clock_never_goes_back:
  "sorted (map monotonic_time (readings c ns)) \<and> list_all (\<lambda>r. ck_last_ns c \<le> monotonic_time r) (readings c ns)"
proof (induction ns arbitrary: c)
  case (Cons n ns)
  show ?case
  proof (cases "Read c n")
    case (Inr rc)
    obtain r c' where rc: "rc = (r, c')" by (cases rc)
    note l = Read_last[OF Inr[unfolded rc]]
    from Cons.IH[of c'] l Inr rc show ?thesis by (auto simp: list_all_iff)
  qed (use Cons.IH in simp)
qed simp

section \<open>Witnesses\<close>

text \<open>A tenth of a second before the epoch, and an instant in the year 0.\<close>

definition sample_wall :: TickInstant where
  "sample_wall = \<lparr>ti_ticks = - 100000000, ti_period = \<lparr>numerator = 1, denominator = 1000000000\<rparr>\<rparr>"

definition sample_year_zero :: TickInstant where
  "sample_year_zero = \<lparr>ti_ticks = - 62160000000, ti_period = \<lparr>numerator = 1, denominator = 1\<rparr>\<rparr>"

theorem recorded_at_validity_witness:
  "(\<exists>text. FormatRecordedAt sample_wall = Inr text \<and> length text = 24 \<and> IsRfc3339 text)
   \<and> (\<exists>text. FormatRecordedAt sample_year_zero = Inr text \<and> length text = 24 \<and> \<not> IsRfc3339 text)"
proof -
  have "instant_ms sample_wall = -100" "instant_ms sample_year_zero = -62160000000000"
    by (simp_all add: instant_ms_def sample_wall_def sample_year_zero_def)
  moreover have "ValidatePeriod (ti_period sample_wall) = None" "ValidatePeriod (ti_period sample_year_zero) = None"
    by (simp_all add: ValidatePeriod_def sample_wall_def sample_year_zero_def)
  ultimately show ?thesis
    using recorded_at_validity[of sample_wall] recorded_at_validity[of sample_year_zero]
    by (auto simp: first_ms_def after_last_ms_def first_valid_ms_def)
qed

definition sample_clock :: SystemClock where
  "sample_clock = \<lparr>ck_origin = \<lparr>ti_ticks = 5, ti_period = \<lparr>numerator = 1, denominator = 3\<rparr>\<rparr>,
     ck_last_ticks = 5, ck_last_ns = 0\<rparr>"

definition sample_now :: ClockSample where
  "sample_now = \<lparr>cs_wall = sample_year_zero,
     cs_steady = \<lparr>ti_ticks = 7, ti_period = \<lparr>numerator = 1, denominator = 3\<rparr>\<rparr>\<rparr>"

theorem elapsed_is_exact_witness:
  "\<exists>r c'. Read sample_clock sample_now = Inr (r, c') \<and> int (unat (monotonic_time r)) = 666666666"
proof -
  have v: "ValidatePeriod (ti_period (ck_origin sample_clock)) = None"
    by (simp add: ValidatePeriod_def sample_clock_def)
  have "ValidatePeriod (ti_period sample_year_zero) = None"
    by (simp add: ValidatePeriod_def sample_year_zero_def)
  moreover have "instant_ms sample_year_zero = -62160000000000"
    by (simp add: instant_ms_def sample_year_zero_def)
  ultimately obtain x where "FormatRecordedAt sample_year_zero = Inr x"
    using signed_ms_exact[of sample_year_zero] timestamp_text_valid[of "instant_ms sample_year_zero"]
    by (auto simp: FormatRecordedAt_def first_ms_def after_last_ms_def)
  moreover have "\<exists>x. Scale 2 \<lparr>numerator = 1, denominator = 3\<rparr> 1000000000 = Inr x"
    using Scale_exact[of "\<lparr>numerator = 1, denominator = 3\<rparr>" 1000000000 2]
    by (auto simp: scaled_ticks_def split: if_splits)
  ultimately obtain r c' where r: "Read sample_clock sample_now = Inr (r, c')"
    by (auto simp: Read_def sample_clock_def sample_now_def Let_def)
  have "int (unat (monotonic_time r)) = 666666666"
    using elapsed_is_exact[OF r v] by (simp add: sample_clock_def sample_now_def)
  then show ?thesis using r by auto
qed

end
