(* ===== verification/File_System.thy ===== *)
theory File_System
  imports Sito_Prelude
begin

text \<open>
  The file-system seam of the journal (\<^verbatim>\<open>include/sitometron/journal/file_system.hpp\<close>). The class
  \<^verbatim>\<open>FileSystem\<close> is a record of its operations over the state \<open>'w\<close> of an implementation. A call that
  may throw returns \<open>Inl\<close> of the exception; the \<^verbatim>\<open>noexcept\<close> calls return their value. A call that
  returns \<^verbatim>\<open>std::optional\<close> with an error out-parameter returns \<open>Inl\<close> of the error or \<open>Inr\<close> of the
  value. The locale \<open>append_store\<close> states what the journal relies on.
\<close>

section \<open>Types\<close>

datatype exn = std_exception string | unknown_exception

datatype IoError = kNone | kInterrupted | kNoSpace | kExists | kLocked | kUnsupported | kOther

datatype FileHandle = FileHandle (handle_value: int)

record WriteOutcome =
  wo_written :: nat
  wo_error :: IoError

record 'w FileSystem =
  EnsureDirectory :: "string \<Rightarrow> 'w \<Rightarrow> (exn + IoError) \<times> 'w"
  Lock :: "string \<Rightarrow> 'w \<Rightarrow> (exn + (IoError + FileHandle)) \<times> 'w"
  List :: "string \<Rightarrow> 'w \<Rightarrow> (exn + (IoError + string list)) \<times> 'w"
  ReadAll :: "string \<Rightarrow> 'w \<Rightarrow> (exn + (IoError + string)) \<times> 'w"
  OpenAppend :: "string \<Rightarrow> bool \<Rightarrow> 'w \<Rightarrow> (exn + (IoError + FileHandle)) \<times> 'w"
  Write :: "FileHandle \<Rightarrow> string \<Rightarrow> 'w \<Rightarrow> WriteOutcome \<times> 'w"
  SyncData :: "FileHandle \<Rightarrow> 'w \<Rightarrow> IoError \<times> 'w"
  SyncDirectory :: "string \<Rightarrow> 'w \<Rightarrow> IoError \<times> 'w"
  Close :: "FileHandle \<Rightarrow> 'w \<Rightarrow> 'w"

text \<open>
  \<^verbatim>\<open>MaintenanceFileSystem\<close> of \<^verbatim>\<open>include/sitometron/journal/maintenance.hpp\<close> extends the interface; \<open>base\<close> is the
  conversion to it. Sizes and counts of links are natural numbers.
\<close>

datatype EntryKind = kNone | kRegularFile | kDirectory | kSymbolicLink | kOther

record 'w MaintenanceFileSystem = "'w FileSystem" +
  Truncate :: "string \<Rightarrow> nat \<Rightarrow> 'w \<Rightarrow> (exn + IoError) \<times> 'w"
  RenameNoReplace :: "string \<Rightarrow> string \<Rightarrow> 'w \<Rightarrow> (exn + IoError) \<times> 'w"
  Entry :: "string \<Rightarrow> 'w \<Rightarrow> (exn + (IoError + EntryKind)) \<times> 'w"
  HardLinks :: "string \<Rightarrow> 'w \<Rightarrow> (exn + (IoError + nat)) \<times> 'w"

abbreviation base :: "'w MaintenanceFileSystem \<Rightarrow> 'w FileSystem" where
  "base m \<equiv> FileSystem.truncate m"

text \<open>
  \<^verbatim>\<open>JoinPath\<close> is \<^verbatim>\<open>std::filesystem::path::operator/\<close> of POSIX: an absolute name replaces the directory,
  and a separator is added unless the directory is empty or ends in one.
\<close>

abbreviation SLASH :: char where
  "SLASH \<equiv> CHR ''/''"

definition JoinPath :: "string \<Rightarrow> string \<Rightarrow> string" where
  "JoinPath directory name =
     (if name \<noteq> [] \<and> hd name = SLASH then name
      else if directory = [] \<or> last directory = SLASH then directory @ name
      else directory @ [SLASH] @ name)"

text \<open>\<^verbatim>\<open>std::string_view::starts_with\<close> and \<^verbatim>\<open>ends_with\<close>.\<close>

definition starts_with :: "string \<Rightarrow> string \<Rightarrow> bool" where
  "starts_with s p \<longleftrightarrow> take (length p) s = p"

definition ends_with :: "string \<Rightarrow> string \<Rightarrow> bool" where
  "ends_with s p \<longleftrightarrow> length p \<le> length s \<and> drop (length s - length p) s = p"

text \<open>\<^verbatim>\<open>operator<\<close> of \<^verbatim>\<open>std::string\<close>.\<close>

fun bytes_less :: "string \<Rightarrow> string \<Rightarrow> bool" where
  "bytes_less [] [] = False"
| "bytes_less [] (d # ds) = True"
| "bytes_less (c # cs) [] = False"
| "bytes_less (c # cs) (d # ds) = (byte c < byte d \<or> (c = d \<and> bytes_less cs ds))"

lemma bytes_less_irrefl [simp]: "\<not> bytes_less a a"
  by (induction a) auto

lemma bytes_less_trans: "bytes_less a b \<Longrightarrow> bytes_less b c \<Longrightarrow> bytes_less a c"
proof (induction a b arbitrary: c rule: bytes_less.induct)
  case (4 a as b bs)
  then show ?case by (cases c) (auto simp: byte_inject)
qed (auto elim: bytes_less.elims)

lemma bytes_less_total: "a = b \<or> bytes_less a b \<or> bytes_less b a"
proof (induction a b rule: bytes_less.induct)
  case (4 a as b bs)
  then show ?case using byte_inject[of a b] by auto
qed auto

text \<open>A name of a file directly inside a directory.\<close>

definition plain_name :: "string \<Rightarrow> bool" where
  "plain_name n \<longleftrightarrow> n \<noteq> [] \<and> SLASH \<notin> set n \<and> BACKSLASH \<notin> set n"

lemma JoinPath_plain: "plain_name n \<Longrightarrow> JoinPath d n = JoinPath d [] @ n"
  by (cases n) (auto simp: JoinPath_def plain_name_def)

lemma JoinPath_inject: "plain_name n \<Longrightarrow> plain_name m \<Longrightarrow> JoinPath d n = JoinPath d m \<longleftrightarrow> n = m"
  by (simp add: JoinPath_plain)

section \<open>What the journal relies on\<close>

text \<open>
  \<open>files w\<close> are the contents of the regular files, \<open>open_path w\<close> the files of the open handles, and
  \<open>ok\<close> holds in the states that the operations lead to.
\<close>

locale append_store =
  fixes fs :: "'w FileSystem"
    and files :: "'w \<Rightarrow> string \<Rightarrow> string option"
    and open_path :: "'w \<Rightarrow> FileHandle \<Rightarrow> string option"
    and ok :: "'w \<Rightarrow> bool"
  assumes Write_law: "Write fs h b w = (out, w') \<Longrightarrow> ok w \<Longrightarrow> open_path w h = Some p \<Longrightarrow> files w p = Some c \<Longrightarrow>
      ok w' \<and> wo_written out \<le> length b \<and> files w' = (files w)(p \<mapsto> c @ take (wo_written out) b)
      \<and> open_path w' = open_path w"
    and SyncData_law: "SyncData fs h w = (e, w') \<Longrightarrow> ok w \<Longrightarrow> open_path w h \<noteq> None \<Longrightarrow>
      ok w' \<and> files w' = files w \<and> open_path w' = open_path w"
    and SyncDirectory_law: "SyncDirectory fs d w = (e, w') \<Longrightarrow> ok w \<Longrightarrow>
      ok w' \<and> files w' = files w \<and> open_path w' = open_path w"
    and Close_law: "Close fs h w = w' \<Longrightarrow> ok w \<Longrightarrow>
      ok w' \<and> files w' = files w \<and> open_path w' = (open_path w)(h := None)"
    and OpenAppend_law: "OpenAppend fs p create w = (r, w') \<Longrightarrow> ok w \<Longrightarrow> ok w' \<and>
      (case r of
         Inr (Inr h) \<Rightarrow> open_path w h = None \<and> open_path w' = (open_path w)(h \<mapsto> p)
           \<and> (if create then files w p = None \<and> files w' = (files w)(p \<mapsto> [])
              else files w p \<noteq> None \<and> files w' = files w)
       | _ \<Rightarrow> files w' = files w \<and> open_path w' = open_path w)"
    and Lock_law: "Lock fs p w = (r, w') \<Longrightarrow> ok w \<Longrightarrow> ok w' \<and> (\<forall>q. q \<noteq> p \<longrightarrow> files w' q = files w q) \<and>
      (case r of Inr (Inr h) \<Rightarrow> open_path w h = None \<and> open_path w' = (open_path w)(h \<mapsto> p)
       | _ \<Rightarrow> open_path w' = open_path w)"
    and EnsureDirectory_law: "EnsureDirectory fs d w = (re, w') \<Longrightarrow> ok w \<Longrightarrow>
      ok w' \<and> files w' = files w \<and> open_path w' = open_path w"
    and List_law: "List fs d w = (rl, w') \<Longrightarrow> ok w \<Longrightarrow> ok w' \<and> files w' = files w \<and> open_path w' = open_path w
      \<and> (case rl of Inr (Inr names) \<Rightarrow>
           distinct names \<and> (\<forall>n \<in> set names. n = [] \<or> plain_name n)
           \<and> (\<forall>n. plain_name n \<longrightarrow> n \<in> set names \<longleftrightarrow> files w (JoinPath d n) \<noteq> None) | _ \<Rightarrow> True)"
    and ReadAll_law: "ReadAll fs p w = (rr, w') \<Longrightarrow> ok w \<Longrightarrow> ok w' \<and> files w' = files w \<and> open_path w' = open_path w
      \<and> (case rr of Inr (Inr c) \<Rightarrow> files w p = Some c | _ \<Rightarrow> True)"
begin

lemmas store_laws = Write_law SyncData_law SyncDirectory_law Close_law OpenAppend_law Lock_law
  EnsureDirectory_law List_law ReadAll_law

end

text \<open>
  A store whose directory \<open>d\<close> can be listed and read in the states of \<open>readable d\<close>.
\<close>

locale readable_store = append_store +
  fixes readable :: "string \<Rightarrow> 'a \<Rightarrow> bool"
  assumes readable_List: "ok w \<Longrightarrow> readable d w \<Longrightarrow> \<exists>names w'. FileSystem.List fs d w = (Inr (Inr names), w') \<and> readable d w'"
    and readable_ReadAll: "ok w \<Longrightarrow> readable d w \<Longrightarrow> files w p \<noteq> None \<Longrightarrow>
      \<exists>content w'. ReadAll fs p w = (Inr (Inr content), w') \<and> readable d w'"

text \<open>
  What maintenance relies on: a cut leaves the file or its first bytes, whatever it reports; a rename
  that reports success moved the file to a free path, any other changed nothing; the queries change
  nothing.
\<close>

locale maintenance_store = append_store "base m" files open_path ok
  for m :: "'w MaintenanceFileSystem"
    and files :: "'w \<Rightarrow> string \<Rightarrow> string option"
    and open_path :: "'w \<Rightarrow> FileHandle \<Rightarrow> string option"
    and ok :: "'w \<Rightarrow> bool" +
  assumes Truncate_law: "Truncate m p n w = (rt, w') \<Longrightarrow> ok w \<Longrightarrow>
      ok w' \<and> (files w' = files w \<or> (\<exists>c. files w p = Some c \<and> files w' = (files w)(p \<mapsto> take n c)))"
    and RenameNoReplace_law: "RenameNoReplace m p q w = (rn, w') \<Longrightarrow> ok w \<Longrightarrow>
      ok w' \<and> (if rn = Inr IoError.kNone
               then files w p \<noteq> None \<and> files w q = None \<and> files w' = (files w)(p := None, q := files w p)
               else files w' = files w)"
    and Entry_law: "Entry m p w = (re, w') \<Longrightarrow> ok w \<Longrightarrow> ok w' \<and> files w' = files w"
    and HardLinks_law: "HardLinks m p w = (rh, w') \<Longrightarrow> ok w \<Longrightarrow> ok w' \<and> files w' = files w"

end
