(* ===== verification/Segment_Names.thy ===== *)
theory Segment_Names
  imports File_System Codec_Emit
begin

text \<open>
  The names of journal segments: \<^verbatim>\<open>SegmentFirstSequence\<close> and \<^verbatim>\<open>SegmentName\<close> of
  \<^verbatim>\<open>src/journal/segment_journal.cpp\<close>, and \<^verbatim>\<open>SegmentFirst\<close>, the copy in \<^verbatim>\<open>src/journal/replay.cpp\<close>.
  The theory shows that the parsers accept exactly the names that the writer gives.
\<close>

section \<open>Definitions\<close>

definition segment_prefix :: string where
  "segment_prefix = ''journal-''"

definition segment_suffix :: string where
  "segment_suffix = ''.ndjson''"

definition sequence_digits :: nat where
  "sequence_digits = 20"

text \<open>The loop over the digits; \<^verbatim>\<open>c < '0'\<close> also holds of a \<^verbatim>\<open>char\<close> above 127, which is negative or above \<^verbatim>\<open>'9'\<close>.\<close>

fun digits_value :: "u64 \<Rightarrow> string \<Rightarrow> u64 option" where
  "digits_value v [] = Some v"
| "digits_value v (c # cs) =
     (if byte c < byte CHR ''0'' \<or> byte c > byte CHR ''9'' then None
      else let digit = of_nat (byte c - byte CHR ''0'')
           in if v > (UINT64_MAX - digit) div 10 then None
              else digits_value (v * 10 + digit) cs)"

definition SegmentFirstSequence :: "string \<Rightarrow> u64 option" where
  "SegmentFirstSequence name =
     (if length name \<noteq> length segment_prefix + sequence_digits + length segment_suffix
        \<or> \<not> starts_with name segment_prefix \<or> \<not> ends_with name segment_suffix
      then None
      else case digits_value 0 (take sequence_digits (drop (length segment_prefix) name)) of
        None \<Rightarrow> None
      | Some v \<Rightarrow> if v = 0 then None else Some v)"

definition SegmentFirst :: "string \<Rightarrow> u64 option" where
  "SegmentFirst name =
     (if length name \<noteq> length segment_prefix + sequence_digits + length segment_suffix
        \<or> \<not> starts_with name segment_prefix \<or> \<not> ends_with name segment_suffix
      then None
      else case digits_value 0 (take sequence_digits (drop (length segment_prefix) name)) of
        None \<Rightarrow> None
      | Some v \<Rightarrow> if v = 0 then None else Some v)"

definition SegmentName :: "u64 \<Rightarrow> string" where
  "SegmentName first_sequence =
     (let digits = to_string first_sequence;
          padded = (if length digits < sequence_digits
                    then replicate (sequence_digits - length digits) CHR ''0'' @ digits else digits)
      in segment_prefix @ padded @ segment_suffix)"

section \<open>The digits of a sequence\<close>

definition digits_nat :: "string \<Rightarrow> nat" where
  "digits_nat = foldl (\<lambda>v c. v * 10 + (byte c - 48)) 0"

lemma digits_nat_snoc [simp]: "digits_nat (cs @ [c]) = digits_nat cs * 10 + (byte c - 48)"
  by (simp add: digits_nat_def)

lemma digits_nat_Nil [simp]: "digits_nat [] = 0"
  by (simp add: digits_nat_def)

lemma IsAsciiDigit_byte: "IsAsciiDigit c \<longleftrightarrow> 48 \<le> byte c \<and> byte c \<le> 57"
  by (simp add: IsAsciiDigit_def)

lemma digits_nat_dec: "digits_nat (dec n) = n"
proof (induction n rule: dec.induct)
  case (1 n)
  show ?case
  proof (cases "n < 10")
    case True
    then have "dec n = [] @ [digit_char n]" by (simp add: dec.simps)
    then show ?thesis using True by (simp only: digits_nat_snoc) (simp add: byte_digit_char)
  next
    case False
    then have "dec n = dec (n div 10) @ [digit_char (n mod 10)]" by (subst dec.simps) simp
    then show ?thesis using 1 False by (simp add: byte_digit_char)
  qed
qed

lemma digits_nat_zeros: "digits_nat (replicate k CHR ''0'' @ cs) = digits_nat cs"
proof (induction cs rule: rev_induct)
  case Nil
  show ?case by (induction k) (simp_all add: replicate_append_same[symmetric] del: replicate_append_same)
next
  case (snoc c cs)
  then show ?case by (simp flip: append_assoc)
qed

lemma decimal_step: "a * 10 + x = b * 10 + y \<Longrightarrow> x < 10 \<Longrightarrow> y < 10 \<Longrightarrow> a = b \<and> x = (y :: nat)"
  by presburger

lemma digits_nat_inject:
  assumes "length cs = length ds" "list_all IsAsciiDigit cs" "list_all IsAsciiDigit ds" "digits_nat cs = digits_nat ds"
  shows "cs = ds"
  using assms
proof (induction cs arbitrary: ds rule: rev_induct)
  case (snoc c cs)
  then obtain d es where ds: "ds = es @ [d]" by (cases ds rule: rev_cases) auto
  have b: "48 \<le> byte c" "byte c \<le> 57" "48 \<le> byte d" "byte d \<le> 57"
    using snoc.prems ds by (simp_all add: IsAsciiDigit_byte)
  have e: "digits_nat cs * 10 + (byte c - 48) = digits_nat es * 10 + (byte d - 48)"
    using snoc.prems ds by simp
  have "byte c - 48 < 10" "byte d - 48 < 10" using b by simp_all
  with decimal_step[OF e] have s: "digits_nat cs = digits_nat es" "byte c - 48 = byte d - 48" by auto
  have "byte c = byte d" using s(2) b(1,3) by (metis le_add_diff_inverse)
  then show ?case using snoc ds s(1) by (simp add: byte_inject)
qed simp

lemma digit_fits:
  fixes v d :: u64
  assumes "unat d < 10"
  shows "v > (UINT64_MAX - d) div 10 \<longleftrightarrow> 2 ^ 64 \<le> unat v * 10 + unat d"
proof -
  have "unat (UINT64_MAX - d) = 2 ^ 64 - 1 - unat d"
    using unat_sub[of d UINT64_MAX] assms by (simp add: unat_max word_le_nat_alt)
  then have "unat ((UINT64_MAX - d) div 10) = (2 ^ 64 - 1 - unat d) div 10"
    by (simp add: unat_div_distrib)
  moreover have "(2 ^ 64 - 1 - e) div 10 < n \<longleftrightarrow> 2 ^ 64 \<le> n * 10 + e" if "e < 10" for e n :: nat
    using that by (simp add: div_less_iff_less_mult) linarith
  ultimately show ?thesis using assms by (simp add: word_less_nat_alt)
qed

lemma fold_digits_grow: "n \<le> foldl (\<lambda>v c. v * 10 + (byte c - 48)) n cs"
proof (induction cs arbitrary: n)
  case (Cons c cs)
  show ?case using Cons[of "n * 10 + (byte c - 48)"] by simp
qed simp

lemma digits_value_spec:
  "digits_value v cs = Some r \<longleftrightarrow>
     list_all IsAsciiDigit cs \<and> foldl (\<lambda>v c. v * 10 + (byte c - 48)) (unat v) cs = unat r"
proof (induction cs arbitrary: v)
  case Nil
  show ?case by (auto simp: word_unat_eq_iff)
next
  case (Cons c cs)
  define d :: u64 where "d = of_nat (byte c - 48)"
  show ?case
  proof (cases "IsAsciiDigit c")
    case False
    then show ?thesis by (auto simp: IsAsciiDigit_byte)
  next
    case True
    have "byte c - 48 < 2 ^ 64" by (rule less_imp_diff_less[OF less_trans[OF byte_less]]) simp
    then have d: "unat d = byte c - 48" unfolding d_def by (rule unat_of_nat_u64)
    have "unat d < 10" using True by (auto simp: d IsAsciiDigit_byte)
    note d = d this
    have step: "digits_value v (c # cs) =
        (if 2 ^ 64 \<le> unat v * 10 + unat d then None else digits_value (v * 10 + d) cs)"
      using True digit_fits[OF d(2), of v] by (simp add: IsAsciiDigit_byte d_def Let_def)
    show ?thesis
    proof (cases "2 ^ 64 \<le> unat v * 10 + unat d")
      case True
      then have "foldl (\<lambda>v c. v * 10 + (byte c - 48)) (unat v) (c # cs) \<noteq> unat r"
        using fold_digits_grow[of "unat v * 10 + unat d" cs] u64_less[of r] d(1) by simp
      then show ?thesis using True step by simp
    next
      case False
      then have "unat (v * 10 + d) = unat v * 10 + (byte c - 48)"
        using unat_mult_exact[of v 10] unat_add_exact[of "v * 10" d] d(1) by simp
      then show ?thesis using Cons[of "v * 10 + d"] False step \<open>IsAsciiDigit c\<close> by simp
    qed
  qed
qed

section \<open>Names and sequences\<close>

definition padded :: "u64 \<Rightarrow> string" where
  "padded n = replicate (sequence_digits - length (to_string n)) CHR ''0'' @ to_string n"

lemma padded_facts:
  "length (padded n) = sequence_digits" "list_all IsAsciiDigit (padded n)" "digits_nat (padded n) = unat n"
proof -
  have "unat n < 10 ^ 20" using u64_less[of n] by simp
  then have "length (to_string n) \<le> sequence_digits"
    using dec_length[of "unat n" 20] by (simp add: to_string_def sequence_digits_def)
  then show "length (padded n) = sequence_digits" by (simp add: padded_def)
  show "list_all IsAsciiDigit (padded n)"
    using dec_digits[of _ "unat n"] by (auto simp: padded_def list_all_iff to_string_def IsAsciiDigit_def)
  show "digits_nat (padded n) = unat n"
    by (simp add: padded_def digits_nat_zeros to_string_def digits_nat_dec)
qed

lemma SegmentName_padded: "SegmentName n = segment_prefix @ padded n @ segment_suffix"
  using padded_facts(1)[of n] by (auto simp: SegmentName_def padded_def Let_def)

lemma name_split:
  assumes "length name = length segment_prefix + sequence_digits + length segment_suffix"
    "starts_with name segment_prefix" "ends_with name segment_suffix"
  shows "name = segment_prefix @ take sequence_digits (drop (length segment_prefix) name) @ segment_suffix"
proof -
  let ?a = "length segment_prefix"
  have "name = take ?a name @ take sequence_digits (drop ?a name) @ drop sequence_digits (drop ?a name)"
    by (simp only: append_take_drop_id)
  moreover have "drop sequence_digits (drop ?a name) = segment_suffix"
    using assms(1,3) by (simp add: ends_with_def add.commute)
  ultimately show ?thesis using assms(2) by (simp add: starts_with_def)
qed

lemma SegmentFirstSequence_iff: "SegmentFirstSequence name = Some n \<longleftrightarrow> n \<noteq> 0 \<and> name = SegmentName n"
proof
  assume a: "SegmentFirstSequence name = Some n"
  let ?ds = "take sequence_digits (drop (length segment_prefix) name)"
  have c: "length name = length segment_prefix + sequence_digits + length segment_suffix"
    "starts_with name segment_prefix" "ends_with name segment_suffix" "digits_value 0 ?ds = Some n" "n \<noteq> 0"
    using a by (auto simp: SegmentFirstSequence_def split: if_splits option.splits)
  have "list_all IsAsciiDigit ?ds" "digits_nat ?ds = unat n" "length ?ds = sequence_digits"
    using c(1,4) digits_value_spec[of 0 ?ds n] by (auto simp: digits_nat_def)
  then have "?ds = padded n" using digits_nat_inject[of ?ds "padded n"] padded_facts by simp
  then show "n \<noteq> 0 \<and> name = SegmentName n" using name_split[OF c(1-3)] c(5) by (simp add: SegmentName_padded)
next
  assume "n \<noteq> 0 \<and> name = SegmentName n"
  moreover have "digits_value 0 (padded n) = Some n"
    using padded_facts[of n] by (simp add: digits_value_spec digits_nat_def)
  ultimately show "SegmentFirstSequence name = Some n"
    using padded_facts(1)[of n]
    by (simp add: SegmentFirstSequence_def SegmentName_padded starts_with_def ends_with_def)
qed

lemma SegmentFirst_eq: "SegmentFirst = SegmentFirstSequence"
  by (simp add: fun_eq_iff SegmentFirst_def SegmentFirstSequence_def)

lemma SegmentName_inject [simp]: "SegmentName m = SegmentName n \<longleftrightarrow> m = n"
proof
  assume "SegmentName m = SegmentName n"
  then have "padded m = padded n" by (simp add: SegmentName_padded)
  then show "m = n" using padded_facts(3)[of m] padded_facts(3)[of n] by (simp add: word_unat_eq_iff)
qed simp

text \<open>Names that look like segments: a name that does but is not one stops both the writer and replay.\<close>

definition segment_shaped :: "string \<Rightarrow> bool" where
  "segment_shaped name \<longleftrightarrow> starts_with name segment_prefix \<and> ends_with name segment_suffix"

lemma SegmentName_shaped [simp]: "segment_shaped (SegmentName n)"
  by (simp add: segment_shaped_def SegmentName_padded starts_with_def ends_with_def)

lemma SegmentName_plain [simp]: "plain_name (SegmentName n)"
proof -
  have "IsAsciiDigit c \<Longrightarrow> c \<noteq> SLASH \<and> c \<noteq> BACKSLASH" for c by (auto simp: IsAsciiDigit_def)
  then have "SLASH \<notin> set (padded n)" "BACKSLASH \<notin> set (padded n)"
    using padded_facts(2)[of n] by (auto simp: list_all_iff)
  then show ?thesis by (simp add: plain_name_def SegmentName_padded segment_prefix_def segment_suffix_def)
qed

text \<open>
  C33. The segment parsers of the writer and of replay accept exactly the names the writer gives:
  a name is a segment that starts at \<open>n\<close> if and only if \<open>n\<close> is not zero and the name is
  \<^verbatim>\<open>SegmentName(n)\<close>; so no two segments start at the same sequence, and a number that does not fit 64
  bits is no segment.
\<close>

theorem segment_names_roundtrip:
  "(SegmentFirstSequence name = Some n \<longleftrightarrow> n \<noteq> 0 \<and> name = SegmentName n)
   \<and> (SegmentFirst name = Some n \<longleftrightarrow> n \<noteq> 0 \<and> name = SegmentName n)
   \<and> (SegmentName m = SegmentName n \<longleftrightarrow> m = n) \<and> length (SegmentName n) = 35"
proof -
  have "length (SegmentName n) = 35"
    using padded_facts(1)[of n]
    by (simp add: SegmentName_padded segment_prefix_def segment_suffix_def sequence_digits_def)
  then show ?thesis by (simp add: SegmentFirst_eq SegmentFirstSequence_iff)
qed

end
