(* ===== verification/Memory_File_System.thy ===== *)
theory Memory_File_System
  imports File_System
begin

text \<open>
  The in-memory file system with scripted faults of \<^verbatim>\<open>tests/support/memory_file_system.hpp\<close>, as an
  implementation of the seam. The state is the record of its members; \<^verbatim>\<open>std::map\<close> and \<^verbatim>\<open>std::set\<close> are
  lists, the former sorted by key. The test hook \<^verbatim>\<open>on_throwing_create\<close> is not modelled. The theory
  interprets the interfaces of the journal and of the maintenance tools on this implementation.
\<close>

section \<open>Sorted association lists\<close>

fun put :: "string \<Rightarrow> 'v \<Rightarrow> (string \<times> 'v) list \<Rightarrow> (string \<times> 'v) list" where
  "put k v [] = [(k, v)]"
| "put k v ((a, b) # m) =
     (if k = a then (k, v) # m else if bytes_less k a then (k, v) # (a, b) # m else (a, b) # put k v m)"

lemma map_of_put [simp]: "map_of (put k v m) = (map_of m)(k \<mapsto> v)"
  by (induction m) auto

fun sorted_keys :: "(string \<times> 'v) list \<Rightarrow> bool" where
  "sorted_keys [] = True"
| "sorted_keys ((a, b) # m) \<longleftrightarrow> list_all (\<lambda>(c, d). bytes_less a c) m \<and> sorted_keys m"

lemma sorted_put: "sorted_keys m \<Longrightarrow> sorted_keys (put k v m)"
proof (induction m)
  case (Cons ab m)
  obtain a b where ab: "ab = (a, b)" by (cases ab)
  have "list_all (\<lambda>(c, d). bytes_less a c) m \<Longrightarrow> bytes_less a k \<Longrightarrow> list_all (\<lambda>(c, d). bytes_less a c) (put k v m)"
    by (induction m) auto
  moreover have "list_all (\<lambda>(c, d). bytes_less a c) m \<Longrightarrow> bytes_less k a \<Longrightarrow> list_all (\<lambda>(c, d). bytes_less k c) m"
    using bytes_less_trans by (auto simp: list_all_iff)
  ultimately show ?case using Cons ab bytes_less_total[of k a] by auto
qed simp

lemma sorted_distinct: "sorted_keys m \<Longrightarrow> distinct (map fst m)"
  by (induction m) (fastforce simp: list_all_iff)+

section \<open>The file system\<close>

record WriteFault =
  wf_accept :: nat
  wf_error :: IoError

record MemoryFileSystem =
  m_files :: "(string \<times> string) list"
  m_directories :: "string list"
  m_durable_entries :: "string list"
  m_log :: "string list"
  m_next_write_fault :: "WriteFault option"
  m_interrupted_writes :: nat
  m_short_write_limit :: nat
  m_fail_next_sync :: bool
  m_fail_next_directory_sync :: bool
  m_directory_syncs_until_failure :: nat
  m_fail_next_create :: bool
  m_throw_on_create :: bool
  m_throw_on_list :: bool
  m_throw_on_read :: bool
  m_fail_next_mkdir :: bool
  m_unreadable_entries :: "string list"
  m_hard_links :: "(string \<times> nat) list"
  m_other_entries :: "string list"
  m_symbolic_links :: "string list"
  m_fail_next_truncate :: bool
  m_fail_next_rename :: bool
  m_renames_until_failure :: nat
  m_ignore_next_truncate :: bool
  m_fail_after_next_truncate :: bool
  m_next_truncate_to :: "nat option"
  m_ignore_next_rename :: bool
  m_throw_on_rename :: bool
  m_create_error :: IoError
  m_handles :: "(int \<times> string) list"
  m_locked :: "string list"
  m_next_handle :: int

definition logged :: "string \<Rightarrow> MemoryFileSystem \<Rightarrow> MemoryFileSystem" where
  "logged entry w = w\<lparr>m_log := m_log w @ [entry]\<rparr>"

definition Register :: "string \<Rightarrow> MemoryFileSystem \<Rightarrow> FileHandle \<times> MemoryFileSystem" where
  "Register path w =
     (FileHandle (m_next_handle w),
      w\<lparr>m_handles := (m_next_handle w, path) # m_handles w, m_next_handle := m_next_handle w + 1\<rparr>)"

text \<open>\<open>inside\<close>: \<^verbatim>\<open>rfind(prefix, 0) == 0\<close> and no separator after the prefix.\<close>

definition inside :: "string \<Rightarrow> string \<Rightarrow> bool" where
  "inside prefix path \<longleftrightarrow> starts_with path prefix
     \<and> list_all (\<lambda>c. c \<noteq> SLASH \<and> c \<noteq> BACKSLASH) (drop (length prefix) path)"

definition m_EnsureDirectory :: "string \<Rightarrow> MemoryFileSystem \<Rightarrow> (exn + IoError) \<times> MemoryFileSystem" where
  "m_EnsureDirectory directory w0 =
     (let w = logged (''mkdir '' @ directory) w0 in
      if m_fail_next_mkdir w then (Inr IoError.kOther, w\<lparr>m_fail_next_mkdir := False\<rparr>)
      else (Inr IoError.kNone, w\<lparr>m_directories := List.insert directory (m_directories w)\<rparr>))"

definition m_Lock :: "string \<Rightarrow> MemoryFileSystem \<Rightarrow> (exn + (IoError + FileHandle)) \<times> MemoryFileSystem" where
  "m_Lock path w0 =
     (let w = logged (''lock '' @ path) w0 in
      if List.member (m_locked w) path then (Inr (Inl IoError.kLocked), w)
      else let (h, w1) = Register path (w\<lparr>m_locked := List.insert path (m_locked w)\<rparr>)
           in (Inr (Inr h), w1))"

definition m_List :: "string \<Rightarrow> MemoryFileSystem \<Rightarrow> (exn + (IoError + string list)) \<times> MemoryFileSystem" where
  "m_List directory w0 =
     (let w = logged (''list '' @ directory) w0 in
      if m_throw_on_list w then (Inl (std_exception ''injected list exception''), w)
      else if \<not> List.member (m_directories w) directory then (Inr (Inl IoError.kOther), w)
      else let prefix = JoinPath directory []
           in (Inr (Inr (map (\<lambda>(path, _). drop (length prefix) path)
                 (filter (\<lambda>(path, _). inside prefix path) (m_files w)))), w))"

definition m_ReadAll :: "string \<Rightarrow> MemoryFileSystem \<Rightarrow> (exn + (IoError + string)) \<times> MemoryFileSystem" where
  "m_ReadAll path w0 =
     (let w = logged (''read '' @ path) w0 in
      if m_throw_on_read w then (Inl (std_exception ''injected read exception''), w)
      else case map_of (m_files w) path of
        None \<Rightarrow> (Inr (Inl IoError.kOther), w)
      | Some content \<Rightarrow> (Inr (Inr content), w))"

definition m_OpenAppend ::
  "string \<Rightarrow> bool \<Rightarrow> MemoryFileSystem \<Rightarrow> (exn + (IoError + FileHandle)) \<times> MemoryFileSystem" where
  "m_OpenAppend path create_new w0 =
     (let w = logged ((if create_new then ''create '' else ''open '') @ path) w0 in
      if create_new \<and> m_throw_on_create w
      then (Inl (std_exception ''injected create exception''), w\<lparr>m_throw_on_create := False\<rparr>)
      else if create_new then
        (if m_fail_next_create w then (Inr (Inl (m_create_error w)), w\<lparr>m_fail_next_create := False\<rparr>)
         else if map_of (m_files w) path \<noteq> None then (Inr (Inl IoError.kExists), w)
         else let (h, w1) = Register path (w\<lparr>m_files := put path [] (m_files w)\<rparr>) in (Inr (Inr h), w1))
      else if map_of (m_files w) path = None then (Inr (Inl IoError.kOther), w)
      else let (h, w1) = Register path w in (Inr (Inr h), w1))"

text \<open>\<open>append_to\<close>: \<^verbatim>\<open>files[handles_.at(file.value)].append(bytes)\<close>.\<close>

definition append_to :: "FileHandle \<Rightarrow> string \<Rightarrow> MemoryFileSystem \<Rightarrow> MemoryFileSystem" where
  "append_to file bytes w =
     (case map_of (m_handles w) (handle_value file) of
        None \<Rightarrow> w
      | Some path \<Rightarrow>
          (let content = (case map_of (m_files w) path of Some c \<Rightarrow> c | None \<Rightarrow> [])
           in w\<lparr>m_files := put path (content @ bytes) (m_files w)\<rparr>))"

definition m_Write :: "FileHandle \<Rightarrow> string \<Rightarrow> MemoryFileSystem \<Rightarrow> WriteOutcome \<times> MemoryFileSystem" where
  "m_Write file bytes w0 =
     (let w = logged (''write '' @ dec (length bytes)) w0 in
      if m_interrupted_writes w > 0
      then (\<lparr>wo_written = 0, wo_error = IoError.kInterrupted\<rparr>,
            w\<lparr>m_interrupted_writes := m_interrupted_writes w - 1\<rparr>)
      else case m_next_write_fault w of
        Some fault \<Rightarrow>
          (let accepted = min (wf_accept fault) (length bytes)
           in (\<lparr>wo_written = accepted, wo_error = wf_error fault\<rparr>,
               append_to file (take accepted bytes) (w\<lparr>m_next_write_fault := None\<rparr>)))
      | None \<Rightarrow>
          (let accepted = (if m_short_write_limit w \<noteq> 0 then min (length bytes) (m_short_write_limit w)
                           else length bytes)
           in (\<lparr>wo_written = accepted, wo_error = IoError.kNone\<rparr>, append_to file (take accepted bytes) w)))"

definition m_SyncData :: "FileHandle \<Rightarrow> MemoryFileSystem \<Rightarrow> IoError \<times> MemoryFileSystem" where
  "m_SyncData file w0 =
     (let path = (case map_of (m_handles w0) (handle_value file) of Some p \<Rightarrow> p | None \<Rightarrow> []);
          w = logged (''sync '' @ path) w0
      in if m_fail_next_sync w then (IoError.kOther, w\<lparr>m_fail_next_sync := False\<rparr>) else (IoError.kNone, w))"

definition m_SyncDirectory :: "string \<Rightarrow> MemoryFileSystem \<Rightarrow> IoError \<times> MemoryFileSystem" where
  "m_SyncDirectory directory w0 =
     (let w = logged (''syncdir '' @ directory) w0;
          n = m_directory_syncs_until_failure w;
          w1 = (if n \<noteq> 0 then w\<lparr>m_directory_syncs_until_failure := n - 1\<rparr> else w)
      in if n \<noteq> 0 \<and> n - 1 = 0 then (IoError.kUnsupported, w1)
         else if m_fail_next_directory_sync w1
         then (IoError.kUnsupported, w1\<lparr>m_fail_next_directory_sync := False\<rparr>)
         else let prefix = JoinPath directory []
              in (IoError.kNone, w1\<lparr>m_durable_entries :=
                   fold (\<lambda>(path, _). if inside prefix path then List.insert path else id) (m_files w1)
                     (m_durable_entries w1)\<rparr>))"

definition m_Close :: "FileHandle \<Rightarrow> MemoryFileSystem \<Rightarrow> MemoryFileSystem" where
  "m_Close file w =
     (case map_of (m_handles w) (handle_value file) of
        None \<Rightarrow> w
      | Some path \<Rightarrow>
          (let w1 = logged (''close '' @ path) w
           in w1\<lparr>m_locked := removeAll path (m_locked w1),
                 m_handles := filter (\<lambda>(h, _). h \<noteq> handle_value file) (m_handles w1)\<rparr>))"

definition memory_fs :: "MemoryFileSystem FileSystem" where
  "memory_fs = \<lparr>EnsureDirectory = m_EnsureDirectory, Lock = m_Lock, List = m_List, ReadAll = m_ReadAll,
     OpenAppend = m_OpenAppend, Write = m_Write, SyncData = m_SyncData, SyncDirectory = m_SyncDirectory,
     Close = m_Close\<rparr>"


section \<open>It implements the seam\<close>

definition mem_files :: "MemoryFileSystem \<Rightarrow> string \<Rightarrow> string option" where
  "mem_files w = map_of (m_files w)"

definition mem_open :: "MemoryFileSystem \<Rightarrow> FileHandle \<Rightarrow> string option" where
  "mem_open w h = map_of (m_handles w) (handle_value h)"

definition mem_ok :: "MemoryFileSystem \<Rightarrow> bool" where
  "mem_ok w \<longleftrightarrow> sorted_keys (m_files w) \<and> list_all (\<lambda>(h, _). h < m_next_handle w) (m_handles w)"

lemmas mem_defs = mem_files_def mem_open_def mem_ok_def

lemma logged_simps [simp]:
  "m_files (logged e w) = m_files w" "m_handles (logged e w) = m_handles w"
  "m_next_handle (logged e w) = m_next_handle w"
  by (simp_all add: logged_def)

lemma fresh_handle: "mem_ok w \<Longrightarrow> m_next_handle w \<le> h \<Longrightarrow> map_of (m_handles w) h = None"
  by (auto simp: mem_ok_def list_all_iff map_of_eq_None_iff)

lemma Register_spec:
  assumes "Register path w = (h, w')" "mem_ok w"
  shows "mem_ok w'" "mem_files w' = mem_files w" "mem_open w h = None" "mem_open w' = (mem_open w)(h \<mapsto> path)"
proof -
  show "mem_ok w'" "mem_files w' = mem_files w"
    using assms by (fastforce simp: Register_def mem_defs list_all_iff)+
  show "mem_open w h = None" using assms fresh_handle by (auto simp: Register_def mem_open_def)
  show "mem_open w' = (mem_open w)(h \<mapsto> path)"
    using assms(1) by (auto simp: Register_def mem_open_def fun_eq_iff FileHandle.expand)
qed

lemma mem_update [simp]:
  "mem_files (logged e w) = mem_files w" "mem_open (logged e w) = mem_open w" "mem_ok (logged e w) = mem_ok w"
  by (simp_all add: mem_defs fun_eq_iff)

lemma append_to_spec:
  assumes "mem_ok w" "mem_open w h = Some p" "mem_files w p = Some c"
  shows "mem_ok (append_to h b w)" "mem_files (append_to h b w) = (mem_files w)(p \<mapsto> c @ b)"
    "mem_open (append_to h b w) = mem_open w"
  using assms sorted_put by (auto simp: append_to_def mem_defs fun_eq_iff)

lemma inside_plain: "plain_name n \<Longrightarrow> inside (JoinPath d []) (JoinPath d n)"
  by (auto simp: JoinPath_plain inside_def starts_with_def plain_name_def list_all_iff)

lemma m_List_spec:
  assumes "m_List d w = (Inr (Inr names), w')" "mem_ok w"
  shows "distinct names" "\<forall>n \<in> set names. n = [] \<or> plain_name n"
    "plain_name n \<Longrightarrow> n \<in> set names \<longleftrightarrow> mem_files w (JoinPath d n) \<noteq> None"
proof -
  define p where "p = JoinPath d []"
  define ks where "ks = filter (inside p) (map fst (m_files w))"
  have n: "names = map (drop (length p)) ks"
    using assms(1) by (auto simp: m_List_def Let_def p_def ks_def filter_map o_def case_prod_unfold split: if_splits)
  have i: "inside p k \<Longrightarrow> k = p @ drop (length p) k" for k
    by (metis append_take_drop_id inside_def starts_with_def)
  have "distinct ks" using assms(2) unfolding ks_def mem_ok_def by (intro distinct_filter sorted_distinct) simp
  moreover have "inj_on (drop (length p)) (set ks)"
  proof (rule inj_onI)
    fix a b assume "a \<in> set ks" "b \<in> set ks" "drop (length p) a = drop (length p) b"
    moreover from this have "inside p a" "inside p b" by (simp_all add: ks_def)
    ultimately show "a = b" using i[of a] i[of b] by metis
  qed
  ultimately show "distinct names" by (simp add: n distinct_map)
  show "\<forall>n \<in> set names. n = [] \<or> plain_name n"
    by (auto simp: n ks_def inside_def plain_name_def list_all_iff)
  assume "plain_name n"
  then have j: "JoinPath d n = p @ n" "inside p (p @ n)"
    using inside_plain[of n d] by (auto simp: p_def JoinPath_plain)
  have "n \<in> set names \<longleftrightarrow> (\<exists>k \<in> fst ` set (m_files w). inside p k \<and> n = drop (length p) k)"
    by (auto simp: n ks_def)
  also have "\<dots> \<longleftrightarrow> p @ n \<in> fst ` set (m_files w)" using i j(2) by (metis append_eq_conv_conj)
  finally show "n \<in> set names \<longleftrightarrow> mem_files w (JoinPath d n) \<noteq> None"
    by (simp add: j(1) mem_files_def map_of_eq_None_iff)
qed

lemma map_of_without: "map_of (filter (\<lambda>(h, _). h \<noteq> k) m) = (map_of m)(k := None)"
  by (induction m) auto

lemma handle_value_inject [simp]: "handle_value g = handle_value h \<longleftrightarrow> g = h"
  by (auto intro: FileHandle.expand)

lemma m_OpenAppend_spec:
  assumes "m_OpenAppend p create w = (r, w')" "mem_ok w"
  shows "mem_ok w' \<and>
    (case r of
       Inr (Inr h) \<Rightarrow> mem_open w h = None \<and> mem_open w' = (mem_open w)(h \<mapsto> p)
         \<and> (if create then mem_files w p = None \<and> mem_files w' = (mem_files w)(p \<mapsto> [])
            else mem_files w p \<noteq> None \<and> mem_files w' = mem_files w)
     | _ \<Rightarrow> mem_files w' = mem_files w \<and> mem_open w' = mem_open w)"
proof (cases "\<exists>h. r = Inr (Inr h)")
  case True
  then obtain h where r: "r = Inr (Inr h)" by blast
  let ?w = "logged ((if create then ''create '' else ''open '') @ p) w"
  let ?w1 = "if create then ?w\<lparr>m_files := put p [] (m_files ?w)\<rparr> else ?w"
  have "Register p ?w1 = (h, w')" "if create then mem_files w p = None else mem_files w p \<noteq> None"
    using assms(1) r by (auto simp: m_OpenAppend_def Let_def mem_files_def split: if_splits prod.splits)
  moreover have "mem_ok ?w1" "mem_open ?w1 = mem_open w"
    "mem_files ?w1 = (if create then (mem_files w)(p \<mapsto> []) else mem_files w)"
    using assms(2) sorted_put by (auto simp: mem_defs fun_eq_iff)
  ultimately show ?thesis using Register_spec[of p ?w1 h w'] r by simp
next
  case False
  then show ?thesis
    using assms by (auto simp: m_OpenAppend_def Let_def mem_defs fun_eq_iff split: if_splits prod.splits sum.splits)
qed

lemma m_Lock_spec:
  assumes "m_Lock p w = (r, w')" "mem_ok w"
  shows "mem_ok w' \<and> mem_files w' = mem_files w \<and>
    (case r of Inr (Inr h) \<Rightarrow> mem_open w h = None \<and> mem_open w' = (mem_open w)(h \<mapsto> p)
     | _ \<Rightarrow> mem_open w' = mem_open w)"
proof -
  define w1 where "w1 = (logged (''lock '' @ p) w)\<lparr>m_locked := List.insert p (m_locked w)\<rparr>"
  have "mem_ok w1" "mem_open w1 = mem_open w" "mem_files w1 = mem_files w"
    using assms(2) by (simp_all add: w1_def mem_defs fun_eq_iff)
  then show ?thesis
    using assms Register_spec[of p w1]
    by (auto simp: m_Lock_def Let_def w1_def logged_def split: if_splits prod.splits) 
qed

interpretation mem: append_store memory_fs mem_files mem_open mem_ok
proof (unfold_locales, goal_cases)
  case (1 h b w out w' p c)
  then show ?case
    using append_to_spec[of _ h p c]
    by (auto simp: memory_fs_def m_Write_def Let_def mem_defs append_to_def sorted_put split: if_splits option.splits)
next
  case (2 h w e w')
  then show ?case by (auto simp: memory_fs_def m_SyncData_def Let_def mem_defs fun_eq_iff split: if_splits)
next
  case (3 d w e w')
  then show ?case by (auto simp: memory_fs_def m_SyncDirectory_def Let_def mem_defs fun_eq_iff split: if_splits)
next
  case (4 h w w')
  then show ?case
    by (auto simp: memory_fs_def m_Close_def Let_def mem_defs fun_eq_iff list_all_iff map_of_without
        split: option.splits)
next
  case (5 p create w r w')
  then show ?case using m_OpenAppend_spec[of p create w r w'] by (simp add: memory_fs_def)
next
  case (6 p w r w')
  then show ?case using m_Lock_spec[of p w r w'] by (auto simp: memory_fs_def split: sum.splits)
next
  case (7 d w re w')
  then show ?case by (auto simp: memory_fs_def m_EnsureDirectory_def Let_def mem_defs fun_eq_iff split: if_splits)
next
  case (8 d w rl w')
  then show ?case
    using m_List_spec[of d w] by (auto simp: memory_fs_def m_List_def Let_def split: sum.splits if_splits)
next
  case (9 p w rr w')
  then show ?case
    by (auto simp: memory_fs_def m_ReadAll_def Let_def mem_files_def split: if_splits option.splits)
qed
section \<open>Readable directories\<close>

definition mem_readable :: "string \<Rightarrow> MemoryFileSystem \<Rightarrow> bool" where
  "mem_readable d w \<longleftrightarrow> \<not> m_throw_on_list w \<and> \<not> m_throw_on_read w \<and> List.member (m_directories w) d"

interpretation mem_read: readable_store memory_fs mem_files mem_open mem_ok mem_readable
  by unfold_locales
    (auto simp: memory_fs_def m_List_def m_ReadAll_def Let_def mem_readable_def mem_files_def logged_def split: option.splits)

text \<open>No operation of the seam clears a directory or touches these scripted faults.\<close>

definition mem_faults :: "MemoryFileSystem \<Rightarrow> bool \<times> bool \<times> nat option \<times> bool" where
  "mem_faults w = (m_throw_on_list w, m_throw_on_read w, m_next_truncate_to w, m_ignore_next_rename w)"

definition mem_keeps :: "MemoryFileSystem \<Rightarrow> MemoryFileSystem \<Rightarrow> bool" where
  "mem_keeps w w' \<longleftrightarrow> mem_faults w' = mem_faults w \<and> set (m_directories w) \<subseteq> set (m_directories w')"

lemma memory_keeps:
  "Write memory_fs h b w = (o1, w') \<Longrightarrow> mem_keeps w w'"
  "SyncData memory_fs h w = (o2, w') \<Longrightarrow> mem_keeps w w'"
  "SyncDirectory memory_fs a w = (o3, w') \<Longrightarrow> mem_keeps w w'"
  "Close memory_fs h w = w' \<Longrightarrow> mem_keeps w w'"
  "OpenAppend memory_fs p new w = (o5, w') \<Longrightarrow> mem_keeps w w'"
  "Lock memory_fs p w = (o6, w') \<Longrightarrow> mem_keeps w w'"
  "EnsureDirectory memory_fs a w = (o7, w') \<Longrightarrow> mem_keeps w w'"
  "FileSystem.List memory_fs a w = (o8, w') \<Longrightarrow> mem_keeps w w'"
  "ReadAll memory_fs p w = (o9, w') \<Longrightarrow> mem_keeps w w'"
proof -
  note defs = memory_fs_def mem_keeps_def mem_faults_def logged_def append_to_def Register_def Let_def
  show "Write memory_fs h b w = (o1, w') \<Longrightarrow> mem_keeps w w'"
    by (auto simp: defs m_Write_def split: if_splits option.splits)
  show "SyncData memory_fs h w = (o2, w') \<Longrightarrow> mem_keeps w w'"
    by (auto simp: defs m_SyncData_def split: if_splits)
  show "SyncDirectory memory_fs a w = (o3, w') \<Longrightarrow> mem_keeps w w'"
    by (auto simp: defs m_SyncDirectory_def split: if_splits)
  show "Close memory_fs h w = w' \<Longrightarrow> mem_keeps w w'"
    by (auto simp: defs m_Close_def split: option.splits)
  show "OpenAppend memory_fs p new w = (o5, w') \<Longrightarrow> mem_keeps w w'"
    by (auto simp: defs m_OpenAppend_def split: if_splits)
  show "Lock memory_fs p w = (o6, w') \<Longrightarrow> mem_keeps w w'"
    by (auto simp: defs m_Lock_def split: if_splits)
  show "EnsureDirectory memory_fs a w = (o7, w') \<Longrightarrow> mem_keeps w w'"
    by (auto simp: defs m_EnsureDirectory_def split: if_splits)
  show "FileSystem.List memory_fs a w = (o8, w') \<Longrightarrow> mem_keeps w w'"
    by (auto simp: defs m_List_def split: if_splits)
  show "ReadAll memory_fs p w = (o9, w') \<Longrightarrow> mem_keeps w w'"
    by (auto simp: defs m_ReadAll_def split: if_splits option.splits)
qed

lemma append_store_keeping:
  assumes "\<And>w w'. mem_keeps w w' \<Longrightarrow> Q w \<Longrightarrow> Q w'"
  shows "append_store memory_fs mem_files mem_open (\<lambda>w. mem_ok w \<and> Q w)"
proof (unfold_locales, goal_cases)
  case 1
  then show ?case using mem.Write_law[OF 1(1)] assms memory_keeps(1)[OF 1(1)] by blast
next
  case 2
  then show ?case using mem.SyncData_law[OF 2(1)] assms memory_keeps(2)[OF 2(1)] by blast
next
  case 3
  then show ?case using mem.SyncDirectory_law[OF 3(1)] assms memory_keeps(3)[OF 3(1)] by blast
next
  case 4
  then show ?case using mem.Close_law[OF 4(1)] assms memory_keeps(4)[OF 4(1)] by blast
next
  case 5
  then show ?case using mem.OpenAppend_law[OF 5(1)] assms memory_keeps(5)[OF 5(1)] by blast
next
  case 6
  then show ?case using mem.Lock_law[OF 6(1)] assms memory_keeps(6)[OF 6(1)] by blast
next
  case 7
  then show ?case using mem.EnsureDirectory_law[OF 7(1)] assms memory_keeps(7)[OF 7(1)] by blast
next
  case 8
  then show ?case using mem.List_law[OF 8(1)] assms memory_keeps(8)[OF 8(1)] by blast
next
  case 9
  then show ?case using mem.ReadAll_law[OF 9(1)] assms memory_keeps(9)[OF 9(1)] by blast
qed

interpretation mem_kept: append_store memory_fs mem_files mem_open "\<lambda>w. mem_ok w \<and> mem_readable d w" for d
  by (rule append_store_keeping) (auto simp: mem_keeps_def mem_faults_def mem_readable_def)

section \<open>The maintenance operations\<close>

text \<open>\<^verbatim>\<open>std::string::resize\<close>.\<close>

definition resize :: "nat \<Rightarrow> string \<Rightarrow> string" where
  "resize n s = take n s @ replicate (n - length s) (CHR 0x00)"

definition m_Truncate :: "string \<Rightarrow> nat \<Rightarrow> MemoryFileSystem \<Rightarrow> (exn + IoError) \<times> MemoryFileSystem" where
  "m_Truncate path bytes w0 =
     (let w = logged (''truncate '' @ path @ '' '' @ dec bytes) w0 in
      if m_fail_next_truncate w then (Inr IoError.kOther, w\<lparr>m_fail_next_truncate := False\<rparr>)
      else if m_ignore_next_truncate w then (Inr IoError.kNone, w\<lparr>m_ignore_next_truncate := False\<rparr>)
      else case map_of (m_files w) path of
        None \<Rightarrow> (Inr IoError.kOther, w)
      | Some content \<Rightarrow>
          if bytes > length content then (Inr IoError.kOther, w)
          else if List.member (m_symbolic_links w) path
                  \<or> (case map_of (m_hard_links w) path of Some n \<Rightarrow> n \<noteq> 1 | None \<Rightarrow> False)
          then (Inr IoError.kOther, w)
          else case m_next_truncate_to w of
            Some n \<Rightarrow>
              (Inr IoError.kNone, w\<lparr>m_files := put path (resize n content) (m_files w), m_next_truncate_to := None\<rparr>)
          | None \<Rightarrow>
              (let w1 = w\<lparr>m_files := put path (resize bytes content) (m_files w)\<rparr>
               in if m_fail_after_next_truncate w1
                  then (Inr IoError.kOther, w1\<lparr>m_fail_after_next_truncate := False\<rparr>)
                  else (Inr IoError.kNone, w1)))"

definition m_RenameNoReplace :: "string \<Rightarrow> string \<Rightarrow> MemoryFileSystem \<Rightarrow> (exn + IoError) \<times> MemoryFileSystem" where
  "m_RenameNoReplace source target w0 =
     (let w = logged (''rename '' @ source @ '' '' @ target) w0 in
      if m_throw_on_rename w then (Inl (std_exception ''injected rename exception''), w)
      else if m_fail_next_rename w then (Inr IoError.kOther, w\<lparr>m_fail_next_rename := False\<rparr>)
      else let n = m_renames_until_failure w;
               w1 = (if n \<noteq> 0 then w\<lparr>m_renames_until_failure := n - 1\<rparr> else w)
      in if n \<noteq> 0 \<and> n - 1 = 0 then (Inr IoError.kOther, w1)
         else if m_ignore_next_rename w1 then (Inr IoError.kNone, w1\<lparr>m_ignore_next_rename := False\<rparr>)
         else case map_of (m_files w1) source of
           None \<Rightarrow> (Inr IoError.kOther, w1)
         | Some content \<Rightarrow>
             if map_of (m_files w1) target \<noteq> None \<or> List.member (m_directories w1) target
                \<or> List.member (m_other_entries w1) target
             then (Inr IoError.kExists, w1)
             else (Inr IoError.kNone,
                   w1\<lparr>m_files := filter (\<lambda>(path, _). path \<noteq> source) (put target content (m_files w1)),
                      m_durable_entries := removeAll source (m_durable_entries w1)\<rparr>))"

definition m_Entry :: "string \<Rightarrow> MemoryFileSystem \<Rightarrow> (exn + (IoError + EntryKind)) \<times> MemoryFileSystem" where
  "m_Entry path w0 =
     (let w = logged (''entry '' @ path) w0 in
      if List.member (m_unreadable_entries w) path then (Inr (Inl IoError.kOther), w)
      else (Inr (Inr (if List.member (m_symbolic_links w) path then EntryKind.kSymbolicLink
                      else if map_of (m_files w) path \<noteq> None then EntryKind.kRegularFile
                      else if List.member (m_directories w) path then EntryKind.kDirectory
                      else if List.member (m_other_entries w) path then EntryKind.kOther
                      else EntryKind.kNone)), w))"

definition m_HardLinks :: "string \<Rightarrow> MemoryFileSystem \<Rightarrow> (exn + (IoError + nat)) \<times> MemoryFileSystem" where
  "m_HardLinks path w0 =
     (let w = logged (''links '' @ path) w0 in
      if map_of (m_files w) path = None then (Inr (Inl IoError.kOther), w)
      else (Inr (Inr (case map_of (m_hard_links w) path of None \<Rightarrow> 1 | Some n \<Rightarrow> n)), w))"

definition memory_maintenance :: "MemoryFileSystem MaintenanceFileSystem" where
  "memory_maintenance = FileSystem.extend memory_fs
     (MaintenanceFileSystem.fields m_Truncate m_RenameNoReplace m_Entry m_HardLinks)"

lemma memory_maintenance_simps [simp]:
  "base memory_maintenance = memory_fs" "Truncate memory_maintenance = m_Truncate"
  "RenameNoReplace memory_maintenance = m_RenameNoReplace" "Entry memory_maintenance = m_Entry"
  "HardLinks memory_maintenance = m_HardLinks"
  by (simp_all add: memory_maintenance_def FileSystem.defs MaintenanceFileSystem.defs memory_fs_def)

text \<open>No cut and no rename is scripted to misbehave.\<close>

definition mem_honest :: "MemoryFileSystem \<Rightarrow> bool" where
  "mem_honest w \<longleftrightarrow> m_next_truncate_to w = None \<and> \<not> m_ignore_next_rename w"

lemma sorted_erase: "sorted_keys m \<Longrightarrow> sorted_keys (filter P m)"
  by (induction m) (auto simp: list_all_iff)

lemma m_Truncate_spec:
  assumes "m_Truncate p n w = (r, w')" "mem_ok w" "mem_honest w"
  shows "mem_ok w' \<and> mem_honest w' \<and> (mem_files w' = mem_files w
    \<or> (\<exists>c. mem_files w p = Some c \<and> mem_files w' = (mem_files w)(p \<mapsto> take n c)))"
  using assms sorted_put
  by (auto simp: m_Truncate_def Let_def resize_def mem_honest_def mem_defs logged_def split: if_splits option.splits)

lemma m_RenameNoReplace_spec:
  assumes "m_RenameNoReplace p q w = (r, w')" "mem_ok w" "mem_honest w"
  shows "mem_ok w' \<and> mem_honest w' \<and>
    (if r = Inr IoError.kNone
     then mem_files w p \<noteq> None \<and> mem_files w q = None \<and> mem_files w' = (mem_files w)(p := None, q := mem_files w p)
     else mem_files w' = mem_files w)"
  using assms
  by (auto intro!: sorted_erase sorted_put simp: m_RenameNoReplace_def Let_def mem_honest_def mem_defs logged_def map_of_without fun_eq_iff
      split: if_splits option.splits)

lemma queries_spec:
  assumes "mem_ok w" "mem_honest w"
  shows "m_Entry p w = (re, w') \<Longrightarrow> (mem_ok w' \<and> mem_honest w') \<and> mem_files w' = mem_files w"
    "m_HardLinks p w = (rh, w') \<Longrightarrow> (mem_ok w' \<and> mem_honest w') \<and> mem_files w' = mem_files w"
proof -
  have "mem_honest (logged e w)" for e using assms(2) by (simp add: mem_honest_def logged_def)
  then show "m_Entry p w = (re, w') \<Longrightarrow> (mem_ok w' \<and> mem_honest w') \<and> mem_files w' = mem_files w"
    "m_HardLinks p w = (rh, w') \<Longrightarrow> (mem_ok w' \<and> mem_honest w') \<and> mem_files w' = mem_files w"
    using assms(1) by (auto simp: m_Entry_def m_HardLinks_def Let_def split: if_splits)
qed

interpretation mem_maintenance: maintenance_store memory_maintenance mem_files mem_open "\<lambda>w. mem_ok w \<and> mem_honest w"
proof (intro maintenance_store.intro maintenance_store_axioms.intro, goal_cases)
  case 1
  show ?case unfolding memory_maintenance_simps
    by (rule append_store_keeping) (auto simp: mem_keeps_def mem_faults_def mem_honest_def)
next
  case (2 p n w rt w')
  then show ?case using m_Truncate_spec[of p n w rt w'] by simp
next
  case (3 p q w rn w')
  then show ?case using m_RenameNoReplace_spec[of p q w rn w'] by simp
next
  case (4 p w re w')
  then show ?case using queries_spec(1)[of w p re w'] by simp
next
  case (5 p w rh w')
  then show ?case using queries_spec(2)[of w p rh w'] by simp
qed

end
