(* ===== verification/Segment_Journal.thy ===== *)
theory Segment_Journal
  imports Segment_Names Memory_File_System Codec_Decode
begin

text \<open>
  The durable segment writer (\<^verbatim>\<open>src/journal/segment_journal.cpp\<close>, class \<^verbatim>\<open>SegmentJournal\<close>). Every
  method takes the file system, the state of the object and the state of the file system, and
  returns both states; an exception is \<open>Inl\<close>. The object's mutex is held by every method, so a
  method is one step. The write loop of \<^verbatim>\<open>CommitLocked\<close> may never end when the file system reports
  an interrupted write for ever: then its value is \<open>None\<close>. What the handle guards of \<^verbatim>\<open>OpenLocked\<close>
  do on scope exit is written at each return.
\<close>

section \<open>Paths\<close>

text \<open>
  \<^verbatim>\<open>std::filesystem::path::lexically_normal\<close> of POSIX: the components without \<^verbatim>\<open>.\<close>, where a \<^verbatim>\<open>..\<close> takes
  the component before it, and a directory that the spelling ends in keeps a separator.
\<close>

lemma dropWhile_shorter [termination_simp]: "length (dropWhile P cs) < Suc (length cs)"
  by (simp add: less_Suc_eq_le length_dropWhile_le)

fun path_components :: "string \<Rightarrow> string list" where
  "path_components [] = []"
| "path_components (c # cs) =
     (if c = SLASH then path_components cs
      else (c # takeWhile (\<lambda>d. d \<noteq> SLASH) cs) # path_components (dropWhile (\<lambda>d. d \<noteq> SLASH) cs))"

definition is_absolute :: "string \<Rightarrow> bool" where
  "is_absolute p \<longleftrightarrow> p \<noteq> [] \<and> hd p = SLASH"

definition normal_step :: "bool \<Rightarrow> string \<Rightarrow> string list \<Rightarrow> string list" where
  "normal_step absolute c done =
     (if c = ''.'' then done
      else if c = ''..'' then
        (if done = [] then (if absolute then [] else [c])
         else if last done = ''..'' then done @ [c] else butlast done)
      else done @ [c])"

fun join_components :: "string list \<Rightarrow> string" where
  "join_components [] = []"
| "join_components [c] = c"
| "join_components (c # d # cs) = c @ [SLASH] @ join_components (d # cs)"

definition lexically_normal :: "string \<Rightarrow> string" where
  "lexically_normal p =
     (let cs = path_components p;
          normal = fold (normal_step (is_absolute p)) cs [];
          names_directory = (last p = SLASH \<or> cs \<noteq> [] \<and> last cs \<in> {''.'', ''..''})
      in if p = [] then []
         else if normal = [] then (if is_absolute p then [SLASH] else ''.'')
         else (if is_absolute p then [SLASH] else []) @ join_components normal
              @ (if names_directory \<and> last normal \<noteq> ''..'' then [SLASH] else []))"

text \<open>\<^verbatim>\<open>filename().empty()\<close>, \<^verbatim>\<open>parent_path()\<close> and \<^verbatim>\<open>root_path()\<close> of POSIX.\<close>

definition filename_empty :: "string \<Rightarrow> bool" where
  "filename_empty p \<longleftrightarrow> p = [] \<or> last p = SLASH"

definition parent_path :: "string \<Rightarrow> string" where
  "parent_path p =
     (let q = rev (dropWhile (\<lambda>c. c = SLASH) (dropWhile (\<lambda>c. c \<noteq> SLASH) (rev p)))
      in if q = [] \<and> is_absolute p then [SLASH] else q)"

definition root_path :: "string \<Rightarrow> string" where
  "root_path p = (if is_absolute p then [SLASH] else [])"

definition ParentDirectory :: "string \<Rightarrow> string" where
  "ParentDirectory directory =
     (let path = lexically_normal directory;
          path1 = (if filename_empty path \<and> parent_path path \<noteq> [] \<and> path \<noteq> root_path path
                   then parent_path path else path);
          parent = parent_path path1
      in if parent = [] then ''.'' else parent)"

section \<open>The object\<close>

record OpenResult =
  or_ok :: bool
  or_detail :: string
  or_next_sequence :: u64
  or_active_segment :: string

record SegmentJournal =
  sj_segment_limit_bytes :: u64
  sj_directory :: string
  sj_lock :: "FileHandle option"
  sj_active :: "FileHandle option"
  sj_active_size :: u64
  sj_active_durable :: bool
  sj_next_sequence :: u64
  sj_opened :: bool
  sj_poisoned :: bool
  sj_record_started :: bool

definition new_SegmentJournal :: "u64 \<Rightarrow> SegmentJournal" where
  "new_SegmentJournal limit =
     \<lparr>sj_segment_limit_bytes = limit, sj_directory = [], sj_lock = None, sj_active = None,
      sj_active_size = 0, sj_active_durable = True, sj_next_sequence = 0, sj_opened = False,
      sj_poisoned = False, sj_record_started = False\<rparr>"

definition lock_name :: string where
  "lock_name = ''journal.lock''"

section \<open>Open\<close>

text \<open>\<^verbatim>\<open>std::string_view::rfind\<close> of a character.\<close>

definition rfind :: "char \<Rightarrow> string \<Rightarrow> nat option" where
  "rfind c s =
     (let n = length (takeWhile (\<lambda>d. d \<noteq> c) (rev s))
      in if n = length s then None else Some (length s - 1 - n))"

definition line_start :: "nat option \<Rightarrow> nat" where
  "line_start position = (case position of None \<Rightarrow> 0 | Some i \<Rightarrow> i + 1)"

definition LastSequence :: "libs \<Rightarrow> string \<Rightarrow> string + u64 option" where
  "LastSequence L content =
     (if content = [] then Inr None
      else if last content \<noteq> LF
      then Inl (''journal_torn_tail: active segment ends with a torn record at byte ''
                @ dec (line_start (rfind LF content)))
      else
        (let body = butlast content;
             decoded = DecodeRecord L (drop (line_start (rfind LF body)) content)
         in case (dec_status decoded, dec_event decoded) of
              (DecodeStatus.kDecoded, Some event) \<Rightarrow> Inr (Some (lje_sequence event))
            | _ \<Rightarrow> Inl (''last record of the active segment does not decode: '' @ dec_detail decoded)))"

record Located =
  loc_error :: string
  loc_next :: u64
  loc_active :: string
  loc_active_size :: u64

definition unlocated :: "string \<Rightarrow> Located" where
  "unlocated e = \<lparr>loc_error = e, loc_next = 0, loc_active = [], loc_active_size = 0\<rparr>"

text \<open>
  The scan of a listing with one of the two parsers of segment names: the segments in the order of the
  listing, or \<open>Inl\<close> of the first name that looks like a segment and is none.
\<close>

fun scan_segments :: "(string \<Rightarrow> u64 option) \<Rightarrow> string list \<Rightarrow> string + (u64 \<times> string) list" where
  "scan_segments parse [] = Inr []"
| "scan_segments parse (name # names) =
     (case parse name of
        Some start \<Rightarrow>
          (case scan_segments parse names of
             Inl malformed \<Rightarrow> Inl malformed
           | Inr segments \<Rightarrow> Inr ((start, name) # segments))
      | None \<Rightarrow>
          if starts_with name segment_prefix \<and> ends_with name segment_suffix then Inl name
          else scan_segments parse names)"

text \<open>The check of an empty highest segment: it is named for the sequence after the segment before it.\<close>

definition LocateEmpty ::
  "libs \<Rightarrow> 'w FileSystem \<Rightarrow> string \<Rightarrow> (u64 \<times> string) list \<Rightarrow> 'w \<Rightarrow> (exn + Located) \<times> 'w" where
  "LocateEmpty L fs directory segments w0 =
     (let (start, name) = last segments;
          named = (\<lambda>expected.
            if start \<noteq> expected
            then unlocated (''empty segment '' @ name @ '' is not named for the next sequence ''
                            @ to_string expected)
            else \<lparr>loc_error = [], loc_next = start, loc_active = name, loc_active_size = 0\<rparr>)
      in if length segments > 1 then
           (let previous = snd (segments ! (length segments - 2));
                unusable = unlocated (''segment before the empty active segment is not usable (''
                                      @ previous @ '')'')
            in case ReadAll fs (JoinPath directory previous) w0 of
                 (Inl x, w) \<Rightarrow> (Inl x, w)
               | (Inr (Inl _), w) \<Rightarrow> (Inr unusable, w)
               | (Inr (Inr content), w) \<Rightarrow>
                   (case LastSequence L content of
                      Inr (Some previous_last) \<Rightarrow> (Inr (named (previous_last + 1)), w)
                    | _ \<Rightarrow> (Inr unusable, w)))
         else (Inr (named 1), w0))"

text \<open>\<^verbatim>\<open>Locate\<close> once the content of the highest segment was read.\<close>

definition LocateActive ::
  "libs \<Rightarrow> 'w FileSystem \<Rightarrow> u64 \<Rightarrow> string \<Rightarrow> (u64 \<times> string) list \<Rightarrow> string \<Rightarrow> 'w \<Rightarrow> (exn + Located) \<times> 'w" where
  "LocateActive L fs limit directory segments content w =
     (let (start, name) = last segments
      in case LastSequence L content of
           Inl detail \<Rightarrow> (Inr (unlocated (detail @ '' ('' @ name @ '')'')), w)
         | Inr (Some l) \<Rightarrow>
             (Inr (if l < start
                   then unlocated (''active segment '' @ name @ '' holds an earlier sequence'')
                   else if l = UINT64_MAX then unlocated ''Journal sequence is exhausted''
                   else if of_nat (length content) \<ge> limit
                   then \<lparr>loc_error = [], loc_next = l + 1, loc_active = [], loc_active_size = 0\<rparr>
                   else \<lparr>loc_error = [], loc_next = l + 1, loc_active = name,
                         loc_active_size = of_nat (length content)\<rparr>), w)
         | Inr None \<Rightarrow> LocateEmpty L fs directory segments w)"

text \<open>
  \<^verbatim>\<open>Locate\<close>. No two segments of a listing have the same first sequence, so sorting the pairs is
  sorting by the sequence.
\<close>

definition Locate ::
  "libs \<Rightarrow> 'w FileSystem \<Rightarrow> u64 \<Rightarrow> string \<Rightarrow> 'w \<Rightarrow> (exn + Located) \<times> 'w" where
  "Locate L fs limit directory w0 =
     (case FileSystem.List fs directory w0 of
        (Inl x, w) \<Rightarrow> (Inl x, w)
      | (Inr (Inl _), w) \<Rightarrow> (Inr (unlocated ''cannot list the Journal directory''), w)
      | (Inr (Inr names), w) \<Rightarrow>
          (case scan_segments SegmentFirstSequence names of
             Inl malformed \<Rightarrow> (Inr (unlocated (''malformed segment name '' @ malformed)), w)
           | Inr unsorted \<Rightarrow>
               if unsorted = []
               then (Inr \<lparr>loc_error = [], loc_next = 1, loc_active = [], loc_active_size = 0\<rparr>, w)
               else
                 (let segments = sort_key fst unsorted; name = snd (last segments)
                  in case ReadAll fs (JoinPath directory name) w of
                       (Inl x, w1) \<Rightarrow> (Inl x, w1)
                     | (Inr (Inl _), w1) \<Rightarrow> (Inr (unlocated (''cannot read the active segment '' @ name)), w1)
                     | (Inr (Inr content), w1) \<Rightarrow> LocateActive L fs limit directory segments content w1)))"

definition refused :: "string \<Rightarrow> OpenResult" where
  "refused detail = \<lparr>or_ok = False, or_detail = detail, or_next_sequence = 0, or_active_segment = []\<rparr>"

text \<open>The end of \<^verbatim>\<open>OpenLocked\<close>, which cannot fail: the handles move from the guards to the object.\<close>

definition adopt ::
  "string \<Rightarrow> Located \<Rightarrow> FileHandle \<Rightarrow> FileHandle option \<Rightarrow> SegmentJournal \<Rightarrow> OpenResult \<times> SegmentJournal" where
  "adopt directory located lock act j =
     (\<lparr>or_ok = True, or_detail = [], or_next_sequence = loc_next located,
       or_active_segment =
         (if loc_active located = [] then SegmentName (loc_next located) else loc_active located)\<rparr>,
      j\<lparr>sj_directory := directory, sj_active := act, sj_active_size := loc_active_size located,
        sj_active_durable := (act = None \<or> loc_active_size located > 0), sj_lock := Some lock,
        sj_next_sequence := loc_next located, sj_opened := True\<rparr>)"

text \<open>\<^verbatim>\<open>OpenLocked\<close> after the lock was taken.\<close>

definition OpenHolding ::
  "libs \<Rightarrow> 'w FileSystem \<Rightarrow> string \<Rightarrow> FileHandle \<Rightarrow> SegmentJournal \<Rightarrow> 'w
   \<Rightarrow> (exn + OpenResult) \<times> SegmentJournal \<times> 'w" where
  "OpenHolding L fs directory lock j w3 =
     (case Locate L fs (sj_segment_limit_bytes j) directory w3 of
        (Inl x, w4) \<Rightarrow> (Inl x, j, Close fs lock w4)
      | (Inr located, w4) \<Rightarrow>
          if loc_error located \<noteq> [] then (Inr (refused (loc_error located)), j, Close fs lock w4)
          else if loc_active located = [] then
            (let (result, j') = adopt directory located lock None j in (Inr result, j', w4))
          else
            (case OpenAppend fs (JoinPath directory (loc_active located)) False w4 of
               (Inl x, w5) \<Rightarrow> (Inl x, j, Close fs lock w5)
             | (Inr (Inl _), w5) \<Rightarrow>
                 (Inr (refused (''cannot open the active segment '' @ loc_active located)), j, Close fs lock w5)
             | (Inr (Inr h), w5) \<Rightarrow>
                 (let (result, j') = adopt directory located lock (Some h) j in (Inr result, j', w5))))"

definition OpenLocked ::
  "libs \<Rightarrow> 'w FileSystem \<Rightarrow> string \<Rightarrow> SegmentJournal \<Rightarrow> 'w \<Rightarrow> (exn + OpenResult) \<times> SegmentJournal \<times> 'w" where
  "OpenLocked L fs directory j w0 =
     (case EnsureDirectory fs directory w0 of
        (Inl x, w1) \<Rightarrow> (Inl x, j, w1)
      | (Inr e1, w1) \<Rightarrow>
          if e1 \<noteq> IoError.kNone then (Inr (refused ''cannot create the Journal directory''), j, w1)
          else
            (case SyncDirectory fs (ParentDirectory directory) w1 of
               (e2, w2) \<Rightarrow>
                 if e2 \<noteq> IoError.kNone
                 then (Inr (refused ''cannot make the Journal directory entry durable''), j, w2)
                 else
                   (case Lock fs (JoinPath directory lock_name) w2 of
                      (Inl x, w3) \<Rightarrow> (Inl x, j, w3)
                    | (Inr (Inl e3), w3) \<Rightarrow>
                        (Inr (refused (if e3 = IoError.kLocked
                                       then ''Journal directory is locked by another owner''
                                       else ''cannot lock the Journal directory'')), j, w3)
                    | (Inr (Inr lock), w3) \<Rightarrow> OpenHolding L fs directory lock j w3)))"

definition Open ::
  "libs \<Rightarrow> 'w FileSystem \<Rightarrow> string \<Rightarrow> SegmentJournal \<Rightarrow> 'w \<Rightarrow> OpenResult \<times> SegmentJournal \<times> 'w" where
  "Open L fs directory j w0 =
     (if sj_opened j \<or> sj_lock j \<noteq> None then (refused ''journal is already open'', j, w0)
      else case OpenLocked L fs directory j w0 of
        (Inl (std_exception what), j', w) \<Rightarrow> (refused (''cannot open the Journal: '' @ what), j', w)
      | (Inl unknown_exception, j', w) \<Rightarrow>
          (refused ''cannot open the Journal: unexpected exception'', j', w)
      | (Inr result, j', w) \<Rightarrow> (result, j', w))"

section \<open>Commit\<close>

definition CloseActive :: "'w FileSystem \<Rightarrow> SegmentJournal \<Rightarrow> 'w \<Rightarrow> SegmentJournal \<times> 'w" where
  "CloseActive fs j w =
     (case sj_active j of None \<Rightarrow> (j, w) | Some h \<Rightarrow> (j\<lparr>sj_active := None\<rparr>, Close fs h w))"

definition destroy :: "'w FileSystem \<Rightarrow> SegmentJournal \<Rightarrow> 'w \<Rightarrow> SegmentJournal \<times> 'w" where
  "destroy fs j w =
     (case CloseActive fs j w of
        (j1, w1) \<Rightarrow>
          (case sj_lock j1 of None \<Rightarrow> (j1, w1) | Some h \<Rightarrow> (j1\<lparr>sj_lock := None\<rparr>, Close fs h w1)))"

text \<open>The two syncs of \<^verbatim>\<open>StartSegment\<close> and \<^verbatim>\<open>MakeActiveDurable\<close>: the file, then the directory entry.\<close>

definition sync_segment :: "'w FileSystem \<Rightarrow> FileHandle \<Rightarrow> string \<Rightarrow> 'w \<Rightarrow> bool \<times> 'w" where
  "sync_segment fs file directory w0 =
     (case SyncData fs file w0 of
        (e1, w1) \<Rightarrow>
          if e1 \<noteq> IoError.kNone then (False, w1)
          else case SyncDirectory fs directory w1 of (e2, w2) \<Rightarrow> (e2 = IoError.kNone, w2))"

type_synonym 'w stepped = "(exn + LogicalCommitResult) \<times> SegmentJournal \<times> 'w"

definition StartSegment :: "'w FileSystem \<Rightarrow> u64 \<Rightarrow> SegmentJournal \<Rightarrow> 'w \<Rightarrow> 'w stepped" where
  "StartSegment fs first_sequence j w0 =
     (case OpenAppend fs (JoinPath (sj_directory j) (SegmentName first_sequence)) True w0 of
        (Inl x, w1) \<Rightarrow> (Inl x, j, w1)
      | (Inr (Inl _), w1) \<Rightarrow> (Inr LogicalCommitResult.kDefiniteFailure, j, w1)
      | (Inr (Inr h), w1) \<Rightarrow>
          (let j1 = j\<lparr>sj_active := Some h, sj_active_size := 0, sj_active_durable := False\<rparr>
           in case sync_segment fs h (sj_directory j1) w1 of
                (synced, w2) \<Rightarrow>
                  if \<not> synced then (Inr LogicalCommitResult.kDefiniteFailure, j1, w2)
                  else (Inr LogicalCommitResult.kCommitted, j1\<lparr>sj_active_durable := True\<rparr>, w2)))"

definition MakeActiveDurable :: "'w FileSystem \<Rightarrow> SegmentJournal \<Rightarrow> 'w \<Rightarrow> 'w stepped" where
  "MakeActiveDurable fs j w0 =
     (case sj_active j of
        None \<Rightarrow> (Inr LogicalCommitResult.kDefiniteFailure, j, w0)
      | Some h \<Rightarrow>
          (case sync_segment fs h (sj_directory j) w0 of
             (synced, w1) \<Rightarrow>
               if \<not> synced then (Inr LogicalCommitResult.kDefiniteFailure, j, w1)
               else (Inr LogicalCommitResult.kCommitted, j\<lparr>sj_active_durable := True\<rparr>, w1)))"

text \<open>
  The write loop: \<open>Some (None, \<dots>)\<close> when every byte was written, \<open>Some (Some r, \<dots>)\<close> when the loop
  returns \<open>r\<close>, with the size of the active segment.
\<close>

definition write_failure :: "nat \<Rightarrow> LogicalCommitResult" where
  "write_failure written =
     (if written = 0 then LogicalCommitResult.kDefiniteFailure else LogicalCommitResult.kOutcomeUnknown)"

partial_function (option) write_loop ::
  "'w FileSystem \<Rightarrow> FileHandle \<Rightarrow> string \<Rightarrow> nat \<Rightarrow> u64 \<Rightarrow> 'w
   \<Rightarrow> (LogicalCommitResult option \<times> u64 \<times> 'w) option" where
  [code]: "write_loop fs file bytes written active_size w =
     (if written < length bytes then
        (let (outcome, w1) = Write fs file (drop written bytes) w;
             written1 = written + wo_written outcome;
             active_size1 = active_size + of_nat (wo_written outcome)
         in if wo_error outcome = IoError.kInterrupted
            then write_loop fs file bytes written1 active_size1 w1
            else if wo_error outcome \<noteq> IoError.kNone
            then Some (Some (write_failure written1), active_size1, w1)
            else if wo_written outcome = 0
            then Some (Some (write_failure written1), active_size1, w1)
            else write_loop fs file bytes written1 active_size1 w1)
      else Some (None, active_size, w))"

text \<open>\<^verbatim>\<open>CommitLocked\<close> from the first write on, and from the check of the active segment on.\<close>

definition WriteRecord :: "'w FileSystem \<Rightarrow> FileHandle \<Rightarrow> string \<Rightarrow> SegmentJournal \<Rightarrow> 'w \<Rightarrow> 'w stepped option" where
  "WriteRecord fs file bytes j w0 =
     (case write_loop fs file bytes 0 (sj_active_size j) w0 of
        None \<Rightarrow> None
      | Some (Some r, n, w1) \<Rightarrow> Some (Inr r, j\<lparr>sj_record_started := True, sj_active_size := n\<rparr>, w1)
      | Some (None, n, w1) \<Rightarrow>
          (let j1 = j\<lparr>sj_record_started := True, sj_active_size := n\<rparr>
           in case SyncData fs file w1 of
                (e, w2) \<Rightarrow>
                  if e \<noteq> IoError.kNone then Some (Inr LogicalCommitResult.kOutcomeUnknown, j1, w2)
                  else Some (Inr LogicalCommitResult.kCommitted,
                             j1\<lparr>sj_next_sequence := sj_next_sequence j1 + 1\<rparr>, w2)))"

definition AppendRecord :: "'w FileSystem \<Rightarrow> string \<Rightarrow> SegmentJournal \<Rightarrow> 'w \<Rightarrow> 'w stepped option" where
  "AppendRecord fs bytes j w0 =
     (case sj_active j of
        None \<Rightarrow> Some (Inr LogicalCommitResult.kDefiniteFailure, j, w0)
      | Some file \<Rightarrow>
          if \<not> sj_active_durable j then
            (case MakeActiveDurable fs j w0 of
               (Inr LogicalCommitResult.kCommitted, j1, w1) \<Rightarrow> WriteRecord fs file bytes j1 w1
             | (r, j1, w1) \<Rightarrow> Some (r, j1, w1))
          else WriteRecord fs file bytes j w0)"

definition must_rotate :: "string \<Rightarrow> SegmentJournal \<Rightarrow> bool" where
  "must_rotate bytes j \<longleftrightarrow> sj_active j = None
     \<or> (sj_active_size j > 0 \<and> sj_active_size j + of_nat (length bytes) > sj_segment_limit_bytes j)"

definition CommitLocked :: "'w FileSystem \<Rightarrow> LogicalJobEvent \<Rightarrow> SegmentJournal \<Rightarrow> 'w \<Rightarrow> 'w stepped option" where
  "CommitLocked fs event j w0 =
     (if lje_sequence event \<noteq> sj_next_sequence j
      then Some (Inr LogicalCommitResult.kDefiniteFailure, j, w0)
      else let encoded = EncodeRecord event
           in if enc_status encoded \<noteq> EncodeStatus.kEncoded
              then Some (Inr LogicalCommitResult.kDefiniteFailure, j, w0)
              else if must_rotate (enc_bytes encoded) j then
                (let (j1, w1) = CloseActive fs j w0
                 in case StartSegment fs (lje_sequence event) j1 w1 of
                      (Inr LogicalCommitResult.kCommitted, j2, w2) \<Rightarrow> AppendRecord fs (enc_bytes encoded) j2 w2
                    | (r, j2, w2) \<Rightarrow> Some (r, j2, w2))
              else AppendRecord fs (enc_bytes encoded) j w0)"

text \<open>\<open>mutex_ok\<close>: \<^verbatim>\<open>guard.lock()\<close> did not throw.\<close>

definition Commit ::
  "'w FileSystem \<Rightarrow> bool \<Rightarrow> LogicalJobEvent \<Rightarrow> SegmentJournal \<Rightarrow> 'w
   \<Rightarrow> (LogicalCommitResult \<times> SegmentJournal \<times> 'w) option" where
  "Commit fs mutex_ok event j w0 =
     (if \<not> mutex_ok \<or> \<not> sj_opened j \<or> sj_poisoned j
      then Some (LogicalCommitResult.kDefiniteFailure, j\<lparr>sj_poisoned := True\<rparr>, w0)
      else case CommitLocked fs event (j\<lparr>sj_record_started := False\<rparr>) w0 of
        None \<Rightarrow> None
      | Some (Inr outcome, j1, w1) \<Rightarrow>
          Some (outcome,
                if outcome \<noteq> LogicalCommitResult.kCommitted then j1\<lparr>sj_poisoned := True\<rparr> else j1, w1)
      | Some (Inl _, j1, w1) \<Rightarrow>
          Some (if sj_record_started j1 then LogicalCommitResult.kOutcomeUnknown
                else LogicalCommitResult.kDefiniteFailure, j1\<lparr>sj_poisoned := True\<rparr>, w1))"

definition Poisoned :: "SegmentJournal \<Rightarrow> bool" where
  "Poisoned j = sj_poisoned j"

definition NextSequence :: "SegmentJournal \<Rightarrow> u64" where
  "NextSequence j = sj_next_sequence j"

end
