(* ===== verification/Journal_Commit.thy ===== *)
theory Journal_Commit
  imports Segment_Journal
begin

text \<open>
  What a commit does to the files, for every file system that satisfies the interface
  \<open>append_store\<close>: the result of \<^verbatim>\<open>Commit\<close> tells the truth about the bytes of the record.
\<close>

lemma exI2: "P x y \<Longrightarrow> \<exists>a b. P a b"
  by blast

section \<open>The write loop\<close>

lemma write_loop_induct [consumes 1, case_names finished failed more]:
  assumes "write_loop fs h b n m w = Some r"
    and "\<And>n m w. length b \<le> n \<Longrightarrow> P n m w (None, m, w)"
    and "\<And>n m w out w1. n < length b \<Longrightarrow> Write fs h (drop n b) w = (out, w1) \<Longrightarrow>
      wo_error out \<noteq> IoError.kInterrupted \<Longrightarrow> wo_error out \<noteq> IoError.kNone \<or> wo_written out = 0 \<Longrightarrow>
      P n m w (Some (write_failure (n + wo_written out)), m + of_nat (wo_written out), w1)"
    and "\<And>n m w r out w1. n < length b \<Longrightarrow> Write fs h (drop n b) w = (out, w1) \<Longrightarrow>
      wo_error out = IoError.kInterrupted \<or> wo_written out \<noteq> 0 \<Longrightarrow>
      P (n + wo_written out) (m + of_nat (wo_written out)) w1 r \<Longrightarrow> P n m w r"
  shows "P n m w r"
proof -
  have "fs = fs \<longrightarrow> h = h \<longrightarrow> b = b \<longrightarrow> P n m w r"
  proof (rule write_loop.raw_induct[where P = "\<lambda>fs' h' b' n m w r. fs' = fs \<longrightarrow> h' = h \<longrightarrow> b' = b \<longrightarrow> P n m w r",
        OF _ assms(1)], goal_cases)
    case (1 loop fs' h' b' n m w r)
    show ?case
    proof (intro impI)
      assume eq: "fs' = fs" "h' = h" "b' = b"
      obtain out w1 where out: "Write fs h (drop n b) w = (out, w1)" by fastforce
      show "P n m w r"
        using 1(2) 1(1)[of fs h b "n + wo_written out" "m + of_nat (wo_written out)" w1 r] out eq
          assms(2)[of n m w] assms(3)[OF _ out, of m] assms(4)[OF _ out, of m r]
        by (simp add: Let_def split: if_splits)
    qed
  qed
  then show ?thesis by simp
qed

section \<open>The object and its files\<close>

text \<open>The active handle, if any, is open on a file whose size the object knows.\<close>

definition active_at ::
  "('w \<Rightarrow> string \<Rightarrow> string option) \<Rightarrow> ('w \<Rightarrow> FileHandle \<Rightarrow> string option) \<Rightarrow> SegmentJournal \<Rightarrow> 'w
   \<Rightarrow> string \<Rightarrow> string \<Rightarrow> bool" where
  "active_at files open_path j w p c \<longleftrightarrow>
     (\<exists>h. sj_active j = Some h \<and> open_path w h = Some p \<and> files w p = Some c \<and> sj_active_size j = of_nat (length c))"

definition has_active ::
  "('w \<Rightarrow> string \<Rightarrow> string option) \<Rightarrow> ('w \<Rightarrow> FileHandle \<Rightarrow> string option) \<Rightarrow> SegmentJournal \<Rightarrow> 'w \<Rightarrow> bool" where
  "has_active files open_path j w \<longleftrightarrow> sj_active j = None \<or> (\<exists>p c. active_at files open_path j w p c)"

text \<open>The fields that a commit leaves alone.\<close>

definition same_object :: "SegmentJournal \<Rightarrow> SegmentJournal \<Rightarrow> bool" where
  "same_object j j' \<longleftrightarrow> sj_segment_limit_bytes j' = sj_segment_limit_bytes j \<and> sj_directory j' = sj_directory j
     \<and> sj_lock j' = sj_lock j \<and> sj_opened j' = sj_opened j \<and> sj_poisoned j' = sj_poisoned j"

text \<open>
  What a result says about the file \<open>p\<close>, which held \<open>c\<close> (or did not exist, when \<open>c\<close> is empty): all the
  bytes were appended; none was, and at most an empty file was added; or some were.
\<close>

definition told ::
  "LogicalCommitResult \<Rightarrow> (string \<Rightarrow> string option) \<Rightarrow> (string \<Rightarrow> string option) \<Rightarrow> string \<Rightarrow> string \<Rightarrow> string \<Rightarrow> bool" where
  "told r before after p c bytes \<longleftrightarrow>
     (case r of
        LogicalCommitResult.kCommitted \<Rightarrow> after = before(p \<mapsto> c @ bytes)
      | LogicalCommitResult.kDefiniteFailure \<Rightarrow> after = before \<or> before p = None \<and> after = before(p \<mapsto> [])
      | LogicalCommitResult.kOutcomeUnknown \<Rightarrow>
          \<exists>k. 0 < k \<and> k \<le> length bytes \<and> after = before(p \<mapsto> c @ take k bytes))"

text \<open>The file that takes the record of \<open>e\<close>, and its text before: a new segment or the active one.\<close>

definition target ::
  "('w \<Rightarrow> string \<Rightarrow> string option) \<Rightarrow> ('w \<Rightarrow> FileHandle \<Rightarrow> string option) \<Rightarrow> LogicalJobEvent \<Rightarrow> SegmentJournal \<Rightarrow> 'w
   \<Rightarrow> string \<Rightarrow> string \<Rightarrow> bool" where
  "target files open_path e j w p c \<longleftrightarrow>
     (if must_rotate (record_of e) j then p = JoinPath (sj_directory j) (SegmentName (lje_sequence e)) \<and> c = []
      else active_at files open_path j w p c)"

lemma target_exists: "has_active files open_path j w \<Longrightarrow> \<exists>p c. target files open_path e j w p c"
  unfolding target_def has_active_def by (metis must_rotate_def)

lemma told_created: "told r (f(p \<mapsto> [])) g p [] b \<Longrightarrow> f p = None \<Longrightarrow> told r f g p [] b"
  by (auto simp: told_def split: LogicalCommitResult.splits)

context append_store
begin

lemma write_loop_effect:
  assumes "write_loop fs h b n m w = Some result" "ok w" "open_path w h = Some p"
    "files w p = Some (c @ take n b)" "n \<le> length b" "m = of_nat (length c + n)" "result = (r, m', w')"
  shows "ok w' \<and> open_path w' = open_path w \<and>
    (\<exists>k. k \<le> length b \<and> files w' = (files w)(p \<mapsto> c @ take k b) \<and> m' = of_nat (length c + k)
      \<and> (case r of None \<Rightarrow> k = length b | Some x \<Rightarrow> x = write_failure k))"
  using assms
proof (induction rule: write_loop_induct)
  case (finished n m w)
  then show ?case by (auto simp: fun_upd_idem)
next
  case (failed n m w out w1)
  then show ?case
    using Write_law[OF failed(2,5,6,7)]
    by (intro conjI exI[of _ "n + wo_written out"]) (auto simp: take_add)
next
  case (more n m w r0 out w1)
  note w1 = Write_law[OF more(2,5,6,7)]
  have f: "files w1 = (files w)(p \<mapsto> c @ take (n + wo_written out) b)" using w1 by (simp add: take_add)
  have "ok w' \<and> open_path w' = open_path w1 \<and>
    (\<exists>k. k \<le> length b \<and> files w' = (files w1)(p \<mapsto> c @ take k b) \<and> m' = of_nat (length c + k)
      \<and> (case r of None \<Rightarrow> k = length b | Some x \<Rightarrow> x = write_failure k))"
    by (rule more(4)) (use w1 more(1,6,9,10) f in \<open>auto simp: take_add\<close>)
  then show ?case unfolding f using w1 by (simp only: fun_upd_upd)
qed

lemma sync_segment_effect:
  assumes "sync_segment fs h d w = (s, w')" "ok w" "open_path w h \<noteq> None"
  shows "ok w'" "files w' = files w" "open_path w' = open_path w"
proof -
  obtain e1 w1 where s1: "SyncData fs h w = (e1, w1)" by fastforce
  obtain e2 w2 where s2: "SyncDirectory fs d w1 = (e2, w2)" by fastforce
  show "ok w'" "files w' = files w" "open_path w' = open_path w"
    using assms SyncData_law[OF s1 assms(2,3)] SyncDirectory_law[OF s2]
    by (auto simp: sync_segment_def s1 s2 split: if_splits)
qed

lemma StartSegment_effect:
  assumes "StartSegment fs n j w = (r, j', w')" "ok w"
  defines "p \<equiv> JoinPath (sj_directory j) (SegmentName n)"
  shows "ok w'" "same_object j j'" "sj_next_sequence j' = sj_next_sequence j"
    "sj_record_started j' = sj_record_started j"
    "r = Inr LogicalCommitResult.kCommitted \<Longrightarrow> files w p = None \<and> files w' = (files w)(p \<mapsto> [])
      \<and> active_at files open_path j' w' p [] \<and> sj_active_durable j'"
    "files w' = files w \<or> files w p = None \<and> files w' = (files w)(p \<mapsto> [])"
    "r \<noteq> Inr LogicalCommitResult.kOutcomeUnknown"
proof -
  obtain o1 w1 where o1: "OpenAppend fs p True w = (o1, w1)" by fastforce
  note law = OpenAppend_law[OF o1 assms(2)]
  have "ok w' \<and> same_object j j' \<and> sj_next_sequence j' = sj_next_sequence j \<and> sj_record_started j' = sj_record_started j
    \<and> (r = Inr LogicalCommitResult.kCommitted \<longrightarrow> files w p = None \<and> files w' = (files w)(p \<mapsto> [])
      \<and> active_at files open_path j' w' p [] \<and> sj_active_durable j')
    \<and> (files w' = files w \<or> files w p = None \<and> files w' = (files w)(p \<mapsto> []))
    \<and> r \<noteq> Inr LogicalCommitResult.kOutcomeUnknown"
  proof (cases "\<exists>h. o1 = Inr (Inr h)")
    case True
    then obtain h where h: "o1 = Inr (Inr h)" by blast
    obtain s w2 where s: "sync_segment fs h (sj_directory j) w1 = (s, w2)" by fastforce
    note sync = sync_segment_effect[OF s]
    show ?thesis
      using assms(1) law sync
      by (auto simp: StartSegment_def p_def[symmetric] o1 h s active_at_def same_object_def Let_def split: if_splits)
  next
    case False
    then have "r \<noteq> Inr LogicalCommitResult.kCommitted \<and> r \<noteq> Inr LogicalCommitResult.kOutcomeUnknown
        \<and> j' = j \<and> w' = w1 \<and> ok w1 \<and> files w1 = files w"
      using assms(1) law by (cases o1) (auto simp: StartSegment_def p_def[symmetric] o1 split: sum.splits)
    then show ?thesis by (auto simp: same_object_def)
  qed
  then show "ok w'" "same_object j j'" "sj_next_sequence j' = sj_next_sequence j"
    "sj_record_started j' = sj_record_started j"
    "r = Inr LogicalCommitResult.kCommitted \<Longrightarrow> files w p = None \<and> files w' = (files w)(p \<mapsto> [])
      \<and> active_at files open_path j' w' p [] \<and> sj_active_durable j'"
    "files w' = files w \<or> files w p = None \<and> files w' = (files w)(p \<mapsto> [])"
    "r \<noteq> Inr LogicalCommitResult.kOutcomeUnknown" by blast+
qed

lemma WriteRecord_effect:
  assumes "WriteRecord fs h b j w = Some (x, j', w')" "ok w" "sj_active j = Some h" "b \<noteq> []"
    "open_path w h = Some p" "files w p = Some c" "sj_active_size j = of_nat (length c)"
  shows "\<exists>r. x = Inr r \<and> ok w' \<and> same_object j j' \<and> told r (files w) (files w') p c b
    \<and> (r = LogicalCommitResult.kCommitted \<longrightarrow>
        active_at files open_path j' w' p (c @ b) \<and> sj_next_sequence j' = sj_next_sequence j + 1
        \<and> sj_active_durable j' = sj_active_durable j)"
proof -
  obtain r1 m1 w1 where l: "write_loop fs h b 0 (sj_active_size j) w = Some (r1, m1, w1)"
    using assms(1) by (auto simp: WriteRecord_def split: option.splits)
  obtain k where w1: "ok w1" "open_path w1 = open_path w" "k \<le> length b" "files w1 = (files w)(p \<mapsto> c @ take k b)"
    "m1 = of_nat (length c + k)" "case r1 of None \<Rightarrow> k = length b | Some y \<Rightarrow> y = write_failure k"
    using write_loop_effect[OF l assms(2,5), of c] assms(6,7) by auto
  have id: "files w = (files w)(p \<mapsto> c)" using assms(6) by (simp add: fun_upd_idem)
  show ?thesis
  proof (cases r1)
    case (Some y)
    then show ?thesis
      using assms(1) w1 id l
      by (auto simp: WriteRecord_def write_failure_def told_def same_object_def split: if_splits)
  next
    case None
    obtain e w2 where s: "SyncData fs h w1 = (e, w2)" by fastforce
    show ?thesis
      using assms(1,3,4,5) w1 None SyncData_law[OF s w1(1)] l s
      by (auto simp: WriteRecord_def told_def same_object_def active_at_def Let_def split: if_splits
          intro!: exI[of _ "length b"])
  qed
qed

lemma AppendRecord_effect:
  assumes "AppendRecord fs b j w = Some (x, j', w')" "ok w" "active_at files open_path j w p c" "b \<noteq> []"
  shows "\<exists>r. x = Inr r \<and> ok w' \<and> same_object j j' \<and> told r (files w) (files w') p c b
    \<and> (r = LogicalCommitResult.kCommitted \<longrightarrow>
        active_at files open_path j' w' p (c @ b) \<and> sj_next_sequence j' = sj_next_sequence j + 1
        \<and> sj_active_durable j')"
proof -
  obtain h where h: "sj_active j = Some h" "open_path w h = Some p" "files w p = Some c"
    "sj_active_size j = of_nat (length c)" using assms(3) by (auto simp: active_at_def)
  show ?thesis
  proof (cases "sj_active_durable j")
    case True
    then have "WriteRecord fs h b j w = Some (x, j', w')" using assms(1) h by (simp add: AppendRecord_def)
    from WriteRecord_effect[OF this assms(2) h(1) assms(4) h(2-4)] True show ?thesis by auto
  next
    case False
    obtain s w1 where s: "sync_segment fs h (sj_directory j) w = (s, w1)" by fastforce
    note w1 = sync_segment_effect[OF s assms(2)]
    let ?j = "j\<lparr>sj_active_durable := True\<rparr>"
    show ?thesis
    proof (cases s)
      case True
      then have "WriteRecord fs h b ?j w1 = Some (x, j', w')"
        using assms(1) h False s by (simp add: AppendRecord_def MakeActiveDurable_def)
      from WriteRecord_effect[OF this, of p c] w1 h assms(4) show ?thesis by (auto simp: same_object_def)
    next
      case F: False
      then show ?thesis
        using assms(1) h False s w1 by (auto simp: AppendRecord_def MakeActiveDurable_def told_def same_object_def)
    qed
  qed
qed

lemma CloseActive_effect:
  assumes "CloseActive fs j w = (j', w')" "ok w"
  shows "ok w'" "files w' = files w" "same_object j j'" "sj_next_sequence j' = sj_next_sequence j"
    "sj_record_started j' = sj_record_started j"
  using assms Close_law[OF refl] by (auto simp: CloseActive_def same_object_def split: option.splits)

lemma same_object_trans: "same_object i j \<Longrightarrow> same_object j k \<Longrightarrow> same_object i k"
  by (simp add: same_object_def)

lemma definite:
  "r \<noteq> LogicalCommitResult.kCommitted \<Longrightarrow> r \<noteq> LogicalCommitResult.kOutcomeUnknown \<Longrightarrow>
   r = LogicalCommitResult.kDefiniteFailure"
  by (cases r) simp_all

text \<open>A commit that rotates.\<close>

lemma rotate_effect:
  assumes "CloseActive fs j w = (j1, w1)" "StartSegment fs n j1 w1 = (x1, j2, w2)" "ok w" "b \<noteq> []"
  defines "p \<equiv> JoinPath (sj_directory j) (SegmentName n)"
  shows "x1 \<noteq> Inr LogicalCommitResult.kCommitted \<Longrightarrow>
      ok w2 \<and> same_object j j2 \<and> told LogicalCommitResult.kDefiniteFailure (files w) (files w2) p [] b
      \<and> (\<forall>r. x1 = Inr r \<longrightarrow> r = LogicalCommitResult.kDefiniteFailure) \<and> sj_record_started j2 = sj_record_started j"
    and "x1 = Inr LogicalCommitResult.kCommitted \<Longrightarrow> AppendRecord fs b j2 w2 = Some (x, j', w') \<Longrightarrow>
      \<exists>r. x = Inr r \<and> ok w' \<and> same_object j j' \<and> told r (files w) (files w') p [] b
      \<and> (r = LogicalCommitResult.kCommitted \<longrightarrow> files w p = None
        \<and> active_at files open_path j' w' p b \<and> sj_next_sequence j' = sj_next_sequence j + 1 \<and> sj_active_durable j')"
proof -
  note c = CloseActive_effect[OF assms(1,3)]
  have p: "p = JoinPath (sj_directory j1) (SegmentName n)" using c(3) by (simp add: p_def same_object_def)
  note s = StartSegment_effect[OF assms(2) c(1), folded p]
  show "x1 \<noteq> Inr LogicalCommitResult.kCommitted \<Longrightarrow>
      ok w2 \<and> same_object j j2 \<and> told LogicalCommitResult.kDefiniteFailure (files w) (files w2) p [] b
      \<and> (\<forall>r. x1 = Inr r \<longrightarrow> r = LogicalCommitResult.kDefiniteFailure) \<and> sj_record_started j2 = sj_record_started j"
    using s c same_object_trans definite by (auto simp: told_def)
  assume k: "x1 = Inr LogicalCommitResult.kCommitted" "AppendRecord fs b j2 w2 = Some (x, j', w')"
  note f = s(5)[OF k(1)]
  obtain r where r: "x = Inr r" "ok w'" "same_object j2 j'" "told r (files w2) (files w') p [] b"
    "r = LogicalCommitResult.kCommitted \<longrightarrow> active_at files open_path j' w' p b
      \<and> sj_next_sequence j' = sj_next_sequence j2 + 1 \<and> sj_active_durable j'"
    using AppendRecord_effect[OF k(2) s(1) _ assms(4), of p "[]"] f by auto
  moreover have "told r (files w) (files w') p [] b" using told_created r(4) f c(2) by simp
  ultimately show "\<exists>r. x = Inr r \<and> ok w' \<and> same_object j j' \<and> told r (files w) (files w') p [] b
      \<and> (r = LogicalCommitResult.kCommitted \<longrightarrow> files w p = None
        \<and> active_at files open_path j' w' p b \<and> sj_next_sequence j' = sj_next_sequence j + 1 \<and> sj_active_durable j')"
    using f c(2,4) s(3) same_object_trans[OF c(3) same_object_trans[OF s(2) r(3)]] by simp
qed

lemma record_nonempty: "encodes e \<Longrightarrow> record_of e \<noteq> []"
  by (auto elim: record_line)

text \<open>The result of \<^verbatim>\<open>CommitLocked\<close>; an exception leaves no byte of the record.\<close>

lemma CommitLocked_effect:
  assumes "CommitLocked fs e j w = Some (x, j', w')" "ok w" "has_active files open_path j w" "\<not> sj_record_started j"
  shows "\<exists>p c. target files open_path e j w p c \<and> ok w' \<and> same_object j j'
    \<and> (x = Inr LogicalCommitResult.kDefiniteFailure \<and> files w' = files w \<or> encodes e \<and> lje_sequence e = sj_next_sequence j) \<and>
    (case x of
       Inl _ \<Rightarrow> told LogicalCommitResult.kDefiniteFailure (files w) (files w') p c (record_of e) \<and> \<not> sj_record_started j'
     | Inr r \<Rightarrow> told r (files w) (files w') p c (record_of e)
         \<and> (r = LogicalCommitResult.kCommitted \<longrightarrow> encodes e \<and> lje_sequence e = sj_next_sequence j
           \<and> (must_rotate (record_of e) j \<longrightarrow> files w p = None) \<and> active_at files open_path j' w' p (c @ record_of e)
           \<and> sj_next_sequence j' = sj_next_sequence j + 1 \<and> sj_active_durable j'))"
proof -
  obtain p c where t: "target files open_path e j w p c" using target_exists[OF assms(3)] by blast
  show ?thesis
  proof (cases "lje_sequence e = sj_next_sequence j \<and> encodes e")
    case False
    then have "x = Inr LogicalCommitResult.kDefiniteFailure" "j' = j" "w' = w"
      using assms(1) by (auto simp: CommitLocked_def encodes_def Let_def split: if_splits)
    then show ?thesis using t assms(2) by (intro exI2[of _ p c]) (auto simp: told_def same_object_def)
  next
    case e: True
    note b = record_nonempty[of e]
    show ?thesis
    proof (cases "must_rotate (record_of e) j")
      case False
      then have "AppendRecord fs (record_of e) j w = Some (x, j', w')" "active_at files open_path j w p c"
        using assms(1) e t by (simp_all add: CommitLocked_def encodes_def record_of_def Let_def target_def)
      from AppendRecord_effect[OF this(1) assms(2) this(2)] t e b False show ?thesis
        by (intro exI2[of _ p c]) auto
    next
      case True
      obtain j1 w1 where c1: "CloseActive fs j w = (j1, w1)" by fastforce
      obtain x1 j2 w2 where s: "StartSegment fs (lje_sequence e) j1 w1 = (x1, j2, w2)" by (metis surj_pair)
      have p: "p = JoinPath (sj_directory j) (SegmentName (lje_sequence e))" "c = []"
        using t True by (simp_all add: target_def)
      note r = rotate_effect[OF c1 s assms(2), of "record_of e", folded p(1)]
      have x: "if x1 = Inr LogicalCommitResult.kCommitted then AppendRecord fs (record_of e) j2 w2 = Some (x, j', w')
          else x = x1 \<and> j' = j2 \<and> w' = w2"
        using assms(1) e True c1 s
        by (auto simp: CommitLocked_def encodes_def record_of_def Let_def
            split: sum.splits LogicalCommitResult.splits)
      show ?thesis
      proof (cases "x1 = Inr LogicalCommitResult.kCommitted")
        case k: True
        then obtain r' where "x = Inr r'" "ok w'" "same_object j j'" "told r' (files w) (files w') p [] (record_of e)"
          "r' = LogicalCommitResult.kCommitted \<longrightarrow> files w p = None \<and> active_at files open_path j' w' p (record_of e)
            \<and> sj_next_sequence j' = sj_next_sequence j + 1 \<and> sj_active_durable j'"
          using r(2)[OF _ k, of x j' w'] x e b by auto
        then show ?thesis using t p e by (intro exI2[of _ p c]) simp
      next
        case k: False
        have "ok w2 \<and> same_object j j2 \<and> told LogicalCommitResult.kDefiniteFailure (files w) (files w2) p [] (record_of e)
          \<and> (\<forall>r. x1 = Inr r \<longrightarrow> r = LogicalCommitResult.kDefiniteFailure) \<and> sj_record_started j2 = sj_record_started j"
          using r(1)[OF _ k] e b by simp
        then show ?thesis
          using x k t p e assms(4) by (intro exI2[of _ p c], cases x1) simp_all
      qed
    qed
  qed
qed

lemma Commit_effect:
  assumes "Commit fs mutex_ok e j w = Some (r, j', w')" "ok w" "has_active files open_path j w"
  shows "\<exists>p c. target files open_path e j w p c \<and> ok w' \<and> told r (files w) (files w') p c (record_of e)
    \<and> (r = LogicalCommitResult.kDefiniteFailure \<and> files w' = files w \<or> encodes e \<and> lje_sequence e = sj_next_sequence j)
    \<and> (r = LogicalCommitResult.kCommitted \<longrightarrow> encodes e \<and> lje_sequence e = sj_next_sequence j \<and> same_object j j'
        \<and> (must_rotate (record_of e) j \<longrightarrow> files w p = None) \<and> active_at files open_path j' w' p (c @ record_of e)
        \<and> sj_next_sequence j' = sj_next_sequence j + 1 \<and> sj_active_durable j')
    \<and> (r \<noteq> LogicalCommitResult.kCommitted \<longrightarrow> sj_poisoned j')"
proof (cases "\<not> mutex_ok \<or> \<not> sj_opened j \<or> sj_poisoned j")
  case True
  then show ?thesis
    using assms target_exists[OF assms(3), of e] by (auto simp: Commit_def told_def)
next
  case False
  let ?j = "j\<lparr>sj_record_started := False\<rparr>"
  obtain x j1 where c: "CommitLocked fs e ?j w = Some (x, j1, w')"
    and x: "case x of Inr r' \<Rightarrow> r = r' \<and> j' = (if r \<noteq> LogicalCommitResult.kCommitted then j1\<lparr>sj_poisoned := True\<rparr> else j1)
      | Inl _ \<Rightarrow> j' = j1\<lparr>sj_poisoned := True\<rparr> \<and> r = (if sj_record_started j1
          then LogicalCommitResult.kOutcomeUnknown else LogicalCommitResult.kDefiniteFailure)"
    using assms(1) False by (fastforce simp: Commit_def split: option.splits sum.splits)
  have a: "has_active files open_path ?j w" "target files open_path e ?j w = target files open_path e j w"
    "must_rotate (record_of e) ?j = must_rotate (record_of e) j"
    using assms(3) by (auto simp: has_active_def active_at_def target_def must_rotate_def fun_eq_iff)
  obtain p c where f: "target files open_path e j w p c" "ok w'" "same_object ?j j1"
      "x = Inr LogicalCommitResult.kDefiniteFailure \<and> files w' = files w \<or> encodes e \<and> lje_sequence e = sj_next_sequence ?j" and
    k: "case x of
       Inl _ \<Rightarrow> told LogicalCommitResult.kDefiniteFailure (files w) (files w') p c (record_of e) \<and> \<not> sj_record_started j1
     | Inr r \<Rightarrow> told r (files w) (files w') p c (record_of e)
         \<and> (r = LogicalCommitResult.kCommitted \<longrightarrow> encodes e \<and> lje_sequence e = sj_next_sequence ?j
           \<and> (must_rotate (record_of e) j \<longrightarrow> files w p = None) \<and> active_at files open_path j1 w' p (c @ record_of e)
           \<and> sj_next_sequence j1 = sj_next_sequence ?j + 1 \<and> sj_active_durable j1)"
    using CommitLocked_effect[OF c assms(2) a(1)] unfolding a by auto
  have o: "same_object j j1" using f(3) by (simp add: same_object_def)
  show ?thesis
  proof (cases x)
    case (Inl y)
    then show ?thesis using f k x by (intro exI2[of _ p c]) simp
  next
    case (Inr y)
    then show ?thesis using f k x o by (intro exI2[of _ p c]) simp
  qed
qed

end

section \<open>Termination\<close>

text \<open>
  The write loop ends when every interrupted write uses up a part of a finite budget: the kernel
  interrupts a write once per signal.
\<close>

locale finite_interrupts =
  fixes fs :: "'w FileSystem"
    and interrupts :: "'w \<Rightarrow> nat"
  assumes Write_interrupts: "Write fs h b w = (res, w') \<Longrightarrow>
    interrupts w' \<le> interrupts w \<and> (wo_error res = IoError.kInterrupted \<longrightarrow> interrupts w' < interrupts w)"
begin

lemma write_loop_returns: "\<exists>r. write_loop fs h b n m w = Some r"
proof (induction "interrupts w + (length b - n)" arbitrary: n m w rule: less_induct)
  case less
  obtain res w1 where res: "Write fs h (drop n b) w = (res, w1)" by fastforce
  note i = Write_interrupts[OF res]
  show ?case
  proof (cases "n < length b \<and> (wo_error res = IoError.kInterrupted
      \<or> wo_error res = IoError.kNone \<and> wo_written res \<noteq> 0)")
    case True
    then have "interrupts w1 + (length b - (n + wo_written res)) < interrupts w + (length b - n)"
      using i by auto
    from less[OF this, of "m + of_nat (wo_written res)"] True show ?thesis
      by (subst write_loop.simps) (auto simp: res Let_def)
  next
    case False
    then show ?thesis by (subst write_loop.simps) (auto simp: res Let_def)
  qed
qed

lemma AppendRecord_returns: "\<exists>x. AppendRecord fs b j w = Some x"
proof -
  have "\<exists>x. WriteRecord fs h b j w = Some x" for h j w
    using write_loop_returns[of h b 0 "sj_active_size j" w]
    by (auto simp: WriteRecord_def Let_def split: option.splits prod.splits)
  then show ?thesis
    by (auto simp: AppendRecord_def split: option.splits prod.splits sum.splits LogicalCommitResult.splits)
qed

lemma Commit_returns: "\<exists>x. Commit fs mutex_ok e j w = Some x"
proof -
  have "\<exists>x. CommitLocked fs e j w = Some x" for j
    using AppendRecord_returns
    by (auto simp: CommitLocked_def Let_def split: prod.splits sum.splits LogicalCommitResult.splits)
  then obtain x j1 w1 where "CommitLocked fs e (j\<lparr>sj_record_started := False\<rparr>) w = Some (x, j1, w1)"
    by (metis prod_cases3)
  then show ?thesis by (cases x) (simp_all add: Commit_def)
qed

end

definition mem_interrupts :: "MemoryFileSystem \<Rightarrow> nat" where
  "mem_interrupts w = m_interrupted_writes w + (if m_next_write_fault w = None then 0 else 1)"

interpretation mem_int: finite_interrupts memory_fs mem_interrupts
proof
  have append_to: "m_interrupted_writes (append_to h b w) = m_interrupted_writes w"
    "m_next_write_fault (append_to h b w) = m_next_write_fault w" for h b w
    by (auto simp: append_to_def Let_def split: option.splits)
  have logged: "m_interrupted_writes (logged s w) = m_interrupted_writes w"
    "m_next_write_fault (logged s w) = m_next_write_fault w" for s w
    by (simp_all add: logged_def)
  fix h b w res w'
  assume "Write memory_fs h b w = (res, w')"
  then show "mem_interrupts w' \<le> mem_interrupts w
      \<and> (wo_error res = IoError.kInterrupted \<longrightarrow> mem_interrupts w' < mem_interrupts w)"
    by (auto simp: memory_fs_def m_Write_def Let_def append_to logged mem_interrupts_def
        split: if_splits option.splits)
qed

section \<open>What a commit promises\<close>

text \<open>
  C7. The result of \<^verbatim>\<open>Commit\<close> tells the truth about the bytes, on every file system that satisfies the
  interface and at every fault it can report. When the result is committed, the event is encodable
  and carries the next sequence, exactly its record was appended to the active segment or to a new
  one, no other file changed, and the object knows the new size and the next sequence. When the
  result is a definite failure, no byte of the record was written, and at most an empty segment was
  added. When the outcome is unknown, a non-empty part of the record was appended. Every result but
  committed poisons the object.
\<close>

theorem commit_tells_the_truth:
  assumes "append_store fs files open_path ok" "ok w" "has_active files open_path j w"
    "Commit fs mutex_ok e j w = Some (r, j', w')"
  shows "ok w' \<and> (\<exists>p c. target files open_path e j w p c \<and> told r (files w) (files w') p c (record_of e)
      \<and> (r = LogicalCommitResult.kCommitted \<longrightarrow> active_at files open_path j' w' p (c @ record_of e)))
    \<and> (r = LogicalCommitResult.kCommitted \<longrightarrow> encodes e \<and> lje_sequence e = NextSequence j
      \<and> NextSequence j' = NextSequence j + 1)
    \<and> (r \<noteq> LogicalCommitResult.kCommitted \<longrightarrow> Poisoned j')"
  using append_store.Commit_effect[OF assms(1,4,2,3)] by (auto simp: NextSequence_def Poisoned_def)

text \<open>
  C34. A result that is not committed poisons the object for good: every later commit of any event
  returns a definite failure, changes neither the object nor the file system, and does no I/O.
\<close>

theorem poisoned_journal_is_inert:
  assumes "Commit fs mutex_ok e j w = Some (r, j', w')" "r \<noteq> LogicalCommitResult.kCommitted"
  shows "Commit fs' mutex_ok' e' j' w'' = Some (LogicalCommitResult.kDefiniteFailure, j', w'')"
proof -
  have "sj_poisoned j'"
    using assms by (auto simp: Commit_def split: if_splits option.splits sum.splits)
  then show ?thesis by (simp add: Commit_def)
qed

text \<open>
  C35. \<^verbatim>\<open>Commit\<close> returns: on a file system that interrupts only finitely many writes, the write loop
  ends whatever short writes, errors and syncs the file system reports.
\<close>

theorem commit_terminates:
  assumes "finite_interrupts fs interrupts"
  shows "\<exists>r j' w'. Commit fs mutex_ok e j w = Some (r, j', w')"
  using finite_interrupts.Commit_returns[OF assms, of mutex_ok e j w] by auto

section \<open>A file system without pending faults\<close>

definition healthy :: "MemoryFileSystem \<Rightarrow> bool" where
  "healthy w \<longleftrightarrow> m_next_write_fault w = None \<and> \<not> m_fail_next_sync w \<and> \<not> m_fail_next_directory_sync w
     \<and> m_directory_syncs_until_failure w = 0 \<and> \<not> m_fail_next_create w \<and> \<not> m_throw_on_create w"

lemma healthy_updates [simp]:
  "healthy (logged s w) = healthy w" "healthy (append_to h b w) = healthy w" "healthy (m_Close h w) = healthy w"
  "healthy (w\<lparr>m_interrupted_writes := n\<rparr>) = healthy w"
  by (simp_all add: healthy_def logged_def append_to_def m_Close_def Let_def split: option.splits)

lemma close_files: "mem_files (m_Close h w) = mem_files w"
  by (simp add: m_Close_def mem_files_def Let_def split: option.splits)

lemma healthy_Write:
  assumes "m_Write h b w = (res, w')" "healthy w" "b \<noteq> []"
  shows "healthy w' \<and> (wo_error res = IoError.kInterrupted \<or> wo_error res = IoError.kNone \<and> wo_written res \<noteq> 0)"
proof -
  have "m_next_write_fault (logged s w) = None" for s using assms(2) by (simp add: healthy_def logged_def)
  then show ?thesis using assms by (auto simp: m_Write_def Let_def split: if_splits)
qed

lemma healthy_sync:
  assumes "healthy w"
  shows "\<exists>w'. m_SyncData h w = (IoError.kNone, w') \<and> healthy w'"
    "\<exists>w'. m_SyncDirectory d w = (IoError.kNone, w') \<and> healthy w'"
  using assms by (auto simp: m_SyncData_def m_SyncDirectory_def Let_def healthy_def logged_def)

lemma healthy_create:
  assumes "healthy w" "mem_files w p = None"
  shows "\<exists>h w'. m_OpenAppend p True w = (Inr (Inr h), w') \<and> healthy w'"
  using assms by (auto simp: m_OpenAppend_def Let_def healthy_def logged_def Register_def mem_files_def)

lemma healthy_loop:
  assumes "write_loop memory_fs h b n m w = Some (r, m', w')" "healthy w"
  shows "r = None \<and> healthy w'"
proof -
  have "fst x = None \<and> healthy (snd (snd x))" if "write_loop memory_fs h b n m w = Some x" for x
    using that assms(2)
  proof (induction rule: write_loop_induct)
    case (failed n m w res w1)
    then show ?case using healthy_Write[of h "drop n b" w res w1] by (simp add: memory_fs_def)
  next
    case (more n m w r res w1)
    then show ?case using healthy_Write[of h "drop n b" w res w1] by (simp add: memory_fs_def)
  qed simp
  from this[OF assms(1)] show ?thesis by simp
qed

lemma healthy_append:
  assumes "healthy w" "sj_active j \<noteq> None"
  shows "\<exists>j' w'. AppendRecord memory_fs b j w = Some (Inr LogicalCommitResult.kCommitted, j', w') \<and> healthy w'"
proof -
  obtain h where h: "sj_active j = Some h" using assms(2) by blast
  have wr: "\<exists>j' w'. WriteRecord memory_fs h b j w = Some (Inr LogicalCommitResult.kCommitted, j', w') \<and> healthy w'"
    if "healthy w" for j w
  proof -
    obtain r m1 w1 where l: "write_loop memory_fs h b 0 (sj_active_size j) w = Some (r, m1, w1)"
      using mem_int.write_loop_returns[of h b 0 "sj_active_size j" w] by auto
    then have "r = None" "healthy w1" using healthy_loop that by blast+
    then show ?thesis using healthy_sync(1)[of w1 h] l by (auto simp: WriteRecord_def memory_fs_def)
  qed
  show ?thesis
  proof (cases "sj_active_durable j")
    case True
    then show ?thesis using wr[OF assms(1), of j] h by (simp add: AppendRecord_def)
  next
    case False
    obtain w1 where "m_SyncData h w = (IoError.kNone, w1)" "healthy w1" using healthy_sync(1)[OF assms(1)] by blast
    moreover obtain w2 where "m_SyncDirectory (sj_directory j) w1 = (IoError.kNone, w2)" "healthy w2"
      using healthy_sync(2)[OF calculation(2)] by blast
    ultimately show ?thesis
      using wr[of w2 "j\<lparr>sj_active_durable := True\<rparr>"] h False
      by (simp add: AppendRecord_def MakeActiveDurable_def sync_segment_def memory_fs_def)
  qed
qed

lemma healthy_start:
  assumes "healthy w" "mem_files w (JoinPath (sj_directory j) (SegmentName n)) = None"
  shows "\<exists>j' w'. StartSegment memory_fs n j w = (Inr LogicalCommitResult.kCommitted, j', w') \<and> healthy w'
    \<and> sj_active j' \<noteq> None"
proof -
  obtain h w1 where 1: "m_OpenAppend (JoinPath (sj_directory j) (SegmentName n)) True w = (Inr (Inr h), w1)" "healthy w1"
    using healthy_create[OF assms] by blast
  obtain w2 where 2: "m_SyncData h w1 = (IoError.kNone, w2)" "healthy w2" using healthy_sync(1)[OF 1(2)] by blast
  obtain w3 where "m_SyncDirectory (sj_directory j) w2 = (IoError.kNone, w3)" "healthy w3"
    using healthy_sync(2)[OF 2(2)] by blast
  with 1 2 show ?thesis by (simp add: StartSegment_def sync_segment_def memory_fs_def Let_def)
qed

lemma commit_healthy:
  assumes "healthy w" "sj_opened j" "\<not> Poisoned j" "encodes e" "lje_sequence e = NextSequence j"
    "mem_files w (JoinPath (sj_directory j) (SegmentName (NextSequence j))) = None"
  shows "\<exists>j' w'. Commit memory_fs True e j w = Some (LogicalCommitResult.kCommitted, j', w') \<and> healthy w'"
proof -
  let ?j = "j\<lparr>sj_record_started := False\<rparr>"
  have "\<exists>j' w'. CommitLocked memory_fs e ?j w = Some (Inr LogicalCommitResult.kCommitted, j', w') \<and> healthy w'"
  proof (cases "must_rotate (record_of e) ?j")
    case False
    then have "sj_active ?j \<noteq> None" by (simp add: must_rotate_def)
    from healthy_append[OF assms(1) this, of "record_of e"] False assms(4,5) show ?thesis
      by (simp add: CommitLocked_def encodes_def record_of_def NextSequence_def Let_def)
  next
    case True
    obtain j1 w1 where c: "CloseActive memory_fs ?j w = (j1, w1)" by fastforce
    have w1: "healthy w1" "mem_files w1 = mem_files w" "sj_directory j1 = sj_directory j"
      using c assms(1)
      by (auto simp: CloseActive_def memory_fs_def close_files split: option.splits)
    obtain j2 w2 where s: "StartSegment memory_fs (lje_sequence e) j1 w1 = (Inr LogicalCommitResult.kCommitted, j2, w2)"
      "healthy w2" "sj_active j2 \<noteq> None"
      using healthy_start[of w1 j1 "lje_sequence e"] w1 assms(5,6) by auto
    then show ?thesis
      using healthy_append[OF s(2,3), of "record_of e"] c True assms(4,5)
      by (simp add: CommitLocked_def encodes_def record_of_def NextSequence_def Let_def)
  qed
  then show ?thesis using assms(2,3) by (auto simp: Commit_def Poisoned_def)
qed


section \<open>Witnesses\<close>

definition empty_memory :: MemoryFileSystem where
  "empty_memory = \<lparr>m_files = [], m_directories = [''j''], m_durable_entries = [], m_log = [],
     m_next_write_fault = None, m_interrupted_writes = 1, m_short_write_limit = 7, m_fail_next_sync = False,
     m_fail_next_directory_sync = False, m_directory_syncs_until_failure = 0, m_fail_next_create = False,
     m_throw_on_create = False, m_throw_on_list = False, m_throw_on_read = False, m_fail_next_mkdir = False,
     m_unreadable_entries = [], m_hard_links = [], m_other_entries = [], m_symbolic_links = [], m_fail_next_truncate = False,
     m_fail_next_rename = False, m_renames_until_failure = 0, m_ignore_next_truncate = False,
     m_fail_after_next_truncate = False, m_next_truncate_to = None, m_ignore_next_rename = False, m_throw_on_rename = False,
     m_create_error = IoError.kNoSpace, m_handles = [], m_locked = [], m_next_handle = 1\<rparr>"

definition sample_journal :: SegmentJournal where
  "sample_journal = (new_SegmentJournal 67108864)\<lparr>sj_directory := ''j'', sj_opened := True, sj_next_sequence := 1\<rparr>"

lemma sample_state:
  "healthy empty_memory" "sj_opened sample_journal" "\<not> Poisoned sample_journal" "mem_ok empty_memory"
  "has_active mem_files mem_open sample_journal empty_memory" "lje_sequence sample_event = NextSequence sample_journal"
  "mem_files empty_memory p = None"
  by (simp_all add: healthy_def empty_memory_def sample_journal_def new_SegmentJournal_def Poisoned_def mem_ok_def
      has_active_def mem_files_def NextSequence_def sample_event_def Envelope_def)


theorem commit_tells_the_truth_witness:
  "append_store memory_fs mem_files mem_open mem_ok
   \<and> (\<exists>j' w' p c. Commit memory_fs True sample_event sample_journal empty_memory
        = Some (LogicalCommitResult.kCommitted, j', w')
      \<and> target mem_files mem_open sample_event sample_journal empty_memory p c
      \<and> told LogicalCommitResult.kCommitted (mem_files empty_memory) (mem_files w') p c (record_of sample_event)
      \<and> NextSequence j' = NextSequence sample_journal + 1)"
proof -
  obtain j' w' where c: "Commit memory_fs True sample_event sample_journal empty_memory
      = Some (LogicalCommitResult.kCommitted, j', w')"
    using commit_healthy[OF sample_state(1-3) sample_event_encodes sample_state(6,7)] by blast
  show ?thesis
    using commit_tells_the_truth[OF mem.append_store_axioms sample_state(4,5) c] c mem.append_store_axioms by blast
qed

theorem poisoned_journal_is_inert_witness:
  "Commit memory_fs True sample_event (new_SegmentJournal 1) empty_memory
     = Some (LogicalCommitResult.kDefiniteFailure, (new_SegmentJournal 1)\<lparr>sj_poisoned := True\<rparr>, empty_memory)
   \<and> Commit memory_fs True sample_event ((new_SegmentJournal 1)\<lparr>sj_poisoned := True\<rparr>) empty_memory
     = Some (LogicalCommitResult.kDefiniteFailure, (new_SegmentJournal 1)\<lparr>sj_poisoned := True\<rparr>, empty_memory)"
proof -
  have c: "Commit memory_fs True sample_event (new_SegmentJournal 1) empty_memory
      = Some (LogicalCommitResult.kDefiniteFailure, (new_SegmentJournal 1)\<lparr>sj_poisoned := True\<rparr>, empty_memory)"
    by (simp add: Commit_def new_SegmentJournal_def)
  show ?thesis using poisoned_journal_is_inert[OF c] c by simp
qed

theorem commit_terminates_witness:
  "finite_interrupts memory_fs mem_interrupts
   \<and> (\<exists>r j' w'. Commit memory_fs True sample_event sample_journal empty_memory = Some (r, j', w'))"
  using commit_terminates[OF mem_int.finite_interrupts_axioms] mem_int.finite_interrupts_axioms by blast

end
