(* ===== verification/Journal_Layout.thy ===== *)
theory Journal_Layout
  imports Journal_Commit
begin

text \<open>
  The abstract journal: the sequence of committed events. The theory relates it to the segment files of
  a directory, and shows that a commit adds its event to the sequence, or leaves it alone, or leaves
  it followed by a torn part of the record.
\<close>

section \<open>Segments of a sequence of events\<close>

definition records :: "LogicalJobEvent list \<Rightarrow> string" where
  "records es = concat (map record_of es)"

fun numbered :: "nat \<Rightarrow> LogicalJobEvent list \<Rightarrow> bool" where
  "numbered n [] = True"
| "numbered n (e # es) \<longleftrightarrow> lje_sequence e = of_nat n \<and> encodes e \<and> numbered (n + 1) es"

text \<open>
  \<open>ess\<close> holds the events of each segment; the first one has the number \<open>n\<close>. Only the last segment may be
  empty. \<open>tail\<close> are bytes after the last record.
\<close>

fun segments_ok :: "nat \<Rightarrow> LogicalJobEvent list list \<Rightarrow> bool" where
  "segments_ok n [] \<longleftrightarrow> 0 < n \<and> n \<le> 2 ^ 64"
| "segments_ok n (es # ess) \<longleftrightarrow>
     0 < n \<and> n < 2 ^ 64 \<and> numbered n es \<and> (es = [] \<longrightarrow> ess = []) \<and> segments_ok (n + length es) ess"

fun layout :: "nat \<Rightarrow> LogicalJobEvent list list \<Rightarrow> string \<Rightarrow> (string \<times> string) list" where
  "layout n [] tail = []"
| "layout n (es # ess) tail =
     (SegmentName (of_nat n), records es @ (if ess = [] then tail else [])) # layout (n + length es) ess tail"

definition stored ::
  "(string \<Rightarrow> string option) \<Rightarrow> string \<Rightarrow> nat \<Rightarrow> LogicalJobEvent list list \<Rightarrow> string \<Rightarrow> bool" where
  "stored fls d n ess tail \<longleftrightarrow> segments_ok n ess \<and> LF \<notin> set tail \<and> (ess = [] \<longrightarrow> tail = []) \<and>
     (\<forall>name. segment_shaped name \<and> plain_name name \<longrightarrow>
        fls (JoinPath d name) = map_of (layout n ess tail) name)"

text \<open>An object that is open on the segments \<open>ess\<close>.\<close>

definition journal_at ::
  "('w \<Rightarrow> string \<Rightarrow> string option) \<Rightarrow> ('w \<Rightarrow> FileHandle \<Rightarrow> string option) \<Rightarrow> SegmentJournal \<Rightarrow> 'w
   \<Rightarrow> nat \<Rightarrow> LogicalJobEvent list list \<Rightarrow> bool" where
  "journal_at files open_path j w n ess \<longleftrightarrow>
     stored (files w) (sj_directory j) n ess [] \<and> sj_next_sequence j = of_nat (n + length (concat ess))
     \<and> (if sj_active j = None then ess = [] \<or> last ess \<noteq> []
        else ess \<noteq> [] \<and> active_at files open_path j w
          (JoinPath (sj_directory j) (SegmentName (of_nat (n + length (concat (butlast ess)))))) (records (last ess)))"

section \<open>Lemmas on layouts\<close>

lemma records_simps [simp]: "records [] = []" "records (e # es) = record_of e @ records es"
  "records (es @ fs) = records es @ records fs"
  by (simp_all add: records_def)

lemma numbered_append: "numbered n (es @ fs) \<longleftrightarrow> numbered n es \<and> numbered (n + length es) fs"
  by (induction es arbitrary: n) auto

lemma segments_ok_snoc:
  "segments_ok n (ess @ [es]) \<longleftrightarrow> segments_ok n ess \<and> (\<forall>xs \<in> set ess. xs \<noteq> [])
     \<and> n + length (concat ess) < 2 ^ 64 \<and> numbered (n + length (concat ess)) es
     \<and> n + length (concat ess) + length es \<le> 2 ^ 64"
proof (induction ess arbitrary: n)
  case (Cons xs ess)
  then show ?case by (auto simp: add.assoc)
qed auto

lemma segments_ok_bound: "segments_ok n ess \<Longrightarrow> 0 < n \<and> n + length (concat ess) \<le> 2 ^ 64"
proof (induction ess arbitrary: n)
  case (Cons es ess)
  then show ?case using Cons.IH[of "n + length es"] by (simp add: add.assoc)
qed simp

lemma segments_nonempty: "segments_ok n ess \<Longrightarrow> ess = [] \<or> last ess \<noteq> [] \<Longrightarrow> \<forall>xs \<in> set ess. xs \<noteq> []"
  by (cases ess rule: rev_cases) (auto simp: segments_ok_snoc)

lemma layout_snoc:
  "layout n (ess @ [es]) tail = layout n ess [] @ [(SegmentName (of_nat (n + length (concat ess))), records es @ tail)]"
  by (induction ess arbitrary: n) (auto simp: add.assoc)

lemma layout_append: "layout n (ess @ fss) tail =
    (if fss = [] then layout n ess tail else layout n ess [] @ layout (n + length (concat ess)) fss tail)"
  by (induction ess arbitrary: n) (auto simp: add.assoc)

lemma of_nat_u64_inject: "m < 2 ^ 64 \<Longrightarrow> n < 2 ^ 64 \<Longrightarrow> (of_nat m :: u64) = of_nat n \<longleftrightarrow> m = n"
  using unat_of_nat_u64 by metis

lemma last_segment_fresh:
  assumes "segments_ok n (ess @ [es])"
  shows "map_of (layout n ess tail) (SegmentName (of_nat (n + length (concat ess)))) = None"
  using assms
proof (induction ess arbitrary: n)
  case (Cons xs ess)
  have "segments_ok (n + length xs) (ess @ [es])" "xs \<noteq> []" "n < 2 ^ 64" using Cons.prems by auto
  moreover from this(1) have "n + length xs + length (concat ess) < 2 ^ 64" by (simp add: segments_ok_snoc)
  moreover have "0 < length xs" using calculation(2) by simp
  ultimately have "(of_nat n :: u64) \<noteq> of_nat (n + length xs + length (concat ess))"
    by (subst of_nat_u64_inject) auto
  with Cons.IH[of "n + length xs"] \<open>segments_ok (n + length xs) (ess @ [es])\<close> show ?case
    by (simp add: add.assoc del: of_nat_add)
qed simp

lemma stored_update:
  assumes "stored fls d n (ess @ [es]) t" "segments_ok n (ess @ [es'])" "LF \<notin> set t'"
    "fls' = fls(JoinPath d (SegmentName (of_nat (n + length (concat ess)))) \<mapsto> records es' @ t')"
  shows "stored fls' d n (ess @ [es']) t'"
  using assms last_segment_fresh[OF assms(2), of "[]"]
  by (auto simp: stored_def layout_snoc JoinPath_inject map_add_def split: option.splits)

lemma stored_new:
  assumes "stored fls d n ess []" "segments_ok n (ess @ [es])" "LF \<notin> set t"
    "fls' = fls(JoinPath d (SegmentName (of_nat (n + length (concat ess)))) \<mapsto> records es @ t)"
  shows "stored fls' d n (ess @ [es]) t"
  using assms last_segment_fresh[OF assms(2), of "[]"]
  by (auto simp: stored_def layout_snoc JoinPath_inject map_add_def split: option.splits)

section \<open>A commit adds its event\<close>

lemma encodes_sequence: "encodes e \<Longrightarrow> lje_sequence e \<noteq> 0"
  using Violation_None(2)[OF encodes_facts(1)] by auto

context append_store
begin

lemma journal_has_active: "journal_at files open_path j w n ess \<Longrightarrow> has_active files open_path j w"
  by (auto simp: journal_at_def has_active_def split: if_splits)

lemma active_at_inject:
  "active_at files open_path j w p c \<Longrightarrow> active_at files open_path j w p' c' \<Longrightarrow> p = p' \<and> c = c'"
  by (auto simp: active_at_def)

lemma next_fits:
  assumes "journal_at files open_path j w n ess" "encodes e" "lje_sequence e = sj_next_sequence j"
  shows "n + length (concat ess) < 2 ^ 64"
proof -
  have "(of_nat (2 ^ 64) :: u64) = 0" by simp
  then have "n + length (concat ess) \<noteq> 2 ^ 64"
    using encodes_sequence[OF assms(2)] assms(1,3) by (metis journal_at_def)
  then show ?thesis using segments_ok_bound[of n ess] assms(1) by (simp add: journal_at_def stored_def)
qed

text \<open>The place that takes a record: after the events \<open>es\<close> of a segment that follows the segments \<open>bs\<close>.\<close>

lemma record_place:
  assumes "journal_at files open_path j w n ess" "target files open_path e j w p c" "n + length (concat ess) < 2 ^ 64"
    "lje_sequence e = sj_next_sequence j"
  obtains bs es where "concat bs @ es = concat ess" "c = records es"
    "p = JoinPath (sj_directory j) (SegmentName (of_nat (n + length (concat bs))))"
    "segments_ok n (bs @ [es])"
    "\<And>es' t fls'. segments_ok n (bs @ [es']) \<Longrightarrow> LF \<notin> set t \<Longrightarrow> fls' = (files w)(p \<mapsto> records es' @ t)
      \<Longrightarrow> stored fls' (sj_directory j) n (bs @ [es']) t"
proof (cases "must_rotate (record_of e) j")
  case True
  have st: "stored (files w) (sj_directory j) n ess []" "sj_next_sequence j = of_nat (n + length (concat ess))"
    using assms(1) by (simp_all add: journal_at_def)
  have p: "p = JoinPath (sj_directory j) (SegmentName (of_nat (n + length (concat ess))))" "c = records []"
    using assms(2,4) st(2) True by (simp_all add: target_def)
  have "ess = [] \<or> last ess \<noteq> []"
    using assms(1) True by (auto simp: journal_at_def must_rotate_def active_at_def split: if_splits)
  moreover have "segments_ok n ess" using st(1) by (simp add: stored_def)
  ultimately have "segments_ok n (ess @ [[]])"
    using assms(3) segments_nonempty[of n ess] segments_ok_snoc[of n ess "[]"] by auto
  with that[of ess "[]"] p stored_new[OF st(1)] show thesis by auto
next
  case False
  have l: "ess \<noteq> []" "active_at files open_path j w
      (JoinPath (sj_directory j) (SegmentName (of_nat (n + length (concat (butlast ess)))))) (records (last ess))"
    "stored (files w) (sj_directory j) n ess []"
    using assms(1) False by (auto simp: journal_at_def must_rotate_def split: if_splits)
  have "active_at files open_path j w p c" using assms(2) False by (simp add: target_def)
  with l(2) active_at_inject have pc: "p = JoinPath (sj_directory j) (SegmentName (of_nat (n + length (concat (butlast ess)))))"
    "c = records (last ess)" by blast+
  have b: "ess = butlast ess @ [last ess]" using l(1) by simp
  then have "concat ess = concat (butlast ess) @ last ess" by (metis concat_append concat.simps append_Nil2)
  moreover have "segments_ok n (butlast ess @ [last ess])" using l(3) b by (simp add: stored_def)
  ultimately show thesis
    using that[of "butlast ess" "last ess"] pc stored_update[of "files w" _ n "butlast ess" "last ess" "[]"] l(3) b by auto
qed

text \<open>What a step that wrote at this place leaves, for each result.\<close>

lemma told_stored:
  assumes "told r f g p c (record_of e)" "c = records es" "concat bs @ es = concat ess" "encodes e"
    "segments_ok n (bs @ [es])" "segments_ok n (bs @ [es @ [e]])" "f p = None \<longrightarrow> c = []"
    "r = LogicalCommitResult.kDefiniteFailure \<longrightarrow> g \<noteq> f"
    "\<And>es' t. segments_ok n (bs @ [es']) \<Longrightarrow> LF \<notin> set t \<Longrightarrow> stored (f(p \<mapsto> records es' @ t)) d n (bs @ [es']) t"
  shows "case r of
       LogicalCommitResult.kCommitted \<Rightarrow> stored g d n (bs @ [es @ [e]]) []
     | LogicalCommitResult.kDefiniteFailure \<Rightarrow> stored g d n (bs @ [es]) []
     | LogicalCommitResult.kOutcomeUnknown \<Rightarrow> stored g d n (bs @ [es @ [e]]) []
         \<or> (\<exists>t u. stored g d n (bs @ [es]) t \<and> t \<noteq> [] \<and> u \<noteq> [] \<and> record_of e = t @ u)"
proof (cases r)
  case kCommitted
  then show ?thesis using assms(1,2) assms(9)[OF assms(6), of "[]"] by (simp add: told_def)
next
  case kDefiniteFailure
  then have "f p = None" "g = f(p \<mapsto> [])" using assms(1,8) by (auto simp: told_def)
  then show ?thesis using assms(2,7) assms(9)[OF assms(5), of "[]"] kDefiniteFailure by simp
next
  case kOutcomeUnknown
  then obtain m where m: "0 < m" "m \<le> length (record_of e)" "g = f(p \<mapsto> c @ take m (record_of e))"
    using assms(1) by (auto simp: told_def)
  obtain body where b: "record_of e = body @ [LF]" "LF \<notin> set body" by (rule record_line[OF assms(4)])
  show ?thesis
  proof (cases "m = length (record_of e)")
    case True
    then show ?thesis using m(3) assms(2) assms(9)[OF assms(6), of "[]"] kOutcomeUnknown by simp
  next
    case False
    then have t: "take m (record_of e) = take m body" "drop m (record_of e) \<noteq> []" "take m (record_of e) \<noteq> []"
      using m(1,2) b(1) by auto
    then have "LF \<notin> set (take m (record_of e))" using b(2) by (auto dest: in_set_takeD)
    from assms(9)[OF assms(5) this] have "stored g d n (bs @ [es]) (take m (record_of e))"
      using m(3) assms(2) by simp
    moreover have "record_of e = take m (record_of e) @ drop m (record_of e)" by simp
    ultimately show ?thesis unfolding kOutcomeUnknown LogicalCommitResult.case using t(2,3) by metis
  qed
qed

lemma Commit_stored:
  assumes "Commit fs mutex_ok e j w = Some (r, j', w')" "ok w" "journal_at files open_path j w n ess"
  shows "\<exists>ess' t. stored (files w') (sj_directory j) n ess' t \<and>
    (case r of
       LogicalCommitResult.kCommitted \<Rightarrow> t = [] \<and> concat ess' = concat ess @ [e] \<and> journal_at files open_path j' w' n ess'
     | LogicalCommitResult.kDefiniteFailure \<Rightarrow> t = [] \<and> concat ess' = concat ess
     | LogicalCommitResult.kOutcomeUnknown \<Rightarrow> t = [] \<and> concat ess' = concat ess @ [e]
         \<or> concat ess' = concat ess \<and> t \<noteq> [] \<and> (\<exists>u. u \<noteq> [] \<and> record_of e = t @ u))"
proof -
  note st = assms(3)[unfolded journal_at_def]
  obtain p c where eff: "target files open_path e j w p c" "told r (files w) (files w') p c (record_of e)"
    "r = LogicalCommitResult.kDefiniteFailure \<and> files w' = files w \<or> encodes e \<and> lje_sequence e = sj_next_sequence j"
    and k: "r = LogicalCommitResult.kCommitted \<Longrightarrow> same_object j j' \<and> active_at files open_path j' w' p (c @ record_of e)
      \<and> sj_next_sequence j' = sj_next_sequence j + 1"
    using Commit_effect[OF assms(1,2) journal_has_active[OF assms(3)]] by blast
  show ?thesis
  proof (cases "r = LogicalCommitResult.kDefiniteFailure \<and> files w' = files w")
    case True
    then show ?thesis using st by auto
  next
    case False
    then have e: "encodes e" "lje_sequence e = sj_next_sequence j" using eff(3) by auto
    have N: "n + length (concat ess) < 2 ^ 64" by (rule next_fits[OF assms(3) e])
    obtain bs es where pl: "concat bs @ es = concat ess" "c = records es"
      "p = JoinPath (sj_directory j) (SegmentName (of_nat (n + length (concat bs))))" "segments_ok n (bs @ [es])"
      "\<And>es' t fls'. segments_ok n (bs @ [es']) \<Longrightarrow> LF \<notin> set t \<Longrightarrow> fls' = (files w)(p \<mapsto> records es' @ t)
        \<Longrightarrow> stored fls' (sj_directory j) n (bs @ [es']) t"
      using record_place[OF assms(3) eff(1) N e(2)] by blast
    have ok': "segments_ok n (bs @ [es @ [e]])"
      using pl(4) pl(1)[symmetric] e N st by (simp add: segments_ok_snoc numbered_append add.assoc)
    have ev: "concat (bs @ [es @ [e]]) = concat ess @ [e]" "concat (bs @ [es]) = concat ess" using pl(1) by auto
    have "files w p = None \<longrightarrow> c = []" using eff(1) by (auto simp: target_def active_at_def split: if_splits)
    note t = told_stored[OF eff(2) pl(2,1) e(1) pl(4) ok' this _ pl(5)[OF _ _ refl]]
    show ?thesis
    proof (cases r)
      case kCommitted
      then have s: "stored (files w') (sj_directory j) n (bs @ [es @ [e]]) []" using t by simp
      have "sj_next_sequence j' = of_nat (n + length (concat (bs @ [es @ [e]])))"
        unfolding ev(1) using k[OF kCommitted] st by simp
      moreover have "sj_active j' \<noteq> None" using k[OF kCommitted] by (auto simp: active_at_def)
      ultimately have "journal_at files open_path j' w' n (bs @ [es @ [e]])"
        using s k[OF kCommitted] pl(2,3) by (simp add: journal_at_def same_object_def)
      with s ev(1) kCommitted show ?thesis by (intro exI2[of _ "bs @ [es @ [e]]" "[]"]) simp
    next
      case kDefiniteFailure
      then have "stored (files w') (sj_directory j) n (bs @ [es]) []" using t False by simp
      with ev(2) kDefiniteFailure show ?thesis by (intro exI2[of _ "bs @ [es]" "[]"]) simp
    next
      case kOutcomeUnknown
      then have "stored (files w') (sj_directory j) n (bs @ [es @ [e]]) []
          \<or> (\<exists>t u. stored (files w') (sj_directory j) n (bs @ [es]) t \<and> t \<noteq> [] \<and> u \<noteq> [] \<and> record_of e = t @ u)"
        using t by simp
      with ev show ?thesis unfolding kOutcomeUnknown LogicalCommitResult.case by metis
    qed
  qed
qed

end

end
