(* ===== verification/Journal_Open.thy ===== *)
theory Journal_Open
  imports Journal_Layout
begin

text \<open>
  Finding the segments of a directory again. The lemmas about the listing, the contents and the last
  record of a layout serve both \<^verbatim>\<open>SegmentJournal::Open\<close> and replay. The theory shows that opening a
  directory continues the sequence of events that it holds, and refuses a torn tail.
\<close>

section \<open>The listing\<close>

fun firsts :: "nat \<Rightarrow> LogicalJobEvent list list \<Rightarrow> u64 list" where
  "firsts n [] = []"
| "firsts n (es # ess) = of_nat n # firsts (n + length es) ess"

lemma layout_names: "map fst (layout n ess t) = map SegmentName (firsts n ess)"
  by (induction ess arbitrary: n) auto

lemma firsts_bounds:
  assumes "segments_ok n ess" "f \<in> set (firsts n ess)"
  shows "n \<le> unat f"
  using assms
proof (induction ess arbitrary: n)
  case (Cons es ess)
  then have "f = of_nat n \<or> f \<in> set (firsts (n + length es) ess)" by simp
  then show ?case
  proof
    assume "f = of_nat n"
    then show ?thesis using Cons.prems by (simp add: unat_of_nat_u64)
  next
    assume "f \<in> set (firsts (n + length es) ess)"
    then show ?thesis using Cons.IH[of "n + length es"] Cons.prems by simp
  qed
qed simp

lemma firsts_sorted: "segments_ok n ess \<Longrightarrow> sorted (firsts n ess) \<and> distinct (firsts n ess)"
proof (induction ess arbitrary: n)
  case (Cons es ess)
  have s: "segments_ok (n + length es) ess" "n < 2 ^ 64" "es = [] \<longrightarrow> ess = []" using Cons.prems by auto
  have "of_nat n < f" if "f \<in> set (firsts (n + length es) ess)" for f :: u64
  proof -
    have "ess \<noteq> []" using that by auto
    then have "n < n + length es" using s(3) by simp
    also have "\<dots> \<le> unat f" by (rule firsts_bounds[OF s(1) that])
    finally show ?thesis using s(2) by (simp add: word_less_nat_alt unat_of_nat_u64)
  qed
  then show ?case using Cons.IH[OF s(1)] by fastforce
qed simp

lemma firsts_pos: "segments_ok n ess \<Longrightarrow> f \<in> set (firsts n ess) \<Longrightarrow> f \<noteq> 0"
  using firsts_bounds[of n ess f] segments_ok_bound[of n ess] by auto

lemma layout_member: "name \<in> SegmentName ` set (firsts n ess) \<longleftrightarrow> map_of (layout n ess t) name \<noteq> None"
  using layout_names[of n ess t] by (metis domIff dom_map_of_conv_image_fst image_set list.set_map)

text \<open>What a scan finds in a listing of which no name hides a record.\<close>

lemma scan_segments_spec:
  assumes "\<And>name. parse name = SegmentFirstSequence name"
    "\<And>name. name \<in> set names \<Longrightarrow> segment_shaped name \<Longrightarrow> \<exists>f. f \<noteq> 0 \<and> name = SegmentName f"
  shows "\<exists>ss. scan_segments parse names = Inr ss \<and> map snd ss = filter segment_shaped names
    \<and> (\<forall>(f, name) \<in> set ss. name = SegmentName f \<and> f \<noteq> 0)"
  using assms(2)
proof (induction names)
  case (Cons name names)
  obtain ss where ss: "scan_segments parse names = Inr ss" "map snd ss = filter segment_shaped names"
    "\<forall>(f, name) \<in> set ss. name = SegmentName f \<and> f \<noteq> 0" using Cons by auto
  show ?case
  proof (cases "segment_shaped name")
    case True
    then obtain f where f: "f \<noteq> 0" "name = SegmentName f" using Cons.prems by auto
    then have "parse name = Some f" by (simp add: assms(1) SegmentFirstSequence_iff)
    then show ?thesis using ss f True by auto
  next
    case False
    then have "parse name = None"
      using SegmentFirstSequence_iff[of name] by (metis assms(1) SegmentName_shaped not_None_eq)
    then show ?thesis using ss False by (simp flip: segment_shaped_def)
  qed
qed simp

lemma scan_stored:
  assumes "stored fls d n ess t" "distinct names" "\<forall>x \<in> set names. x = [] \<or> plain_name x"
    "\<forall>x. plain_name x \<longrightarrow> x \<in> set names \<longleftrightarrow> fls (JoinPath d x) \<noteq> None"
    "\<And>name. parse name = SegmentFirstSequence name"
  shows "\<exists>ss. scan_segments parse names = Inr ss
    \<and> sort_key fst ss = map (\<lambda>f. (f, SegmentName f)) (firsts n ess)"
proof -
  have sh: "segment_shaped name \<Longrightarrow> name \<noteq> []" for name
    by (auto simp: segment_shaped_def starts_with_def segment_prefix_def)
  have mem: "x \<in> set names \<and> segment_shaped x \<longleftrightarrow> x \<in> SegmentName ` set (firsts n ess)" for x
  proof (cases "segment_shaped x \<and> plain_name x")
    case True
    then have "fls (JoinPath d x) = map_of (layout n ess t) x" using assms(1) by (simp add: stored_def)
    then show ?thesis using True assms(4) layout_member[of x n ess t] by metis
  next
    case False
    then show ?thesis using assms(3) sh by auto
  qed
  have "\<exists>f. f \<noteq> 0 \<and> x = SegmentName f" if "x \<in> set names" "segment_shaped x" for x
    using that mem firsts_pos assms(1) unfolding stored_def by blast
  then obtain ss where ss: "scan_segments parse names = Inr ss" "map snd ss = filter segment_shaped names"
    "\<forall>(f, name) \<in> set ss. name = SegmentName f \<and> f \<noteq> 0"
    using scan_segments_spec[of parse names] assms(5) by blast
  have pair: "ss = map (\<lambda>f. (f, SegmentName f)) (map fst ss)"
    using ss(3) by (induction ss) auto
  have "map SegmentName (map fst ss) = filter segment_shaped names"
    using ss(2) pair by (metis (no_types, lifting) comp_apply list.map_comp map_eq_conv snd_conv)
  then have f: "filter segment_shaped names = map SegmentName (map fst ss)" by simp
  have "set (filter segment_shaped names) = SegmentName ` set (firsts n ess)" using mem by auto
  then have i: "SegmentName ` set (map fst ss) = SegmentName ` set (firsts n ess)" unfolding f by (simp only: list.set_map)
  have "inj SegmentName" by (simp add: inj_def)
  from inj_image_eq_iff[OF this, THEN iffD1, OF i] have "set (map fst ss) = set (firsts n ess)" .
  moreover have "distinct (map SegmentName (map fst ss))"
    unfolding f[symmetric] using assms(2) by (rule distinct_filter)
  ultimately have d: "distinct (map fst ss)" "set (map fst ss) = set (firsts n ess)"
    by (simp_all only: distinct_map)
  have "map fst (sort_key fst ss) = firsts n ess"
    using d firsts_sorted[of n ess] assms(1)
    by (intro sorted_distinct_set_unique) (auto simp: stored_def distinct_map)
  moreover have "map (\<lambda>x. (fst x, SegmentName (fst x))) (sort_key fst ss) = sort_key fst ss"
    by (rule map_idI) (use ss(3) in auto)
  then have "map (\<lambda>f. (f, SegmentName f)) (map fst (sort_key fst ss)) = sort_key fst ss"
    by (simp add: comp_def)
  ultimately show ?thesis using ss(1) by metis
qed

section \<open>Contents\<close>

lemma segments_ok_split:
  assumes "segments_ok n (bs @ es # cs)"
  shows "segments_ok n (bs @ [es])" "segments_ok (n + length (concat bs)) (es # cs)"
proof -
  show "segments_ok (n + length (concat bs)) (es # cs)"
    using assms
  proof (induction bs arbitrary: n)
    case (Cons b bs)
    then show ?case using Cons.IH[of "n + length b"] by (simp add: add.assoc)
  qed simp
  then have "n + length (concat bs) + length es \<le> 2 ^ 64"
    using segments_ok_bound[of "n + length (concat bs) + length es" cs] by simp
  with assms show "segments_ok n (bs @ [es])"
  proof (induction bs arbitrary: n)
    case (Cons b bs)
    then show ?case using Cons.IH[of "n + length b"] by (auto simp: add.assoc)
  qed simp
qed

lemma stored_segment:
  assumes "stored fls d n (bs @ es # cs) t"
  shows "fls (JoinPath d (SegmentName (of_nat (n + length (concat bs))))) = Some (records es @ (if cs = [] then t else []))"
proof -
  have "segments_ok n (bs @ es # cs)" using assms by (simp add: stored_def)
  from last_segment_fresh[OF segments_ok_split(1)[OF this], of "[]"]
  have "map_of (layout n (bs @ es # cs) t) (SegmentName (of_nat (n + length (concat bs))))
      = Some (records es @ (if cs = [] then t else []))"
    by (simp add: layout_append map_add_def del: of_nat_add)
  then show ?thesis using assms by (simp add: stored_def del: of_nat_add)
qed

lemma firsts_append: "firsts n (bs @ cs) = firsts n bs @ firsts (n + length (concat bs)) cs"
  by (induction bs arbitrary: n) (auto simp: add.assoc)

lemma length_firsts [simp]: "length (firsts n ess) = length ess"
  by (induction ess arbitrary: n) auto

section \<open>The last record\<close>

lemma rfind_last: "c \<notin> set ys \<Longrightarrow> rfind c (xs @ c # ys) = Some (length xs)"
  by (simp add: rfind_def Let_def takeWhile_append2 takeWhile_append)

lemma rfind_none:
  assumes "c \<notin> set ys"
  shows "rfind c ys = None"
proof -
  have t: "takeWhile (\<lambda>d. d \<noteq> c) (rev ys) = rev ys" using assms by (auto simp: takeWhile_eq_all_conv)
  show ?thesis unfolding rfind_def t by simp
qed

lemma records_end: "list_all encodes es \<Longrightarrow> es \<noteq> [] \<Longrightarrow> \<exists>body. records es = body @ [LF]"
proof (induction es)
  case (Cons e es)
  obtain b where "record_of e = b @ [LF]" using Cons.prems by (auto elim: record_line)
  then show ?case using Cons by (cases "es = []") auto
qed simp

lemma line_start_records:
  assumes "list_all encodes es" "LF \<notin> set body"
  shows "line_start (rfind LF (records es @ body)) = length (records es)"
proof (cases "es = []")
  case True
  then show ?thesis using assms(2) by (simp add: rfind_none line_start_def)
next
  case False
  then obtain r where "records es = r @ [LF]" using records_end[OF assms(1)] by blast
  then show ?thesis using rfind_last[OF assms(2), of r] by (simp add: line_start_def)
qed

lemma LastSequence_torn:
  assumes "list_all encodes es" "LF \<notin> set t" "t \<noteq> []"
  shows "\<exists>detail. LastSequence L (records es @ t) = Inl detail"
proof -
  have "last (records es @ t) \<noteq> LF" using assms(2,3) by (metis last_appendR last_in_set)
  then show ?thesis using assms(3) by (simp add: LastSequence_def)
qed

lemma LastSequence_records:
  assumes "list_all encodes es" "es \<noteq> []" "reads_back L (event_doc (last es))"
  shows "LastSequence L (records es) = Inr (Some (lje_sequence (last es)))"
proof -
  obtain xs e where es: "es = xs @ [e]" using assms(2) by (cases es rule: rev_cases) auto
  then have e: "encodes e" "list_all encodes xs" using assms(1) by auto
  obtain body where b: "record_of e = body @ [LF]" "LF \<notin> set body" by (rule record_line[OF e(1)])
  have "drop (line_start (rfind LF (butlast (records es)))) (records es) = record_of e"
    using line_start_records[OF e(2) b(2)] b(1) by (simp add: es butlast_append)
  moreover have "dec_status (DecodeRecord L (record_of e)) = DecodeStatus.kDecoded
      \<and> dec_event (DecodeRecord L (record_of e)) = Some e"
    using DecodeRecord_Emit[OF e(1)] assms(3) es encodes_facts(2)[OF e(1)] by simp
  ultimately show ?thesis using b(1) by (simp add: LastSequence_def Let_def es)
qed

lemma numbered_encodes: "numbered n es \<Longrightarrow> list_all encodes es"
  by (induction es arbitrary: n) auto

lemma numbered_last: "numbered n es \<Longrightarrow> es \<noteq> [] \<Longrightarrow> lje_sequence (last es) = of_nat (n + length es - 1)"
  by (induction es arbitrary: n) auto

section \<open>Opening a directory\<close>

text \<open>The JSON parser reads back the text of every event.\<close>

definition decodable :: "libs \<Rightarrow> LogicalJobEvent list \<Rightarrow> bool" where
  "decodable L es \<longleftrightarrow> (\<forall>e \<in> set es. reads_back L (event_doc e))"

text \<open>What a successful \<^verbatim>\<open>Open\<close> stores in the object.\<close>

definition opened_on :: "SegmentJournal \<Rightarrow> OpenResult \<Rightarrow> string \<Rightarrow> Located \<Rightarrow> FileHandle option \<Rightarrow> bool" where
  "opened_on j res d loc act \<longleftrightarrow> sj_directory j = d \<and> sj_active j = act \<and> sj_active_size j = loc_active_size loc
     \<and> sj_next_sequence j = loc_next loc \<and> sj_opened j \<and> or_next_sequence res = loc_next loc"

context append_store
begin

lemma LocateEmpty_effect:
  assumes "LocateEmpty L fs d segs w = (Inr loc, w')" "loc_error loc = []" "last segs = (f, name)" "ok w"
  shows "ok w' \<and> files w' = files w \<and> open_path w' = open_path w
    \<and> loc = \<lparr>loc_error = [], loc_next = f, loc_active = name, loc_active_size = 0\<rparr>"
proof -
  obtain rr w1 where r: "ReadAll fs (JoinPath d (snd (segs ! (length segs - 2)))) w = (rr, w1)" by fastforce
  note law = ReadAll_law[OF r assms(4)]
  show ?thesis
    using assms r law
    by (auto simp: LocateEmpty_def Let_def unlocated_def split: if_splits sum.splits option.splits)
qed

lemma listed_segments:
  assumes "FileSystem.List fs d w = (Inr (Inr names), w')" "ok w" "stored (files w) d n ess t"
    "\<And>name. parse name = SegmentFirstSequence name"
  shows "\<exists>ss. scan_segments parse names = Inr ss \<and> sort_key fst ss = map (\<lambda>f. (f, SegmentName f)) (firsts n ess)"
  using scan_stored[OF assms(3), of names parse] List_law[OF assms(1,2)] assms(4) by simp

text \<open>\<^verbatim>\<open>Locate\<close> on the segments \<open>bs @ [es]\<close>: what it returns without an error.\<close>

lemma LocateActive_effect:
  assumes "LocateActive L fs limit d segs (records es @ t) w = (Inr loc, w')" "loc_error loc = []" "ok w"
    "last segs = (of_nat m, name)" "numbered m es" "LF \<notin> set t" "decodable L es"
  shows "ok w' \<and> files w' = files w \<and> open_path w' = open_path w \<and> t = [] \<and> loc_next loc = of_nat (m + length es)
    \<and> (loc_active loc = [] \<and> es \<noteq> [] \<or> loc_active loc = name \<and> loc_active_size loc = of_nat (length (records es)))"
proof -
  note enc = numbered_encodes[OF assms(5)]
  have t: "t = []"
  proof (rule ccontr)
    assume "t \<noteq> []"
    with LastSequence_torn[OF enc assms(6)] obtain x where "LastSequence L (records es @ t) = Inl x" by blast
    then show False using assms(1,2,4) by (auto simp: LocateActive_def unlocated_def)
  qed
  show ?thesis
  proof (cases "es = []")
    case True
    then have "LocateEmpty L fs d segs w = (Inr loc, w')"
      using assms(1,4) t by (simp add: LocateActive_def LastSequence_def)
    from LocateEmpty_effect[OF this assms(2,4,3)] True t show ?thesis by simp
  next
    case False
    then have "LastSequence L (records es) = Inr (Some (of_nat (m + length es - 1)))"
      using LastSequence_records[OF enc False] numbered_last[OF assms(5) False] assms(7) by (simp add: decodable_def)
    moreover have "(of_nat (m + length es - 1) :: u64) + 1 = of_nat (m + length es)"
      using False by (metis add_gr_0 length_greater_0_conv of_nat_1 of_nat_add Suc_pred' add.commute plus_1_eq_Suc)
    ultimately show ?thesis
      using assms(1-4) t False by (auto simp: LocateActive_def unlocated_def split: if_splits)
  qed
qed

lemma Locate_effect:
  assumes "Locate L fs limit d w = (Inr loc, w')" "loc_error loc = []" "ok w"
    "stored (files w) d n (bs @ [es]) t" "decodable L es"
  shows "ok w' \<and> files w' = files w \<and> open_path w' = open_path w \<and> t = []
    \<and> loc_next loc = of_nat (n + length (concat bs) + length es)
    \<and> (loc_active loc = [] \<and> es \<noteq> [] \<or> loc_active loc = SegmentName (of_nat (n + length (concat bs)))
      \<and> loc_active_size loc = of_nat (length (records es)))"
proof -
  let ?f = "of_nat (n + length (concat bs)) :: u64"
  obtain rl w1 where l: "FileSystem.List fs d w = (rl, w1)" by fastforce
  obtain names where names: "rl = Inr (Inr names)"
    using assms(1,2) by (auto simp: Locate_def l unlocated_def split: sum.splits)
  note w1 = List_law[OF l assms(3)]
  obtain ss where ss: "scan_segments SegmentFirstSequence names = Inr ss"
    "sort_key fst ss = map (\<lambda>f. (f, SegmentName f)) (firsts n (bs @ [es]))"
    using listed_segments[OF l[unfolded names] assms(3,4)] by blast
  have la: "last (sort_key fst ss) = (?f, SegmentName ?f)" "ss \<noteq> []"
    using ss(2) by (auto simp: firsts_append)
  obtain rr w2 where rd: "ReadAll fs (JoinPath d (SegmentName ?f)) w1 = (rr, w2)" by fastforce
  obtain content where c: "rr = Inr (Inr content)" "LocateActive L fs limit d (sort_key fst ss) content w2 = (Inr loc, w')"
    using assms(1,2) la rd by (auto simp: Locate_def l names ss(1) Let_def unlocated_def split: sum.splits)
  have w2: "ok w2" "files w2 = files w" "open_path w2 = open_path w" "content = records es @ t"
    using ReadAll_law[OF rd] w1 c(1) stored_segment[of "files w" d n bs es "[]" t] assms(4) by auto
  have "numbered (n + length (concat bs)) es" "LF \<notin> set t"
    using assms(4) by (simp_all add: stored_def segments_ok_snoc)
  from LocateActive_effect[OF c(2)[unfolded w2(4)] assms(2) w2(1) la(1) this assms(5)] w2 show ?thesis by simp
qed

lemma Locate_fresh:
  assumes "Locate L fs limit d w = (Inr loc, w')" "loc_error loc = []" "ok w" "stored (files w) d n [] t"
  shows "ok w' \<and> files w' = files w \<and> open_path w' = open_path w \<and> loc_next loc = 1 \<and> loc_active loc = []"
proof -
  obtain rl w1 where l: "FileSystem.List fs d w = (rl, w1)" by fastforce
  obtain names where names: "rl = Inr (Inr names)"
    using assms(1,2) by (auto simp: Locate_def l unlocated_def split: sum.splits)
  obtain ss where ss: "scan_segments SegmentFirstSequence names = Inr ss" "sort_key fst ss = []"
    using listed_segments[OF l[unfolded names] assms(3,4)] by auto
  have "ss = []" using ss(2) by (metis length_0_conv length_sort)
  then show ?thesis using assms(1) List_law[OF l assms(3)] by (auto simp: Locate_def l names ss(1))
qed

lemma LocateActive_keeps:
  assumes "LocateActive L fs limit d segs c w = (x, w')" "ok w"
  shows "ok w' \<and> files w' = files w \<and> open_path w' = open_path w"
proof -
  obtain rr w1 where r: "ReadAll fs (JoinPath d (snd (segs ! (length segs - 2)))) w = (rr, w1)" by fastforce
  note law = ReadAll_law[OF r assms(2)]
  obtain f name where l: "last segs = (f, name)" by fastforce
  have e: "LocateEmpty L fs d segs w = (x, w') \<Longrightarrow> ok w' \<and> files w' = files w \<and> open_path w' = open_path w"
    using law assms(2) by (auto simp: LocateEmpty_def l r Let_def split: if_splits sum.splits option.splits)
  show ?thesis
    using assms e by (auto simp: LocateActive_def l split: sum.splits option.splits)
qed

lemma Locate_keeps:
  assumes "Locate L fs limit d w = (x, w')" "ok w"
  shows "ok w' \<and> files w' = files w \<and> open_path w' = open_path w"
proof -
  obtain rl w1 where l: "FileSystem.List fs d w = (rl, w1)" by fastforce
  note w1 = List_law[OF l assms(2)]
  show ?thesis
  proof (cases "\<exists>names ss. rl = Inr (Inr names) \<and> scan_segments SegmentFirstSequence names = Inr ss \<and> ss \<noteq> []")
    case False
    then show ?thesis using assms(1) w1 by (auto simp: Locate_def l split: sum.splits if_splits)
  next
    case True
    then obtain names ss where n: "rl = Inr (Inr names)" "scan_segments SegmentFirstSequence names = Inr ss" "ss \<noteq> []"
      by blast
    obtain rr w2 where r: "ReadAll fs (JoinPath d (snd (last (sort_key fst ss)))) w1 = (rr, w2)" by fastforce
    show ?thesis
      using assms(1) w1 n ReadAll_law[OF r] LocateActive_keeps[of L limit d _ _ w2 x w']
      by (auto simp: Locate_def l r Let_def split: sum.splits)
  qed
qed

text \<open>The lock file is no segment.\<close>

lemma stored_cong:
  "(\<And>name. segment_shaped name \<Longrightarrow> plain_name name \<Longrightarrow> f (JoinPath d name) = g (JoinPath d name)) \<Longrightarrow>
   stored f d n ess t = stored g d n ess t"
  by (auto simp: stored_def)

lemma lock_no_segment: "segment_shaped name \<Longrightarrow> plain_name name \<Longrightarrow> JoinPath d name \<noteq> JoinPath d lock_name"
proof -
  have "plain_name lock_name" "\<not> segment_shaped lock_name" by code_simp+
  then show "segment_shaped name \<Longrightarrow> plain_name name \<Longrightarrow> JoinPath d name \<noteq> JoinPath d lock_name"
    using JoinPath_inject by metis
qed

lemma OpenHolding_effect:
  assumes "OpenHolding L fs d lock j w = (x, j', w')" "ok w"
  shows "ok w'" "files w' = files w"
    "\<nexists>res. x = Inr res \<and> or_ok res \<Longrightarrow> j' = j \<and> open_path w' = (open_path w)(lock := None)"
    "x = Inr res \<Longrightarrow> or_ok res \<Longrightarrow> sj_poisoned j' = sj_poisoned j \<and> (\<exists>loc w1 act.
      Locate L fs (sj_segment_limit_bytes j) d w = (Inr loc, w1) \<and> loc_error loc = [] \<and> opened_on j' res d loc act
      \<and> (loc_active loc = [] \<and> act = None \<or> loc_active loc \<noteq> []
        \<and> (\<exists>h. act = Some h \<and> open_path w' h = Some (JoinPath d (loc_active loc)))))"
proof -
  obtain xl w1 where l: "Locate L fs (sj_segment_limit_bytes j) d w = (xl, w1)" by fastforce
  note w1 = Locate_keeps[OF l assms(2)]
  obtain loc where loc: "xl = Inr loc \<or> (\<exists>y. xl = Inl y)" by (cases xl) auto
  obtain xo w2 where o: "OpenAppend fs (JoinPath d (loc_active loc)) False w1 = (xo, w2)" by fastforce
  note law = OpenAppend_law[OF o] Close_law[OF refl]
  have "ok w' \<and> files w' = files w
    \<and> ((\<nexists>res. x = Inr res \<and> or_ok res) \<longrightarrow> j' = j \<and> open_path w' = (open_path w)(lock := None))
    \<and> (\<forall>res. x = Inr res \<longrightarrow> or_ok res \<longrightarrow> sj_poisoned j' = sj_poisoned j
      \<and> xl = Inr loc \<and> loc_error loc = [] \<and> (\<exists>act. opened_on j' res d loc act
      \<and> (loc_active loc = [] \<and> act = None \<or> loc_active loc \<noteq> []
        \<and> (\<exists>h. act = Some h \<and> open_path w' h = Some (JoinPath d (loc_active loc))))))"
  proof (cases "xl = Inr loc \<and> loc_error loc = [] \<and> loc_active loc \<noteq> []")
    case False
    then show ?thesis
      using assms(1) loc w1 Close_law[OF refl, of w1 lock]
      by (auto simp: OpenHolding_def l refused_def adopt_def opened_on_def split: if_splits)
  next
    case True
    then show ?thesis
      using assms(1) w1 OpenAppend_law[OF o] Close_law[OF refl, of w2 lock]
      by (auto simp: OpenHolding_def l o refused_def adopt_def opened_on_def split: sum.splits)
  qed
  with l show "ok w'" "files w' = files w"
    "\<nexists>res. x = Inr res \<and> or_ok res \<Longrightarrow> j' = j \<and> open_path w' = (open_path w)(lock := None)"
    "x = Inr res \<Longrightarrow> or_ok res \<Longrightarrow> sj_poisoned j' = sj_poisoned j \<and> (\<exists>loc w1 act.
      Locate L fs (sj_segment_limit_bytes j) d w = (Inr loc, w1) \<and> loc_error loc = [] \<and> opened_on j' res d loc act
      \<and> (loc_active loc = [] \<and> act = None \<or> loc_active loc \<noteq> []
        \<and> (\<exists>h. act = Some h \<and> open_path w' h = Some (JoinPath d (loc_active loc)))))"
    by blast+
qed

text \<open>\<^verbatim>\<open>Open\<close> either stops before it holds the lock, or runs \<open>OpenHolding\<close>.\<close>

lemma Open_cases:
  assumes "Open L fs d j w = (res, j', w')" "ok w"
  shows "ok w'" "\<forall>name. segment_shaped name \<and> plain_name name \<longrightarrow> files w' (JoinPath d name) = files w (JoinPath d name)"
    "\<not> or_ok res \<Longrightarrow> j' = j \<and> open_path w' = open_path w"
    "or_ok res \<Longrightarrow> \<exists>lock w3. OpenHolding L fs d lock j w3 = (Inr res, j', w') \<and> ok w3
      \<and> (\<forall>name. segment_shaped name \<and> plain_name name \<longrightarrow> files w3 (JoinPath d name) = files w (JoinPath d name))"
proof -
  let ?same = "\<lambda>u. \<forall>name. segment_shaped name \<and> plain_name name \<longrightarrow> files u (JoinPath d name) = files w (JoinPath d name)"
  obtain x1 w1 where e: "EnsureDirectory fs d w = (x1, w1)" by fastforce
  obtain x2 w2 where s: "SyncDirectory fs (ParentDirectory d) w1 = (x2, w2)" by fastforce
  obtain x3 w3 where k: "Lock fs (JoinPath d lock_name) w2 = (x3, w3)" by fastforce
  note w1 = EnsureDirectory_law[OF e assms(2)]
  note w2 = SyncDirectory_law[OF s] and lw = Lock_law[OF k]
  have w2': "ok w2 \<and> files w2 = files w \<and> open_path w2 = open_path w" using w1 w2 by simp
  have w3: "ok w3" "?same w3" using lw w2' lock_no_segment by auto
  have "ok w' \<and> ?same w' \<and> (\<not> or_ok res \<longrightarrow> j' = j \<and> open_path w' = open_path w)
    \<and> (or_ok res \<longrightarrow> (\<exists>lock. OpenHolding L fs d lock j w3 = (Inr res, j', w')))"
  proof (cases "\<not> (sj_opened j \<or> sj_lock j \<noteq> None) \<and> x1 = Inr IoError.kNone \<and> x2 = IoError.kNone \<and> (\<exists>h. x3 = Inr (Inr h))")
    case False
    then show ?thesis
      using assms w1 w2' w3 lw
      by (auto simp: Open_def OpenLocked_def e s k refused_def split: if_splits sum.splits exn.splits)
  next
    case True
    then obtain h where h: "x3 = Inr (Inr h)" by blast
    obtain x j1 u where o: "OpenHolding L fs d h j w3 = (x, j1, u)" by (metis prod_cases3)
    have "open_path w h = None" "open_path w3 = (open_path w)(h \<mapsto> JoinPath d lock_name)" using lw h w2' by auto
    then have c: "(open_path w3)(h := None) = open_path w" by auto
    note oh = OpenHolding_effect[OF o w3(1)]
    have "w' = u" "j' = j1" "case x of Inl _ \<Rightarrow> \<not> or_ok res | Inr r \<Rightarrow> res = r"
      using assms(1) True
      by (auto simp: Open_def OpenLocked_def e s k h o refused_def split: sum.splits exn.splits)
    then show ?thesis using oh(1-3) w3(2) c o by (auto split: sum.splits)
  qed
  with w3 show "ok w'" "?same w'" "\<not> or_ok res \<Longrightarrow> j' = j \<and> open_path w' = open_path w"
    "or_ok res \<Longrightarrow> \<exists>lock w3. OpenHolding L fs d lock j w3 = (Inr res, j', w') \<and> ok w3 \<and> ?same w3"
    by blast+
qed

lemma Open_journal_at:
  assumes "Open L fs d j w = (res, j', w')" "or_ok res" "ok w" "stored (files w) d n ess t" "decodable L (concat ess)"
    "ess = [] \<longrightarrow> n = 1 \<and> t = []"
  shows "t = [] \<and> journal_at files open_path j' w' n ess \<and> sj_opened j' \<and> sj_poisoned j' = sj_poisoned j
    \<and> or_next_sequence res = of_nat (n + length (concat ess))"
proof -
  obtain lock w3 where h: "OpenHolding L fs d lock j w3 = (Inr res, j', w')" "ok w3"
    "\<forall>name. segment_shaped name \<and> plain_name name \<longrightarrow> files w3 (JoinPath d name) = files w (JoinPath d name)"
    using Open_cases(4)[OF assms(1,3,2)] by blast
  have st: "stored (files w3) d n ess t" using stored_cong[of "files w3" d "files w" n ess t] h(3) assms(4) by simp
  obtain loc w1 act where l: "Locate L fs (sj_segment_limit_bytes j) d w3 = (Inr loc, w1)" "loc_error loc = []"
    "opened_on j' res d loc act" "loc_active loc = [] \<and> act = None \<or> loc_active loc \<noteq> []
        \<and> (\<exists>h. act = Some h \<and> open_path w' h = Some (JoinPath d (loc_active loc)))"
    "sj_poisoned j' = sj_poisoned j"
    using OpenHolding_effect(4)[OF h(1,2) refl assms(2)] by blast
  have fl: "files w' = files w3" using OpenHolding_effect(2)[OF h(1,2)] .
  show ?thesis
  proof (cases ess rule: rev_cases)
    case Nil
    then show ?thesis
      using Locate_fresh[OF l(1,2) h(2)] st l(3-5) assms(6) fl by (auto simp: journal_at_def opened_on_def)
  next
    case (snoc bs es)
    then have "decodable L es" using assms(5) by (simp add: decodable_def)
    note k = Locate_effect[OF l(1,2) h(2) st[unfolded snoc] this]
    have content: "files w' (JoinPath d (SegmentName (of_nat (n + length (concat bs))))) = Some (records es)"
      using stored_segment[of "files w3" d n bs es "[]" t] st snoc fl k by simp
    have "SegmentName m \<noteq> []" for m by (simp add: SegmentName_padded segment_prefix_def)
    then have "if sj_active j' = None then es \<noteq> [] else active_at files open_path j' w'
        (JoinPath d (SegmentName (of_nat (n + length (concat bs))))) (records es)"
      using l(3,4) k content by (auto simp: opened_on_def active_at_def)
    then show ?thesis using st snoc k l(3,5) fl by (simp add: journal_at_def opened_on_def add.assoc split: if_splits)
  qed
qed

end

section \<open>What the journal promises across restarts\<close>

text \<open>
  C3. A commit is atomic. Let a directory hold the events \<open>concat ess\<close>, and the object be open on them.
  After a committed result the directory holds these events and the new one; after a definite failure
  it holds these events; after an unknown outcome it holds these events and the new one, or these
  events and a torn part of the new record, which has no line feed. No other events appear, and the
  object stays open on what a committed result left.
\<close>

theorem commit_is_atomic:
  assumes "append_store fs files open_path ok" "ok w" "journal_at files open_path j w n ess"
    "Commit fs mutex_ok e j w = Some (r, j', w')"
  shows "\<exists>ess' t. stored (files w') (sj_directory j) n ess' t \<and>
    (case r of
       LogicalCommitResult.kCommitted \<Rightarrow> t = [] \<and> concat ess' = concat ess @ [e] \<and> journal_at files open_path j' w' n ess'
     | LogicalCommitResult.kDefiniteFailure \<Rightarrow> t = [] \<and> concat ess' = concat ess
     | LogicalCommitResult.kOutcomeUnknown \<Rightarrow> t = [] \<and> concat ess' = concat ess @ [e]
         \<or> concat ess' = concat ess \<and> t \<noteq> [] \<and> (\<exists>u. u \<noteq> [] \<and> record_of e = t @ u))"
  by (rule append_store.Commit_stored[OF assms(1,4,2,3)])

text \<open>
  C6. Opening resumes the journal. On a directory that holds the events \<open>concat ess\<close>, a successful
  \<^verbatim>\<open>Open\<close> leaves the object on exactly these events, with the number of the next one, and there was no
  torn tail. A refused \<^verbatim>\<open>Open\<close> leaves the object as it was and every handle closed. Neither changes a
  segment.
\<close>

theorem open_resumes:
  assumes "append_store fs files open_path ok" "ok w" "stored (files w) d n ess t" "decodable L (concat ess)"
    "ess = [] \<longrightarrow> n = 1 \<and> t = []" "Open L fs d j w = (res, j', w')"
  shows "ok w' \<and> stored (files w') d n ess t \<and>
    (if or_ok res then t = [] \<and> journal_at files open_path j' w' n ess \<and> sj_opened j'
       \<and> Poisoned j' = Poisoned j \<and> or_next_sequence res = of_nat (n + length (concat ess))
     else j' = j \<and> open_path w' = open_path w)"
proof -
  note oc = append_store.Open_cases[OF assms(1,6,2)]
  have "stored (files w') d n ess t"
    using append_store.stored_cong[OF assms(1), of "files w'" d "files w" n ess t] oc(2) assms(3) by simp
  then show ?thesis
    using append_store.Open_journal_at[OF assms(1,6) _ assms(2-5)] oc(1,3) by (auto simp: Poisoned_def)
qed

section \<open>Witnesses\<close>

lemma fresh_journal: "stored (mem_files empty_memory) d 1 [] []" "journal_at mem_files mem_open sample_journal empty_memory 1 []"
  by (simp_all add: stored_def journal_at_def sample_state sample_journal_def new_SegmentJournal_def)

theorem commit_is_atomic_witness:
  "journal_at mem_files mem_open sample_journal empty_memory 1 []
   \<and> (\<exists>j' w' ess'. Commit memory_fs True sample_event sample_journal empty_memory
        = Some (LogicalCommitResult.kCommitted, j', w')
      \<and> concat ess' = [sample_event] \<and> journal_at mem_files mem_open j' w' 1 ess')"
proof -
  obtain j' w' where c: "Commit memory_fs True sample_event sample_journal empty_memory
      = Some (LogicalCommitResult.kCommitted, j', w')"
    using commit_healthy[OF sample_state(1-3) sample_event_encodes sample_state(6,7)] by blast
  from commit_is_atomic[OF mem.append_store_axioms sample_state(4) fresh_journal(2) c] c fresh_journal(2)
  show ?thesis by auto
qed

theorem open_resumes_witness:
  "\<exists>res j' w'. Open sample_libs memory_fs ''j'' (new_SegmentJournal 9) empty_memory = (res, j', w')
   \<and> or_ok res \<and> journal_at mem_files mem_open j' w' 1 [] \<and> or_next_sequence res = 1"
proof -
  obtain res j' w' where o: "Open sample_libs memory_fs ''j'' (new_SegmentJournal 9) empty_memory = (res, j', w')"
    by (metis prod_cases3)
  have "or_ok (fst (Open sample_libs memory_fs ''j'' (new_SegmentJournal 9) empty_memory))" by code_simp
  then have "or_ok res" by (simp add: o)
  with open_resumes[OF mem.append_store_axioms sample_state(4) fresh_journal(1) _ _ o] o
  show ?thesis by (auto simp: decodable_def)
qed

end
