(* ===== verification/Replay.thy ===== *)
theory Replay
  imports Journal_Open Retirement
begin

text \<open>
  Startup validation and replay of a journal (\<^verbatim>\<open>src/journal/replay.cpp\<close>). The class \<^verbatim>\<open>Replayer\<close> is a
  record of its members; every method takes and returns it, and an exception, which
  \<^verbatim>\<open>ReplayJournal\<close> catches, is \<open>Inl\<close>. The expression \<^verbatim>\<open>json::parse(bytes).at("payload").dump()\<close> of the
  JSON library is the parameter \<open>P\<close>: the text of the payload, or the exception.
\<close>

section \<open>One record\<close>

definition PayloadJson :: "(string \<Rightarrow> exn + string) \<Rightarrow> LogicalJobEvent \<Rightarrow> exn + string" where
  "PayloadJson P record =
     (let encoded = EncodeRecord record
      in if enc_status encoded \<noteq> EncodeStatus.kEncoded then Inr [] else P (enc_bytes encoded))"

definition Derive :: "libs \<Rightarrow> (string \<Rightarrow> exn + string) \<Rightarrow> Snapshot \<Rightarrow> LogicalJobEvent \<Rightarrow> exn + Decision" where
  "Derive L P before e =
     (case lje_event_type e of
        EventType.kCancelAccepted \<Rightarrow>
          Inr (DecideCommand before
                 \<lparr>cmd_schema_version = lje_schema_version e, cmd_command_type = CommandType.kCancel,
                  cmd_job_id = lje_job_id e,
                  cmd_principal_subject = (case lje_payload e of PrincipalPayload s \<Rightarrow> s | _ \<Rightarrow> [])\<rparr>)
      | EventType.kTerminateAccepted \<Rightarrow>
          Inr (DecideCommand before
                 \<lparr>cmd_schema_version = lje_schema_version e, cmd_command_type = CommandType.kTerminate,
                  cmd_job_id = lje_job_id e,
                  cmd_principal_subject = (case lje_payload e of PrincipalPayload s \<Rightarrow> s | _ \<Rightarrow> [])\<rparr>)
      | t \<Rightarrow>
          if t = EventType.kTimeoutExpired \<or> t = EventType.kLateWorkerEvent then
            Inr (DecideEvent L before
                   \<lparr>ie_schema_version = lje_schema_version e, ie_job_id = lje_job_id e,
                    ie_event_type = t, ie_payload = lje_payload e\<rparr>)
          else
            (case PayloadJson P e of
               Inl x \<Rightarrow> Inl x
             | Inr text \<Rightarrow>
                 (case NormalizeCandidate L before
                         \<lparr>raw_schema_version = lje_schema_version e, raw_job_id = lje_job_id e,
                          raw_event_type = EventType_ToString t, raw_payload_json = text\<rparr> of
                    Inl rejection \<Rightarrow> Inr (Inl rejection)
                  | Inr event \<Rightarrow> Inr (DecideEvent L before event))))"

text \<open>The current snapshot of the Job before its record, or the error.\<close>

definition current_snapshot :: "Snapshot option \<Rightarrow> LogicalJobEvent \<Rightarrow> string + Snapshot" where
  "current_snapshot before e =
     (if lje_event_type e = EventType.kJobCreated then
        (case before of
           Some s \<Rightarrow>
             if entity_exists s then Inl ''job_created for an existing Job''
             else Inr (InitialSnapshot (lje_job_id e)
                         (case lje_payload e of JobCreatedPayload sid \<Rightarrow> sid | _ \<Rightarrow> lje_job_id e))
         | None \<Rightarrow> Inr (InitialSnapshot (lje_job_id e)
                         (case lje_payload e of JobCreatedPayload sid \<Rightarrow> sid | _ \<Rightarrow> lje_job_id e)))
      else
        (case before of
           Some s \<Rightarrow> if entity_exists s then Inr s else Inl ''record for a Job that was never created''
         | None \<Rightarrow> Inl ''record for a Job that was never created''))"

definition ReplayRecord ::
  "libs \<Rightarrow> (string \<Rightarrow> exn + string) \<Rightarrow> Snapshot option \<Rightarrow> LogicalJobEvent \<Rightarrow> exn + (string + Snapshot)" where
  "ReplayRecord L P before e =
     (case current_snapshot before e of
        Inl error \<Rightarrow> Inr (Inl error)
      | Inr current \<Rightarrow>
          (case Derive L P current e of
             Inl x \<Rightarrow> Inl x
           | Inr (Inl rejection) \<Rightarrow> Inr (Inl ''the reducer rejects the record'')
           | Inr (Inr p) \<Rightarrow>
               (let derived = EncodeRecord
                      \<lparr>lje_schema_version = pp_schema_version p, lje_sequence = lje_sequence e,
                       lje_event_type = pp_event_type p, lje_recorded_at = lje_recorded_at e,
                       lje_job_id = pp_job_id p, lje_payload = pp_payload p\<rparr>;
                    own = EncodeRecord e
                in if enc_status derived \<noteq> EncodeStatus.kEncoded \<or> enc_status own \<noteq> EncodeStatus.kEncoded
                      \<or> enc_bytes derived \<noteq> enc_bytes own
                   then Inr (Inl ''the reducer derives a different record'')
                   else let applied = Apply L current p
                        in if ar_rejection applied \<noteq> None
                           then Inr (Inl ''the reducer rejects applying the record'')
                           else Inr (Inr (ar_snapshot applied)))))"

section \<open>The replayer\<close>

datatype ReplayStatus =
  kReplayed | kTornTail | kCorrupt | kCapacityExceeded | kSequenceExhausted | kUnreadable

record ReplayedSegment =
  rs_name :: string
  rs_first :: u64
  rs_records :: u64

record JobSegmentSpan =
  first_segment :: nat
  last_segment :: nat

record ReplayResult =
  rr_status :: ReplayStatus
  rr_detail :: string
  rr_next_sequence :: u64
  rr_records :: u64
  rr_jobs :: "Snapshot list"
  rr_created_sequences :: "u64 list"
  rr_unresolved :: "Uuid list"
  rr_segments :: "ReplayedSegment list"
  rr_spans :: "JobSegmentSpan list"
  rr_torn_segment :: string
  rr_torn_offset :: u64

record Replayer =
  rp_result :: ReplayResult
  rp_index_of :: "(string \<times> nat) list"
  rp_expected :: u64
  rp_last :: u64

definition new_Replayer :: Replayer where
  "new_Replayer =
     \<lparr>rp_result = \<lparr>rr_status = ReplayStatus.kCorrupt, rr_detail = [], rr_next_sequence = 0, rr_records = 0,
        rr_jobs = [], rr_created_sequences = [], rr_unresolved = [], rr_segments = [], rr_spans = [],
        rr_torn_segment = [], rr_torn_offset = 0\<rparr>,
      rp_index_of = [], rp_expected = 1, rp_last = 0\<rparr>"

definition Location :: "string \<Rightarrow> u64 \<Rightarrow> string" where
  "Location segment sequence = '' at '' @ segment @ '' sequence '' @ to_string sequence"

text \<open>
  A step of the replayer: \<open>Inl\<close> an exception, \<open>Inr (Some r)\<close> the refusal \<open>r\<close>, \<open>Inr None\<close> to go on.
\<close>

type_synonym replayed = "(exn + ReplayResult option) \<times> Replayer"

definition Refuse :: "ReplayStatus \<Rightarrow> string \<Rightarrow> Replayer \<Rightarrow> ReplayResult \<times> Replayer" where
  "Refuse status detail st =
     (let r = (rp_result st)\<lparr>rr_status := status, rr_detail := detail, rr_jobs := [],
                rr_created_sequences := [], rr_unresolved := [], rr_segments := [], rr_spans := []\<rparr>
      in (r, st\<lparr>rp_result := r\<rparr>))"

definition refuse :: "ReplayStatus \<Rightarrow> string \<Rightarrow> Replayer \<Rightarrow> replayed" where
  "refuse status detail st = (case Refuse status detail st of (r, st1) \<Rightarrow> (Inr (Some r), st1))"

definition TornTail :: "string \<Rightarrow> nat \<Rightarrow> Replayer \<Rightarrow> replayed" where
  "TornTail name offset st =
     refuse ReplayStatus.kTornTail (''journal_torn_tail: '' @ name @ '' at byte '' @ dec offset)
       (st\<lparr>rp_result := (rp_result st)\<lparr>rr_torn_segment := name, rr_torn_offset := of_nat offset\<rparr>\<rparr>)"

text \<open>\<^verbatim>\<open>std::string::find\<close> of a character from a position.\<close>

definition find_from :: "char \<Rightarrow> string \<Rightarrow> nat \<Rightarrow> nat option" where
  "find_from c s position =
     (let n = length (takeWhile (\<lambda>d. d \<noteq> c) (drop position s))
      in if position + n < length s then Some (position + n) else None)"

definition AfterExhaustion :: "string \<Rightarrow> bool \<Rightarrow> string \<Rightarrow> nat \<Rightarrow> Replayer \<Rightarrow> replayed" where
  "AfterExhaustion name highest content offset st =
     (if offset = length content \<and> highest
      then refuse ReplayStatus.kSequenceExhausted
             (''journal_sequence_exhausted'' @ Location name (rp_last st)) st
      else if highest \<and> find_from LF content offset = None then TornTail name offset st
      else refuse ReplayStatus.kCorrupt
             (''journal_corrupt: record after UINT64_MAX in '' @ name @ '' at byte '' @ dec offset) st)"

text \<open>\<open>erase_at\<close>: \<^verbatim>\<open>v.erase(v.begin() + i)\<close>; \<open>try_emplace\<close>: an insertion that keeps an entry of the key.\<close>

definition erase_at :: "nat \<Rightarrow> 'a list \<Rightarrow> 'a list" where
  "erase_at i xs = take i xs @ drop (i + 1) xs"

definition try_emplace :: "string \<Rightarrow> nat \<Rightarrow> (string \<times> nat) list \<Rightarrow> (string \<times> nat) list" where
  "try_emplace key i m = (if map_of m key = None then (key, i) # m else m)"

text \<open>The eviction of the oldest closed Job when the capacity is reached, or \<open>None\<close> when every Job is open.\<close>

definition evict :: "Replayer \<Rightarrow> Replayer option" where
  "evict st =
     (let r = rp_result st in
      case OldestClosed (length (rr_jobs r)) (\<lambda>i. Some (rr_jobs r ! i)) (\<lambda>i. rr_created_sequences r ! i) of
        None \<Rightarrow> None
      | Some victim \<Rightarrow>
          Some (st\<lparr>rp_index_of :=
                    map (\<lambda>(k, i). (k, if i > victim then i - 1 else i))
                      (filter (\<lambda>(k, _). k \<noteq> uuid_value (job_id (rr_jobs r ! victim))) (rp_index_of st)),
                  rp_result := r\<lparr>rr_jobs := erase_at victim (rr_jobs r),
                    rr_spans := erase_at victim (rr_spans r),
                    rr_created_sequences := erase_at victim (rr_created_sequences r)\<rparr>\<rparr>))"

definition add_job :: "LogicalJobEvent \<Rightarrow> Snapshot \<Rightarrow> nat \<Rightarrow> Replayer \<Rightarrow> Replayer" where
  "add_job e after segment_index st =
     (let r = rp_result st in
      st\<lparr>rp_index_of := try_emplace (uuid_value (lje_job_id e)) (length (rr_jobs r)) (rp_index_of st),
         rp_result := r\<lparr>rr_jobs := rr_jobs r @ [after],
           rr_created_sequences := rr_created_sequences r @ [lje_sequence e],
           rr_spans := rr_spans r @ [\<lparr>first_segment = segment_index, last_segment = segment_index\<rparr>]\<rparr>\<rparr>)"

definition update_job :: "nat \<Rightarrow> Snapshot \<Rightarrow> nat \<Rightarrow> Replayer \<Rightarrow> Replayer" where
  "update_job i after segment_index st =
     (let r = rp_result st in
      st\<lparr>rp_result := r\<lparr>rr_jobs := (rr_jobs r)[i := after],
           rr_spans := (rr_spans r)[i := (rr_spans r ! i)\<lparr>last_segment := segment_index\<rparr>]\<rparr>\<rparr>)"

text \<open>The end of \<^verbatim>\<open>ReplayLine\<close>: the counters.\<close>

definition count_record :: "LogicalJobEvent \<Rightarrow> Replayer \<Rightarrow> Replayer" where
  "count_record e st =
     (let r = rp_result st; segs = rr_segments r
      in st\<lparr>rp_last := lje_sequence e,
            rp_result := r\<lparr>rr_records := rr_records r + 1,
              rr_segments := butlast segs @ [(last segs)\<lparr>rs_records := rs_records (last segs) + 1\<rparr>]\<rparr>,
            rp_expected := (if lje_sequence e \<noteq> UINT64_MAX then lje_sequence e + 1 else rp_expected st)\<rparr>)"

text \<open>\<^verbatim>\<open>ReplayLine\<close> once the record was decoded.\<close>

definition ReplayEvent ::
  "libs \<Rightarrow> (string \<Rightarrow> exn + string) \<Rightarrow> nat \<Rightarrow> string \<Rightarrow> LogicalJobEvent \<Rightarrow> Replayer \<Rightarrow> replayed" where
  "ReplayEvent L P max_jobs name e st =
     (if lje_sequence e \<noteq> rp_expected st
      then refuse ReplayStatus.kCorrupt (''journal_corrupt: expected sequence '' @ to_string (rp_expected st)
             @ Location name (lje_sequence e)) st
      else
        (let found = map_of (rp_index_of st) (uuid_value (lje_job_id e));
             before = map_option (\<lambda>i. rr_jobs (rp_result st) ! i) found
         in case ReplayRecord L P before e of
              Inl x \<Rightarrow> (Inl x, st)
            | Inr (Inl why) \<Rightarrow>
                refuse ReplayStatus.kCorrupt (''journal_corrupt: '' @ why @ Location name (lje_sequence e)) st
            | Inr (Inr after) \<Rightarrow>
                (let segment_index = length (rr_segments (rp_result st)) - 1
                 in case found of
                      Some i \<Rightarrow> (Inr None, count_record e (update_job i after segment_index st))
                    | None \<Rightarrow>
                        if length (rr_jobs (rp_result st)) \<ge> max_jobs then
                          (case evict st of
                             None \<Rightarrow>
                               refuse ReplayStatus.kCapacityExceeded
                                 (''journal_capacity_exceeded: more than '' @ dec max_jobs @ '' Jobs''
                                  @ Location name (lje_sequence e)) st
                           | Some st1 \<Rightarrow> (Inr None, count_record e (add_job e after segment_index st1)))
                        else (Inr None, count_record e (add_job e after segment_index st)))))"

definition ReplayLine ::
  "libs \<Rightarrow> (string \<Rightarrow> exn + string) \<Rightarrow> nat \<Rightarrow> string \<Rightarrow> nat \<Rightarrow> string \<Rightarrow> Replayer \<Rightarrow> replayed" where
  "ReplayLine L P max_jobs name offset line st =
     (let decoded = DecodeRecord L line
      in case (dec_status decoded, dec_event decoded) of
           (DecodeStatus.kDecoded, Some e) \<Rightarrow> ReplayEvent L P max_jobs name e st
         | _ \<Rightarrow>
             refuse ReplayStatus.kCorrupt
               (''journal_corrupt: '' @ name @ '' byte '' @ dec offset @ '': '' @ dec_detail decoded) st)"

text \<open>The loop over the lines of a segment.\<close>

lemma find_from_ge: "find_from c s position = Some i \<Longrightarrow> position \<le> i \<and> i < length s"
  by (auto simp: find_from_def Let_def split: if_splits)

function replay_lines ::
  "libs \<Rightarrow> (string \<Rightarrow> exn + string) \<Rightarrow> nat \<Rightarrow> string \<Rightarrow> bool \<Rightarrow> string \<Rightarrow> nat \<Rightarrow> Replayer \<Rightarrow> replayed" where
  "replay_lines L P max_jobs name highest content offset st =
     (if offset < length content then
        (case find_from LF content offset of
           None \<Rightarrow>
             if highest then TornTail name offset st
             else refuse ReplayStatus.kCorrupt
                    (''journal_corrupt: '' @ name @ '' ends without LF at byte '' @ dec offset) st
         | Some end_pos \<Rightarrow>
             (case ReplayLine L P max_jobs name offset (take (end_pos + 1 - offset) (drop offset content)) st of
                (Inl x, st1) \<Rightarrow> (Inl x, st1)
              | (Inr (Some refusal), st1) \<Rightarrow> (Inr (Some refusal), st1)
              | (Inr None, st1) \<Rightarrow>
                  if rp_last st1 = UINT64_MAX
                  then AfterExhaustion name highest content (end_pos + 1) st1
                  else replay_lines L P max_jobs name highest content (end_pos + 1) st1))
      else (Inr None, st))"
  by pat_completeness auto
termination
  by (relation "measure (\<lambda>(_, _, _, _, _, content, offset, _). length content - offset)")
    (auto dest: find_from_ge)

declare replay_lines.simps [simp del]

text \<open>\<^verbatim>\<open>ReplaySegment\<close> once the content of the segment was read.\<close>

definition ReplayContent ::
  "libs \<Rightarrow> (string \<Rightarrow> exn + string) \<Rightarrow> nat \<Rightarrow> u64 \<times> string \<Rightarrow> bool \<Rightarrow> string \<Rightarrow> Replayer \<Rightarrow> replayed" where
  "ReplayContent L P max_jobs segment highest content st =
     (case segment of (start, name) \<Rightarrow>
        if start \<noteq> rp_expected st
        then refuse ReplayStatus.kCorrupt
               (''journal_corrupt: segment '' @ name @ '' is not named for sequence ''
                @ to_string (rp_expected st)) st
        else if content = [] \<and> \<not> highest
        then refuse ReplayStatus.kCorrupt
               (''journal_corrupt: empty segment '' @ name @ '' is not the highest'') st
        else if content = [] \<and> rr_records (rp_result st) = 0 \<and> start \<noteq> 1
        then refuse ReplayStatus.kCorrupt
               (''journal_corrupt: empty segment '' @ name
                @ '' without records is not named for sequence 1'') st
        else replay_lines L P max_jobs name highest content 0
               (st\<lparr>rp_result := (rp_result st)\<lparr>rr_segments := rr_segments (rp_result st)
                     @ [\<lparr>rs_name = name, rs_first = start, rs_records = 0\<rparr>]\<rparr>\<rparr>))"

definition ReplaySegment ::
  "libs \<Rightarrow> (string \<Rightarrow> exn + string) \<Rightarrow> nat \<Rightarrow> 'w FileSystem \<Rightarrow> string \<Rightarrow> u64 \<times> string \<Rightarrow> bool \<Rightarrow> Replayer \<Rightarrow> 'w
   \<Rightarrow> replayed \<times> 'w" where
  "ReplaySegment L P max_jobs fs directory segment highest st w0 =
     (case ReadAll fs (JoinPath directory (snd segment)) w0 of
        (Inl x, w) \<Rightarrow> ((Inl x, st), w)
      | (Inr (Inl _), w) \<Rightarrow> (refuse ReplayStatus.kUnreadable (''journal_unreadable: '' @ snd segment) st, w)
      | (Inr (Inr content), w) \<Rightarrow> (ReplayContent L P max_jobs segment highest content st, w))"

fun replay_segments ::
  "libs \<Rightarrow> (string \<Rightarrow> exn + string) \<Rightarrow> nat \<Rightarrow> 'w FileSystem \<Rightarrow> string \<Rightarrow> (u64 \<times> string) list \<Rightarrow> Replayer \<Rightarrow> 'w
   \<Rightarrow> replayed \<times> 'w" where
  "replay_segments L P max_jobs fs directory [] st w = ((Inr None, st), w)"
| "replay_segments L P max_jobs fs directory (segment # segments) st w =
     (case ReplaySegment L P max_jobs fs directory segment (segments = []) st w of
        ((Inr None, st1), w1) \<Rightarrow> replay_segments L P max_jobs fs directory segments st1 w1
      | stopped \<Rightarrow> stopped)"

text \<open>The end of \<^verbatim>\<open>Run\<close> when every segment was replayed.\<close>

definition finish_replay :: "Replayer \<Rightarrow> Replayer" where
  "finish_replay st =
     (let r = rp_result st
      in st\<lparr>rp_result := r\<lparr>rr_status := ReplayStatus.kReplayed, rr_next_sequence := rp_expected st,
              rr_unresolved := rr_unresolved r @ map job_id (filter IsUnresolved (rr_jobs r))\<rparr>\<rparr>)"

definition Run ::
  "libs \<Rightarrow> (string \<Rightarrow> exn + string) \<Rightarrow> nat \<Rightarrow> 'w FileSystem \<Rightarrow> string \<Rightarrow> Replayer \<Rightarrow> 'w
   \<Rightarrow> ((exn + ReplayResult) \<times> Replayer) \<times> 'w" where
  "Run L P max_jobs fs directory st w0 =
     (case FileSystem.List fs directory w0 of
        (Inl x, w) \<Rightarrow> ((Inl x, st), w)
      | (Inr (Inl _), w) \<Rightarrow>
          (case Refuse ReplayStatus.kUnreadable ''journal_unreadable: list'' st of (r, st1) \<Rightarrow> ((Inr r, st1), w))
      | (Inr (Inr names), w) \<Rightarrow>
          (case scan_segments SegmentFirst names of
             Inl malformed \<Rightarrow>
               (case Refuse ReplayStatus.kCorrupt (''journal_corrupt: malformed segment name '' @ malformed) st of
                  (r, st1) \<Rightarrow> ((Inr r, st1), w))
           | Inr unsorted \<Rightarrow>
               (let segments = sort_key fst unsorted;
                    st1 = st\<lparr>rp_expected := (if segments = [] then 1 else fst (hd segments))\<rparr>
                in case replay_segments L P max_jobs fs directory segments st1 w of
                     ((Inl x, st2), w1) \<Rightarrow> ((Inl x, st2), w1)
                   | ((Inr (Some refusal), st2), w1) \<Rightarrow> ((Inr refusal, st2), w1)
                   | ((Inr None, st2), w1) \<Rightarrow>
                       (let st3 = finish_replay st2 in ((Inr (rp_result st3), st3), w1)))))"

definition ReplayJournal ::
  "libs \<Rightarrow> (string \<Rightarrow> exn + string) \<Rightarrow> nat \<Rightarrow> 'w FileSystem \<Rightarrow> string \<Rightarrow> 'w \<Rightarrow> ReplayResult \<times> 'w" where
  "ReplayJournal L P max_jobs fs directory w0 =
     (case Run L P max_jobs fs directory new_Replayer w0 of
        ((Inr r, st), w) \<Rightarrow> (r, w)
      | ((Inl (std_exception what), st), w) \<Rightarrow>
          (fst (Refuse ReplayStatus.kUnreadable (''journal_unreadable: '' @ what) st), w)
      | ((Inl unknown_exception, st), w) \<Rightarrow>
          (fst (Refuse ReplayStatus.kUnreadable ''journal_unreadable: unexpected exception'' st), w))"

end
