(* ===== verification/Replay_Record.thy ===== *)
theory Replay_Record
  imports Replay
begin

text \<open>
  Replaying one record is applying it: \<^verbatim>\<open>ReplayRecord\<close> succeeds exactly when the reducer accepts the
  record's own proposal, and returns the snapshot of the reducer. The detour through the JSON text of
  the payload and the comparison of the encoded bytes add nothing and lose nothing.
\<close>

definition proposal_of :: "LogicalJobEvent \<Rightarrow> PreEnvelopeProposal" where
  "proposal_of e = \<lparr>pp_schema_version = lje_schema_version e, pp_job_id = lje_job_id e,
     pp_event_type = lje_event_type e, pp_payload = lje_payload e\<rparr>"

lemma proposal_of_simps [simp]:
  "pp_schema_version (proposal_of e) = lje_schema_version e" "pp_job_id (proposal_of e) = lje_job_id e"
  "pp_event_type (proposal_of e) = lje_event_type e" "pp_payload (proposal_of e) = lje_payload e"
  by (simp_all add: proposal_of_def)

section \<open>Soundness\<close>

lemma record_of_inject:
  assumes "encodes e" "encodes f" "record_of e = record_of f"
  shows "e = f"
  using Emit_prefix[OF encodes_facts(1)[OF assms(1)] encodes_facts(1)[OF assms(2)], of "[]" "[]"]
    encodes_facts(2)[OF assms(1)] encodes_facts(2)[OF assms(2)] assms(3) by simp

lemma ReplayRecord_sound:
  assumes "ReplayRecord L P before e = Inr (Inr s)"
  shows "encodes e \<and> (\<exists>c. current_snapshot before e = Inr c \<and> ar_rejection (Apply L c (proposal_of e)) = None
    \<and> s = ar_snapshot (Apply L c (proposal_of e)))"
proof -
  obtain c p where c: "current_snapshot before e = Inr c" "Derive L P c e = Inr (Inr p)"
    using assms by (auto simp: ReplayRecord_def Let_def split: sum.splits if_splits)
  let ?d = "\<lparr>lje_schema_version = pp_schema_version p, lje_sequence = lje_sequence e,
    lje_event_type = pp_event_type p, lje_recorded_at = lje_recorded_at e, lje_job_id = pp_job_id p,
    lje_payload = pp_payload p\<rparr>"
  have b: "encodes ?d" "encodes e" "record_of ?d = record_of e" "ar_rejection (Apply L c p) = None"
    "s = ar_snapshot (Apply L c p)"
    using assms by (auto simp: ReplayRecord_def c Let_def encodes_def record_of_def split: if_splits)
  have "?d = e" by (rule record_of_inject[OF b(1-3)])
  moreover have "proposal_of ?d = p" by (simp add: proposal_of_def)
  ultimately have "p = proposal_of e" by simp
  with b c show ?thesis by blast
qed

section \<open>Completeness\<close>

lemma same_members_keys: "same_members ms js \<Longrightarrow> fst ` set ms \<subseteq> fst ` set js"
proof (induction ms)
  case (Cons m ms)
  obtain k d where m: "m = (k, d)" by fastforce
  then have "map_of js k \<noteq> None" using Cons.prems by (auto split: option.splits)
  then have "k \<in> fst ` set js" by (metis map_of_eq_None_iff)
  then show ?case using Cons m by simp
qed simp

lemma HasOnly_same:
  assumes "length js = length ms" "same_members ms js" "distinct (map fst ms)"
  shows "HasOnly (JObject js) (map fst ms)"
proof -
  have "card (fst ` set ms) = length js" using assms(1,3) distinct_card[of "map fst ms"] by simp
  moreover have "card (fst ` set js) \<le> length js" by (metis card_length image_set length_map)
  ultimately have "fst ` set ms = fst ` set js"
    using same_members_keys[OF assms(2)] by (metis card_subset_eq dual_order.antisym card_mono finite_imageI finite_set)
  then show ?thesis by (force simp: HasOnly_def list_all_iff)
qed

lemma parse_phase: "IsTimeoutPhase p \<Longrightarrow> ParsePhase (ValidatedName p phase_names) = Some p"
  by (cases p) (simp_all add: name_tables ValidatedName_def ParsePhase_def enum_defs)

lemma parse_mode:
  "IsCompletionMode m \<Longrightarrow> m \<noteq> CompletionMode.kNone \<Longrightarrow> ParseMode (ValidatedName m completion_mode_names) = Some m"
  by (cases m) (simp_all add: name_tables ValidatedName_def ParseMode_def enum_defs)

lemma parse_outcome: "IsTerminalOutcome r \<Longrightarrow> ParseOutcome (ValidatedName r outcome_names) = Some r"
  by (cases r) (simp_all add: name_tables ValidatedName_def ParseOutcome_def enum_defs)

lemma cleanup_name:
  "IsCleanupStatus c \<Longrightarrow> c \<noteq> CleanupStatus.kPending \<Longrightarrow>
   ValidatedName c cleanup_names = (if c = CleanupStatus.kCompleted then ''completed'' else ''incomplete'')"
  by (cases c; simp add: name_tables ValidatedName_def enum_defs)+

lemma require_True [simp]: "require True = Some ()"
  by (simp add: require_def)

lemma ucast_u32_bounds: "(ucast (v :: u32) :: u64) \<le> 0xFFFFFFFF" "(ucast v :: u64) = 0 \<longleftrightarrow> v = 0"
proof -
  show "(ucast v :: u64) \<le> 0xFFFFFFFF"
    using unsigned_less[of v, where 'a=nat] by (simp add: word_le_nat_alt)
  show "(ucast v :: u64) = 0 \<longleftrightarrow> v = 0" using widen_inject[of v 0] by simp
qed

fun doc_keys :: "doc \<Rightarrow> string list" where
  "doc_keys (DObj ms) = map fst ms"
| "doc_keys d = []"

lemma HasOnly_doc: "same_json d (JObject js) \<Longrightarrow> distinct (doc_keys d) \<Longrightarrow> HasOnly (JObject js) (doc_keys d)"
  using HasOnly_same by (cases d) auto

lemma payload_keys_distinct: "distinct (doc_keys (payload_doc q))"
  by (cases q) (simp_all add: payload_doc_def)

lemma object_member:
  assumes "case map_of js k of Some j \<Rightarrow> same_json (DObj ms) j | None \<Rightarrow> False" "distinct (map fst ms)"
  obtains rs where "map_of js k = Some (JObject rs)" "same_members ms rs" "HasOnly (JObject rs) (map fst ms)"
  using assms HasOnly_same by (auto split: option.splits json.splits)

lemmas field_defs = StringField_def UnsignedMember_def UInt64Field_def is_object_def ParseResolvedAllocationJson_def
  ParseJson_def

lemma ParseCandidatePayload_same:
  assumes "ValidInternalPayload L t q jid" "same_json (payload_doc q) j"
    "t \<notin> {EventType.kCancelAccepted, EventType.kTerminateAccepted, EventType.kLateWorkerEvent}"
  shows "ParseCandidatePayload L t j jid = Some q"
proof -
  note v = assms(1)[unfolded ValidInternalPayload_flat]
  obtain js where j: "j = JObject js" using assms(2) by (auto simp: payload_doc_def split: json.splits)
  note h = HasOnly_doc[OF assms(2)[unfolded j] payload_keys_distinct]
  note f = payload_doc_def payload_parser_defs field_defs parse_phase parse_mode parse_outcome cleanup_name
  from payload_shape[OF assms(1)] show ?thesis
  proof (cases rule: PayloadMatches_cases)
    case (created s)
    then show ?thesis using v assms(2) j h by (auto simp: f)
  next
    case (resources a d i w x)
    then obtain rs where "map_of js ''resolved_allocation'' = Some (JObject rs)"
      "same_members [(''schema_id'', DStr (stable_value i)), (''schema_version'', DNum (ucast w)), (''payload_utf8'', DStr x)] rs"
      "HasOnly (JObject rs) [''schema_id'', ''schema_version'', ''payload_utf8'']"
      using assms(2) j object_member[where js = js and k = "''resolved_allocation''" and
        ms = "[(''schema_id'', DStr (stable_value i)), (''schema_version'', DNum (ucast w)), (''payload_utf8'', DStr x)]"]
      by (auto simp: payload_doc_def)
    then show ?thesis using resources v assms(2) j h by (auto simp: f ucast_u32_bounds)
  next
    case (intent l p w b a d u)
    then obtain rs where "map_of js ''application'' = Some (JObject rs)"
      "same_members [(''application_id'', DStr (stable_value p)), (''version'', DStr w), (''bundle_sha256'', DStr (digest_value b))] rs"
      "HasOnly (JObject rs) [''application_id'', ''version'', ''bundle_sha256'']"
      using assms(2) j object_member[where js = js and k = "''application''" and
        ms = "[(''application_id'', DStr (stable_value p)), (''version'', DStr w), (''bundle_sha256'', DStr (digest_value b))]"]
      by (auto simp: payload_doc_def)
    then show ?thesis using intent v assms(2) j h by (auto simp: f)
  next
    case (cleanup c)
    then show ?thesis using v assms(2) j h by (cases c) (auto simp: f enum_defs)
  qed (use v assms(2,3) j h in \<open>auto simp: f\<close>)
qed

text \<open>What the JSON library promises for the text of a record: the payload it prints parses to the payload.\<close>

definition prints_payload :: "libs \<Rightarrow> (string \<Rightarrow> exn + string) \<Rightarrow> LogicalJobEvent \<Rightarrow> bool" where
  "prints_payload L P e \<longleftrightarrow>
     (case P (record_of e) of
        Inr text \<Rightarrow> NUL \<notin> set text
          \<and> (case json_parse L text of Some j \<Rightarrow> same_json (payload_doc (lje_payload e)) j | None \<Rightarrow> False)
      | Inl _ \<Rightarrow> False)"

lemma DecideInternal_own:
  assumes "authorized L s p"
  shows "DecideInternal L s (event_of p) = Inr p"
proof -
  have w: "well_formed L s p" using assms by (simp add: authorized_def)
  obtain q where q: "DecideInternal L s (event_of p) = Inr q" "pp_event_type q = pp_event_type p"
    using assms DecideInternal_authorized by blast
  have "q = \<lparr>pp_schema_version = 1, pp_job_id = job_id s, pp_event_type = pp_event_type p, pp_payload = pp_payload p\<rparr>"
  proof (cases "pp_event_type p = EventType.kJobCreated")
    case True
    then show ?thesis using q by (simp add: DecideInternal_def AcceptEvent_def split: if_splits)
  next
    case False
    then have "DecideSwitch s (event_of p) = Inr q" using q(1) by (simp add: DecideInternal_def split: if_splits)
    from DecideSwitch_form[OF this] q(2) show ?thesis by auto
  qed
  also have "\<dots> = p" using w by (simp add: well_formed_def)
  finally show ?thesis using q(1) by simp
qed

lemma DecideCommand_own:
  assumes "authorized L s p" "pp_payload p = PrincipalPayload u"
    "pp_event_type p = (if c = CommandType.kCancel then EventType.kCancelAccepted else EventType.kTerminateAccepted)"
    "IsCommandType c"
  shows "DecideCommand s \<lparr>cmd_schema_version = pp_schema_version p, cmd_command_type = c, cmd_job_id = pp_job_id p,
    cmd_principal_subject = u\<rparr> = Inr p"
proof -
  have w: "ValidSnapshot s" "pp_schema_version p = 1" "pp_job_id p = job_id s" "IsPrincipal u" "entity_exists s"
    using assms(1-3) by (auto simp: authorized_def well_formed_def ValidInternalPayload_def split: if_splits)
  have "state s = JobState.kAdmitted \<or> state s = JobState.kPreparing \<or> state s = JobState.kRunning
    \<or> c \<noteq> CommandType.kCancel \<and> \<not> process_exit_confirmed s \<and> (state s = JobState.kStopping \<or> state s = JobState.kFinalizing)"
    using assms(1-3) by (auto simp: authorized_def DecideSwitch_def decide_defs split: if_splits)
  then have "DecideCommand s \<lparr>cmd_schema_version = pp_schema_version p, cmd_command_type = c, cmd_job_id = pp_job_id p,
    cmd_principal_subject = u\<rparr> = Accept s (pp_event_type p) (PrincipalPayload u)"
    using w assms(3,4) ValidSnapshot_uuid[OF w(1)] by (auto simp: DecideCommand_def)
  then show ?thesis using w assms(2) by simp
qed

lemma Derive_own:
  assumes "authorized L c (proposal_of e)" "encodes e" "prints_payload L P e"
  shows "Derive L P c e = Inr (Inr (proposal_of e))"
proof -
  have w: "well_formed L c (proposal_of e)" using assms(1) by (simp add: authorized_def)
  have own: "DecideEvent L c \<lparr>ie_schema_version = lje_schema_version e, ie_job_id = lje_job_id e,
      ie_event_type = lje_event_type e, ie_payload = lje_payload e\<rparr> = Inr (proposal_of e)"
    using DecideInternal_own[OF assms(1)] by (simp add: DecideEvent_def event_of_def)
  obtain tx j where t: "P (record_of e) = Inr tx" "NUL \<notin> set tx" "json_parse L tx = Some j"
    "same_json (payload_doc (lje_payload e)) j"
    using assms(3) by (auto simp: prints_payload_def split: sum.splits option.splits)
  have pj: "PayloadJson P e = Inr tx" using assms(2) t(1) by (simp add: PayloadJson_def encodes_def record_of_def Let_def)
  have sh: "PayloadMatches (lje_event_type e) (lje_payload e)" using authorized_shape[OF assms(1)] by simp
  have f: "lje_schema_version e = 1" "lje_job_id e = job_id c" "IsEventType (lje_event_type e)"
    "ValidInternalPayload L (lje_event_type e) (lje_payload e) (job_id c)" "IsUuid (uuid_value (job_id c)) CHR ''7''"
    using w ValidSnapshot_uuid[of c] by (auto simp: well_formed_def ValidInternalPayload_flat)
  consider (command) "lje_event_type e \<in> {EventType.kCancelAccepted, EventType.kTerminateAccepted}"
    | (event) "lje_event_type e \<in> {EventType.kTimeoutExpired, EventType.kLateWorkerEvent}"
    | (candidate) "lje_event_type e \<notin> {EventType.kCancelAccepted, EventType.kTerminateAccepted,
        EventType.kTimeoutExpired, EventType.kLateWorkerEvent}" by blast
  then show ?thesis
  proof cases
    case command
    then obtain u where "lje_payload e = PrincipalPayload u" using sh by (auto simp: is_PrincipalPayload_def)
    then show ?thesis
      using command DecideCommand_own[OF assms(1), of u CommandType.kCancel]
        DecideCommand_own[OF assms(1), of u CommandType.kTerminate]
      by (auto simp: Derive_def enum_defs)
  next
    case event
    then show ?thesis using own by (auto simp: Derive_def)
  next
    case candidate
    have n: "NormalizeCandidate L c \<lparr>raw_schema_version = lje_schema_version e, raw_job_id = lje_job_id e,
        raw_event_type = EventType_ToString (lje_event_type e), raw_payload_json = tx\<rparr>
      = Inr \<lparr>ie_schema_version = lje_schema_version e, ie_job_id = lje_job_id e,
        ie_event_type = lje_event_type e, ie_payload = lje_payload e\<rparr>"
      using f t(2,3) candidate ParseCandidatePayload_same[OF f(4) t(4)] ParseEvent_ToString[OF f(3)]
      by (simp add: NormalizeCandidate_def ParseCandidate_def ParseJson_def Normalize_def)
    have "Derive L P c e =
        (case NormalizeCandidate L c \<lparr>raw_schema_version = lje_schema_version e, raw_job_id = lje_job_id e,
            raw_event_type = EventType_ToString (lje_event_type e), raw_payload_json = tx\<rparr> of
           Inl rejection \<Rightarrow> Inr (Inl rejection) | Inr event \<Rightarrow> Inr (DecideEvent L c event))"
      using candidate pj by (cases "lje_event_type e") (simp_all add: Derive_def)
    then show ?thesis by (simp add: n own)
  qed
qed

lemma ReplayRecord_complete:
  assumes "current_snapshot before e = Inr c" "ar_rejection (Apply L c (proposal_of e)) = None" "encodes e"
    "prints_payload L P e"
  shows "ReplayRecord L P before e = Inr (Inr (ar_snapshot (Apply L c (proposal_of e))))"
proof -
  have "Derive L P c e = Inr (Inr (proposal_of e))"
    using Derive_own[OF _ assms(3,4)] assms(2) Apply_accepts_iff by blast
  moreover have eta: "\<lparr>lje_schema_version = lje_schema_version e, lje_sequence = lje_sequence e,
      lje_event_type = lje_event_type e, lje_recorded_at = lje_recorded_at e, lje_job_id = lje_job_id e,
      lje_payload = lje_payload e\<rparr> = e" by (cases e) simp
  ultimately show ?thesis
    using assms(1-3) by (simp add: ReplayRecord_def encodes_def Let_def eta)
qed

end
