(* ===== verification/Replay_Journal.thy ===== *)
theory Replay_Journal
  imports Replay_Record
begin

text \<open>
  The reference of replay: folding the reducer over the events, with the resident Jobs as a list.
  The theory shows that replaying the segments of a journal computes exactly this fold; the bytes, the
  JSON text, the index from Job identity to position and the segment boundaries do not matter.
\<close>

section \<open>The reference\<close>

text \<open>A resident Job: the sequence of its creation and its snapshot, in the order of creation.\<close>

type_synonym residents = "(u64 \<times> Snapshot) list"

definition ident :: "u64 \<times> Snapshot \<Rightarrow> string" where
  "ident x = uuid_value (job_id (snd x))"

fun index_in :: "string \<Rightarrow> string list \<Rightarrow> nat option" where
  "index_in a [] = None"
| "index_in a (b # bs) = (if a = b then Some 0 else map_option Suc (index_in a bs))"

definition oldest :: "residents \<Rightarrow> nat option" where
  "oldest js = OldestClosed (length js) (\<lambda>i. Some (map snd js ! i)) (\<lambda>i. map fst js ! i)"

definition restore_job :: "libs \<Rightarrow> Snapshot option \<Rightarrow> LogicalJobEvent \<Rightarrow> Snapshot option" where
  "restore_job L before e =
     (case current_snapshot before e of
        Inl _ \<Rightarrow> None
      | Inr c \<Rightarrow> map_option fst (accept (Apply L c (proposal_of e))))"

definition restore_step :: "libs \<Rightarrow> nat \<Rightarrow> LogicalJobEvent \<Rightarrow> residents \<Rightarrow> residents option" where
  "restore_step L max_jobs e js =
     (case index_in (uuid_value (lje_job_id e)) (map ident js) of
        Some i \<Rightarrow> map_option (\<lambda>s. js[i := (fst (js ! i), s)]) (restore_job L (Some (snd (js ! i))) e)
      | None \<Rightarrow>
          (case restore_job L None e of
             None \<Rightarrow> None
           | Some s \<Rightarrow>
               if length js < max_jobs then Some (js @ [(lje_sequence e, s)])
               else map_option (\<lambda>v. erase_at v js @ [(lje_sequence e, s)]) (oldest js)))"

fun restore :: "libs \<Rightarrow> nat \<Rightarrow> LogicalJobEvent list \<Rightarrow> residents \<Rightarrow> residents option" where
  "restore L max_jobs [] js = Some js"
| "restore L max_jobs (e # es) js =
     (case restore_step L max_jobs e js of None \<Rightarrow> None | Some js1 \<Rightarrow> restore L max_jobs es js1)"

lemma restore_append:
  "restore L m (es @ fs) js = (case restore L m es js of None \<Rightarrow> None | Some js1 \<Rightarrow> restore L m fs js1)"
  by (induction es arbitrary: js) (auto split: option.splits)

section \<open>Positions\<close>

lemma index_in_None: "index_in a bs = None \<longleftrightarrow> a \<notin> set bs"
  by (induction bs) auto

lemma index_in_Some: "index_in a bs = Some i \<Longrightarrow> i < length bs \<and> bs ! i = a"
  by (induction bs arbitrary: i) (auto split: if_splits)

lemma index_in_snoc:
  "index_in a (bs @ [c]) = (case index_in a bs of Some i \<Rightarrow> Some i | None \<Rightarrow> if a = c then Some (length bs) else None)"
  by (induction bs) (auto split: option.splits)

lemma index_in_erase:
  "distinct bs \<Longrightarrow> v < length bs \<Longrightarrow> index_in a (erase_at v bs) =
     (if a = bs ! v then None else map_option (\<lambda>i. if i > v then i - 1 else i) (index_in a bs))"
proof (induction bs arbitrary: v)
  case (Cons b bs)
  show ?case
  proof (cases v)
    case 0
    then show ?thesis using Cons.prems index_in_None[of b bs]
      by (auto simp: erase_at_def option.map_comp comp_def option.map_ident)
  next
    case (Suc u)
    have "erase_at v (b # bs) = b # erase_at u bs" by (simp add: erase_at_def Suc)
    then show ?thesis
      using Cons.IH[of u] Cons.prems Suc nth_mem[of u bs]
      by (auto simp: option.map_comp comp_def intro!: map_option_cong split: option.splits)
  qed
qed simp

lemma map_erase_at: "map f (erase_at v xs) = erase_at v (map f xs)"
  by (simp add: erase_at_def take_map drop_map)

lemma distinct_erase_at: "distinct xs \<Longrightarrow> distinct (erase_at v xs)"
  by (simp add: erase_at_def set_take_disj_set_drop_if_distinct)

lemma length_erase_at: "v < length xs \<Longrightarrow> length (erase_at v xs) = length xs - 1"
  by (simp add: erase_at_def)

section \<open>One event\<close>

lemma transition_identity: "transition s t q s' es \<Longrightarrow> job_id s' = job_id s"
  by (erule transitionE) (auto simp: InitialSnapshot_def)

lemma accepted_identity: "ar_rejection (Apply L c p) = None \<Longrightarrow> job_id (ar_snapshot (Apply L c p)) = job_id c \<and> pp_job_id p = job_id c"
  using accepted_iff_transition[of L c p "ar_snapshot (Apply L c p)" "ar_effects (Apply L c p)"] transition_identity
  by (auto simp: well_formed_def)

lemma current_snapshot_identity:
  "current_snapshot before e = Inr c \<Longrightarrow> (\<And>s. before = Some s \<Longrightarrow> uuid_value (job_id s) = uuid_value (lje_job_id e)) \<Longrightarrow>
   uuid_value (job_id c) = uuid_value (lje_job_id e)"
  by (auto simp: current_snapshot_def InitialSnapshot_def split: if_splits option.splits)

lemma restore_job_identity:
  assumes "restore_job L before e = Some s" "\<And>s. before = Some s \<Longrightarrow> uuid_value (job_id s) = uuid_value (lje_job_id e)"
  shows "uuid_value (job_id s) = uuid_value (lje_job_id e)"
proof -
  obtain c where c: "current_snapshot before e = Inr c" "ar_rejection (Apply L c (proposal_of e)) = None"
    "s = ar_snapshot (Apply L c (proposal_of e))"
    using assms(1) by (auto simp: restore_job_def accept_def split: sum.splits if_splits)
  then show ?thesis
    using accepted_identity[OF c(2)] current_snapshot_identity[OF c(1) assms(2)] by simp
qed

text \<open>The replayed snapshot of a Job is the reference's.\<close>

lemma ReplayRecord_restore:
  assumes "encodes e" "prints_payload L P e"
  shows "case restore_job L before e of
      Some s \<Rightarrow> ReplayRecord L P before e = Inr (Inr s)
    | None \<Rightarrow> \<exists>why. ReplayRecord L P before e = Inr (Inl why)"
proof (cases "restore_job L before e")
  case (Some s)
  then obtain c where c: "current_snapshot before e = Inr c" "ar_rejection (Apply L c (proposal_of e)) = None"
    "s = ar_snapshot (Apply L c (proposal_of e))"
    by (auto simp: restore_job_def accept_def split: sum.splits if_splits)
  then show ?thesis using Some ReplayRecord_complete[OF c(1,2) assms] by simp
next
  case None
  have "ReplayRecord L P before e \<noteq> Inr (Inr s)" for s
    using ReplayRecord_sound[of L P before e s] None by (auto simp: restore_job_def accept_def)
  moreover have "ReplayRecord L P before e \<noteq> Inl x" for x
  proof
    assume "ReplayRecord L P before e = Inl x"
    then obtain c where "Derive L P c e = Inl x"
      by (auto simp: ReplayRecord_def Let_def split: sum.splits if_splits)
    then have "PayloadJson P e = Inl x"
      by (auto simp: Derive_def split: EventType.splits if_splits sum.splits)
    then show False
      using assms by (auto simp: PayloadJson_def encodes_def prints_payload_def record_of_def Let_def split: sum.splits)
  qed
  ultimately show ?thesis
    unfolding None option.case by (metis sum.exhaust_sel)
qed

section \<open>The replayer follows the reference\<close>

definition tracks :: "Replayer \<Rightarrow> residents \<Rightarrow> bool" where
  "tracks st js \<longleftrightarrow> rr_jobs (rp_result st) = map snd js \<and> rr_created_sequences (rp_result st) = map fst js
     \<and> length (rr_spans (rp_result st)) = length js \<and> distinct (map ident js)
     \<and> (\<forall>a. map_of (rp_index_of st) a = index_in a (map ident js))"

lemma map_of_reindex:
  "map_of (map (\<lambda>(k, i). (k, f i)) (filter (\<lambda>(k, _). k \<noteq> b) m)) a = (if a = b then None else map_option f (map_of m a))"
  by (induction m) auto

lemma evict_tracks:
  assumes "tracks st js"
  shows "case oldest js of
      None \<Rightarrow> evict st = None
    | Some v \<Rightarrow> v < length js \<and> (\<exists>st1. evict st = Some st1 \<and> tracks st1 (erase_at v js)
        \<and> rp_expected st1 = rp_expected st \<and> rr_segments (rp_result st1) = rr_segments (rp_result st)
        \<and> rr_records (rp_result st1) = rr_records (rp_result st) \<and> rr_unresolved (rp_result st1) = rr_unresolved (rp_result st))"
proof -
  have o: "OldestClosed (length (rr_jobs (rp_result st))) (\<lambda>i. Some (rr_jobs (rp_result st) ! i))
      (\<lambda>i. rr_created_sequences (rp_result st) ! i) = oldest js"
    using assms by (simp add: tracks_def oldest_def)
  show ?thesis
  proof (cases "oldest js")
    case None
    then show ?thesis using o by (simp add: evict_def Let_def)
  next
    case (Some v)
    then have v: "v < length js"
      using OldestClosed_spec[of "length js" "\<lambda>i. Some (map snd js ! i)" "\<lambda>i. map fst js ! i"] by (simp add: oldest_def)
    then have i: "map ident js ! v = uuid_value (job_id (map snd js ! v))" by (simp add: ident_def)
    have "\<exists>st1. evict st = Some st1 \<and> tracks st1 (erase_at v js)
        \<and> rp_expected st1 = rp_expected st \<and> rr_segments (rp_result st1) = rr_segments (rp_result st)
        \<and> rr_records (rp_result st1) = rr_records (rp_result st) \<and> rr_unresolved (rp_result st1) = rr_unresolved (rp_result st)"
      using assms v o Some i index_in_erase[of "map ident js" v] distinct_erase_at[of "map ident js" v]
      by (simp add: evict_def Let_def tracks_def map_erase_at map_of_reindex length_erase_at)
    then show ?thesis using Some v by simp
  qed
qed

text \<open>\<open>advanced\<close>: the counters after \<open>k\<close> more records.\<close>

definition advanced :: "nat \<Rightarrow> Replayer \<Rightarrow> Replayer \<Rightarrow> bool" where
  "advanced k st st' \<longleftrightarrow> rp_expected st' = rp_expected st + of_nat k
     \<and> rr_records (rp_result st') = rr_records (rp_result st) + of_nat k
     \<and> rr_unresolved (rp_result st') = rr_unresolved (rp_result st)"

lemma advanced_trans: "advanced k st st1 \<Longrightarrow> advanced m st1 st2 \<Longrightarrow> advanced (k + m) st st2"
  by (simp add: advanced_def)

definition refusal :: "ReplayStatus set \<Rightarrow> replayed \<Rightarrow> bool" where
  "refusal S x \<longleftrightarrow> (\<exists>r st. x = (Inr (Some r), st) \<and> rr_status r \<in> S)"

lemma refusal_refuse [simp]: "refusal S (refuse status detail st) \<longleftrightarrow> status \<in> S"
  by (simp add: refusal_def refuse_def Refuse_def Let_def)

lemma count_tracks: "tracks (count_record e st) js \<longleftrightarrow> tracks st js"
  by (simp add: tracks_def count_record_def Let_def)

lemma count_advanced:
  assumes "lje_sequence e = rp_expected st" "lje_sequence e \<noteq> UINT64_MAX" "rp_expected st1 = rp_expected st"
    "rr_records (rp_result st1) = rr_records (rp_result st)" "rr_unresolved (rp_result st1) = rr_unresolved (rp_result st)"
  shows "advanced 1 st (count_record e st1) \<and> rp_last (count_record e st1) = lje_sequence e"
  using assms by (simp add: advanced_def count_record_def Let_def)

lemma add_job_tracks:
  assumes "tracks st js" "index_in (uuid_value (lje_job_id e)) (map ident js) = None" "uuid_value (job_id s) = uuid_value (lje_job_id e)"
  shows "tracks (add_job e s k st) (js @ [(lje_sequence e, s)])"
proof -
  have n: "uuid_value (lje_job_id e) \<notin> set (map ident js)" using assms(2) index_in_None by metis
  have i: "ident (lje_sequence e, s) = uuid_value (lje_job_id e)" by (simp add: ident_def assms(3))
  have "map_of ((uuid_value (lje_job_id e), length js) # rp_index_of st) a
      = index_in a (map ident (js @ [(lje_sequence e, s)]))" for a
    using assms(1,2) by (simp add: tracks_def i index_in_snoc split: option.split)
  moreover have "distinct (map ident (js @ [(lje_sequence e, s)]))"
    using assms(1) n by (simp add: tracks_def i)
  moreover have "map_of (rp_index_of st) (uuid_value (lje_job_id e)) = None" using assms(1,2) by (simp add: tracks_def)
  ultimately show ?thesis using assms(1) unfolding tracks_def by (simp add: add_job_def Let_def try_emplace_def)
qed

lemma update_job_tracks:
  assumes "tracks st js" "index_in (uuid_value (lje_job_id e)) (map ident js) = Some i" "uuid_value (job_id s) = uuid_value (lje_job_id e)"
  shows "tracks (update_job i s k st) (js[i := (fst (js ! i), s)])"
proof -
  have i: "i < length js" "ident (js ! i) = uuid_value (lje_job_id e)" using index_in_Some[OF assms(2)] by auto
  then have "map ident (js[i := (fst (js ! i), s)]) = map ident js"
    using assms(3) by (simp add: map_update ident_def list_update_same_conv)
  moreover have "map fst (js[i := (fst (js ! i), s)]) = map fst js"
    using i(1) by (simp add: map_update list_update_same_conv)
  ultimately show ?thesis using assms(1) by (simp add: tracks_def update_job_def Let_def map_update)
qed

lemma ReplayEvent_known:
  assumes "tracks st js" "encodes e" "prints_payload L P e" "lje_sequence e = rp_expected st" "lje_sequence e \<noteq> UINT64_MAX"
    "index_in (uuid_value (lje_job_id e)) (map ident js) = Some i"
  shows "case restore_step L m e js of
      None \<Rightarrow> refusal {ReplayStatus.kCorrupt, ReplayStatus.kCapacityExceeded} (ReplayEvent L P m name e st)
    | Some js' \<Rightarrow> \<exists>st'. ReplayEvent L P m name e st = (Inr None, st') \<and> tracks st' js' \<and> advanced 1 st st'
        \<and> rp_last st' = lje_sequence e"
proof -
  note Some = assms(6)
  have i: "i < length js" "ident (js ! i) = uuid_value (lje_job_id e)" using index_in_Some[OF Some] by auto
  have b: "map_of (rp_index_of st) (uuid_value (lje_job_id e)) = Some i" "rr_jobs (rp_result st) ! i = snd (js ! i)"
    using assms(1) Some i(1) by (simp_all add: tracks_def)
  note r = ReplayRecord_restore[OF assms(2,3), of "Some (snd (js ! i))"]
  show ?thesis
  proof (cases "restore_job L (Some (snd (js ! i))) e")
    case None
    then show ?thesis using r b assms(4) Some by (auto simp: restore_step_def ReplayEvent_def Let_def)
  next
    case (Some s)
    have "uuid_value (job_id s) = uuid_value (lje_job_id e)"
      using restore_job_identity[OF Some] i(2) by (simp add: ident_def)
    note t = update_job_tracks[OF assms(1) \<open>index_in _ _ = Some i\<close> this]
    have "ReplayEvent L P m name e st
        = (Inr None, count_record e (update_job i s (length (rr_segments (rp_result st)) - 1) st))"
      using r b assms(4) Some by (simp add: ReplayEvent_def Let_def)
    then show ?thesis
      using t \<open>index_in _ _ = Some i\<close> Some count_advanced[OF assms(4,5)]
      by (simp add: restore_step_def count_tracks update_job_def Let_def)
  qed
qed

lemma ReplayEvent_new:
  assumes "tracks st js" "encodes e" "prints_payload L P e" "lje_sequence e = rp_expected st" "lje_sequence e \<noteq> UINT64_MAX"
    "index_in (uuid_value (lje_job_id e)) (map ident js) = None"
  shows "case restore_step L m e js of
      None \<Rightarrow> refusal {ReplayStatus.kCorrupt, ReplayStatus.kCapacityExceeded} (ReplayEvent L P m name e st)
    | Some js' \<Rightarrow> \<exists>st'. ReplayEvent L P m name e st = (Inr None, st') \<and> tracks st' js' \<and> advanced 1 st st'
        \<and> rp_last st' = lje_sequence e"
proof -
  note None = assms(6)
  have b: "map_of (rp_index_of st) (uuid_value (lje_job_id e)) = None" "length (rr_jobs (rp_result st)) = length js"
    using assms(1) None by (simp_all add: tracks_def)
  note r = ReplayRecord_restore[OF assms(2,3), of None]
  show ?thesis
  proof (cases "restore_job L None e")
    case N: None
    then show ?thesis using r b assms(4) None by (auto simp: restore_step_def ReplayEvent_def Let_def)
  next
    case (Some s)
    have s: "uuid_value (job_id s) = uuid_value (lje_job_id e)" using restore_job_identity[OF Some] by simp
    note counted = count_advanced[OF assms(4,5)]
    show ?thesis
    proof (cases "length js < m")
      case True
      then show ?thesis
        using r b assms(4) Some None add_job_tracks[OF assms(1) None s] counted
        by (simp add: restore_step_def ReplayEvent_def Let_def count_tracks add_job_def)
    next
      case False
      note ev = evict_tracks[OF assms(1)]
      show ?thesis
      proof (cases "oldest js")
        case N: None
        then show ?thesis using r b assms(4) Some None False ev by (simp add: restore_step_def ReplayEvent_def Let_def)
      next
        case v: (Some v)
        then obtain st1 where st1: "evict st = Some st1" "tracks st1 (erase_at v js)" "rp_expected st1 = rp_expected st"
          "rr_records (rp_result st1) = rr_records (rp_result st)" "rr_unresolved (rp_result st1) = rr_unresolved (rp_result st)"
          "v < length js" using ev by auto
        have "index_in (uuid_value (lje_job_id e)) (map ident (erase_at v js)) = None"
          using index_in_erase[of "map ident js" v] None assms(1) st1(6) by (simp add: map_erase_at tracks_def)
        note t = add_job_tracks[OF st1(2) this s]
        show ?thesis
          using r b assms(4) Some None False v st1 t counted
          by (simp add: restore_step_def ReplayEvent_def Let_def count_tracks add_job_def)
      qed
    qed
  qed
qed

lemma ReplayEvent_restore:
  assumes "tracks st js" "encodes e" "prints_payload L P e" "lje_sequence e = rp_expected st" "lje_sequence e \<noteq> UINT64_MAX"
  shows "case restore_step L m e js of
      None \<Rightarrow> refusal {ReplayStatus.kCorrupt, ReplayStatus.kCapacityExceeded} (ReplayEvent L P m name e st)
    | Some js' \<Rightarrow> \<exists>st'. ReplayEvent L P m name e st = (Inr None, st') \<and> tracks st' js' \<and> advanced 1 st st'
        \<and> rp_last st' = lje_sequence e"
  using ReplayEvent_known[OF assms] ReplayEvent_new[OF assms]
  by (cases "index_in (uuid_value (lje_job_id e)) (map ident js)") blast+

section \<open>One segment\<close>

lemma find_from_line: "LF \<notin> set body \<Longrightarrow> find_from LF (pre @ body @ LF # rest) (length pre) = Some (length pre + length body)"
  by (auto simp: find_from_def Let_def takeWhile_append)

lemma find_from_torn: "LF \<notin> set t \<Longrightarrow> find_from LF (pre @ t) (length pre) = None"
proof -
  assume "LF \<notin> set t"
  then have w: "takeWhile (\<lambda>d. d \<noteq> LF) t = t" by (auto simp: takeWhile_eq_all_conv)
  show ?thesis unfolding find_from_def by (simp add: w)
qed

lemma ReplayLine_record:
  assumes "encodes e" "reads_back L (event_doc e)"
  shows "ReplayLine L P m name offset (record_of e) st = ReplayEvent L P m name e st"
  using DecodeRecord_Emit[OF assms] encodes_facts(2)[OF assms(1)] by (simp add: ReplayLine_def Let_def)

lemma lines_restore:
  assumes "tracks st js" "numbered n es" "decodable L es" "\<forall>e \<in> set es. prints_payload L P e" "rp_expected st = of_nat n"
    "n + length es < 2 ^ 64" "LF \<notin> set t" "t \<noteq> [] \<longrightarrow> highest"
  shows "case restore L m es js of
      None \<Rightarrow> refusal {ReplayStatus.kCorrupt, ReplayStatus.kCapacityExceeded}
        (replay_lines L P m name highest (pre @ records es @ t) (length pre) st)
    | Some js' \<Rightarrow> \<exists>st'. tracks st' js' \<and> advanced (length es) st st'
        \<and> replay_lines L P m name highest (pre @ records es @ t) (length pre) st
          = (if t = [] then (Inr None, st') else TornTail name (length (pre @ records es)) st')"
  using assms
proof (induction es arbitrary: pre n st js)
  case Nil
  then show ?case
    using find_from_torn[of t pre] by (subst (1 2) replay_lines.simps) (auto simp: advanced_def)
next
  case (Cons e es)
  have e: "encodes e" "reads_back L (event_doc e)" "prints_payload L P e" "lje_sequence e = rp_expected st"
    using Cons.prems by (simp_all add: decodable_def)
  have "unat (lje_sequence e) < 2 ^ 64 - 1" using Cons.prems(2,6) by (simp add: unat_of_nat_u64)
  then have fit: "lje_sequence e \<noteq> UINT64_MAX" using unat_max by auto
  obtain body where b: "record_of e = body @ [LF]" "LF \<notin> set body" by (rule record_line[OF e(1)])
  let ?c = "pre @ records (e # es) @ t"
  have f: "find_from LF ?c (length pre) = Some (length pre + length body)"
    using find_from_line[OF b(2), of pre "records es @ t"] b(1) by simp
  have l: "take (length pre + length body + 1 - length pre) (drop (length pre) ?c) = record_of e"
    using b(1) by simp
  have step: "replay_lines L P m name highest ?c (length pre) st =
     (case ReplayEvent L P m name e st of
        (Inl x, st1) \<Rightarrow> (Inl x, st1)
      | (Inr (Some r), st1) \<Rightarrow> (Inr (Some r), st1)
      | (Inr None, st1) \<Rightarrow>
          if rp_last st1 = UINT64_MAX
          then AfterExhaustion name highest ?c (length pre + length body + 1) st1
          else replay_lines L P m name highest ?c (length pre + length body + 1) st1)"
  proof -
    have "length pre < length ?c" using b(1) by simp
    then show ?thesis
      by (subst replay_lines.simps) (simp only: if_True f option.case l ReplayLine_record[OF e(1,2)])
  qed
  note ev = ReplayEvent_restore[OF Cons.prems(1) e(1,3,4) fit, of m name]
  show ?case
  proof (cases "restore_step L m e js")
    case None
    then show ?thesis using ev step by (auto simp: refusal_def)
  next
    case (Some js1)
    then obtain st1 where st1: "ReplayEvent L P m name e st = (Inr None, st1)" "tracks st1 js1" "advanced 1 st st1"
      "rp_last st1 = lje_sequence e" using ev by auto
    have c: "?c = (pre @ record_of e) @ records es @ t" "length pre + length body + 1 = length (pre @ record_of e)"
      using b(1) by simp_all
    have r: "replay_lines L P m name highest ?c (length pre) st
        = replay_lines L P m name highest ((pre @ record_of e) @ records es @ t) (length (pre @ record_of e)) st1"
      unfolding step st1(1) c(2) using fit st1(4) by simp
    have "rp_expected st1 = of_nat (n + 1)" using st1(3) Cons.prems(5) by (simp add: advanced_def)
    then have ih: "case restore L m es js1 of
        None \<Rightarrow> refusal {ReplayStatus.kCorrupt, ReplayStatus.kCapacityExceeded}
          (replay_lines L P m name highest ((pre @ record_of e) @ records es @ t) (length (pre @ record_of e)) st1)
      | Some js' \<Rightarrow> \<exists>st'. tracks st' js' \<and> advanced (length es) st1 st'
          \<and> replay_lines L P m name highest ((pre @ record_of e) @ records es @ t) (length (pre @ record_of e)) st1
            = (if t = [] then (Inr None, st') else TornTail name (length ((pre @ record_of e) @ records es)) st')"
      using Cons.prems by (intro Cons.IH[OF st1(2), of "n + 1"]) (simp_all add: decodable_def)
    show ?thesis
      using ih advanced_trans[OF st1(3), of "length es"] unfolding r
      by (auto simp: Some split: option.splits)
  qed
qed

lemma ReplayContent_restore:
  assumes "tracks st js" "numbered n es" "decodable L es" "\<forall>e \<in> set es. prints_payload L P e" "rp_expected st = of_nat n"
    "n + length es < 2 ^ 64" "LF \<notin> set t" "t \<noteq> [] \<longrightarrow> highest"
    "es = [] \<and> t = [] \<longrightarrow> highest \<and> (rr_records (rp_result st) = 0 \<longrightarrow> n = 1)"
  shows "case restore L m es js of
      None \<Rightarrow> refusal {ReplayStatus.kCorrupt, ReplayStatus.kCapacityExceeded}
        (ReplayContent L P m (of_nat n, name) highest (records es @ t) st)
    | Some js' \<Rightarrow> \<exists>st'. tracks st' js' \<and> advanced (length es) st st'
        \<and> ReplayContent L P m (of_nat n, name) highest (records es @ t) st
          = (if t = [] then (Inr None, st') else TornTail name (length (records es)) st')"
proof -
  let ?st = "st\<lparr>rp_result := (rp_result st)\<lparr>rr_segments := rr_segments (rp_result st)
    @ [\<lparr>rs_name = name, rs_first = of_nat n, rs_records = 0\<rparr>]\<rparr>\<rparr>"
  have "records es = [] \<longleftrightarrow> es = []"
    using records_end[OF numbered_encodes[OF assms(2)]] by (cases "es = []") auto
  then have c: "ReplayContent L P m (of_nat n, name) highest (records es @ t) st
      = replay_lines L P m name highest (records es @ t) 0 ?st"
    using assms(5,9) by (auto simp: ReplayContent_def)
  have "tracks ?st js" "rp_expected ?st = of_nat n"
    using assms(1,5) by (simp_all add: tracks_def)
  note l = lines_restore[OF this(1) assms(2-4) this(2) assms(6-8), of m name "[]"]
  have "advanced k ?st = advanced k st" for k by (simp add: advanced_def fun_eq_iff)
  then show ?thesis using l unfolding c by (simp only: append_Nil list.size(3))
qed

section \<open>All segments\<close>

fun contents :: "nat \<Rightarrow> LogicalJobEvent list list \<Rightarrow> string \<Rightarrow> ((u64 \<times> string) \<times> string) list" where
  "contents n [] t = []"
| "contents n (es # ess) t =
     ((of_nat n, SegmentName (of_nat n)), records es @ (if ess = [] then t else [])) # contents (n + length es) ess t"

fun replay_contents ::
  "libs \<Rightarrow> (string \<Rightarrow> exn + string) \<Rightarrow> nat \<Rightarrow> ((u64 \<times> string) \<times> string) list \<Rightarrow> Replayer \<Rightarrow> replayed" where
  "replay_contents L P m [] st = (Inr None, st)"
| "replay_contents L P m ((segment, content) # cs) st =
     (case ReplayContent L P m segment (cs = []) content st of
        (Inr None, st1) \<Rightarrow> replay_contents L P m cs st1
      | stopped \<Rightarrow> stopped)"

lemma contents_empty [simp]: "contents n ess t = [] \<longleftrightarrow> ess = []"
  by (cases ess) simp_all

lemma contents_restore:
  assumes "tracks st js" "segments_ok n ess" "decodable L (concat ess)" "\<forall>e \<in> set (concat ess). prints_payload L P e"
    "rp_expected st = of_nat n" "n + length (concat ess) < 2 ^ 64" "LF \<notin> set t"
    "rr_records (rp_result st) = of_nat k" "k + length (concat ess) < 2 ^ 64" "k = 0 \<and> concat ess = [] \<and> t = [] \<longrightarrow> ess = [] \<or> n = 1"
  shows "case restore L m (concat ess) js of
      None \<Rightarrow> refusal {ReplayStatus.kCorrupt, ReplayStatus.kCapacityExceeded} (replay_contents L P m (contents n ess t) st)
    | Some js' \<Rightarrow> \<exists>st'. tracks st' js' \<and> advanced (length (concat ess)) st st'
        \<and> replay_contents L P m (contents n ess t) st = (if ess = [] \<or> t = [] then (Inr None, st')
            else TornTail (SegmentName (of_nat (n + length (concat (butlast ess))))) (length (records (last ess))) st')"
  using assms
proof (induction ess arbitrary: n st js k)
  case Nil
  then show ?case by (auto simp: advanced_def)
next
  case (Cons es ess)
  have k0: "rr_records (rp_result st) = 0 \<longrightarrow> k = 0"
    using Cons.prems(8,9) unat_of_nat_u64[of k] by auto
  let ?t = "if ess = [] then t else []"
  have one: "case restore L m es js of
      None \<Rightarrow> refusal {ReplayStatus.kCorrupt, ReplayStatus.kCapacityExceeded}
        (ReplayContent L P m (of_nat n, SegmentName (of_nat n)) (ess = []) (records es @ ?t) st)
    | Some js' \<Rightarrow> \<exists>st'. tracks st' js' \<and> advanced (length es) st st'
        \<and> ReplayContent L P m (of_nat n, SegmentName (of_nat n)) (ess = []) (records es @ ?t) st
          = (if ?t = [] then (Inr None, st') else TornTail (SegmentName (of_nat n)) (length (records es)) st')"
    using Cons.prems k0 by (intro ReplayContent_restore) (auto simp: decodable_def)
  show ?case
  proof (cases "restore L m es js")
    case None
    then show ?thesis using one by (auto simp: restore_append refusal_def)
  next
    case (Some js1)
    then obtain st1 where st1: "tracks st1 js1" "advanced (length es) st st1"
      "ReplayContent L P m (of_nat n, SegmentName (of_nat n)) (ess = []) (records es @ ?t) st
        = (if ?t = [] then (Inr None, st1) else TornTail (SegmentName (of_nat n)) (length (records es)) st1)"
      using one by auto
    show ?thesis
    proof (cases "ess = []")
      case True
      obtain r x where "TornTail (SegmentName (of_nat n)) (length (records es)) st1 = (Inr (Some r), x)"
        by (auto simp: TornTail_def refuse_def Refuse_def Let_def)
      then have "replay_contents L P m (contents n (es # ess) t) st
          = (if t = [] then (Inr None, st1) else TornTail (SegmentName (of_nat n)) (length (records es)) st1)"
        using st1(3) True by simp
      then show ?thesis using st1(1,2) Some True by (auto intro!: exI[of _ st1])
    next
      case False
      have "es \<noteq> []" "segments_ok (n + length es) ess" using Cons.prems(2) False by auto
      moreover have "rp_expected st1 = of_nat (n + length es)" "rr_records (rp_result st1) = of_nat (k + length es)"
        using st1(2) Cons.prems(5,8) by (simp_all add: advanced_def)
      ultimately have ih: "case restore L m (concat ess) js1 of
          None \<Rightarrow> refusal {ReplayStatus.kCorrupt, ReplayStatus.kCapacityExceeded}
            (replay_contents L P m (contents (n + length es) ess t) st1)
        | Some js' \<Rightarrow> \<exists>st'. tracks st' js' \<and> advanced (length (concat ess)) st1 st'
            \<and> replay_contents L P m (contents (n + length es) ess t) st1 = (if ess = [] \<or> t = [] then (Inr None, st')
              else TornTail (SegmentName (of_nat (n + length es + length (concat (butlast ess))))) (length (records (last ess))) st')"
        using Cons.prems by (intro Cons.IH[OF st1(1), of "n + length es" "k + length es"]) (auto simp: decodable_def)
      show ?thesis
        using ih st1(3) False advanced_trans[OF st1(2)] by (auto simp: restore_append Some add.assoc split: option.splits)
    qed
  qed
qed

section \<open>The journal in a store\<close>

text \<open>A replay that stopped because an operation of the file system failed.\<close>

definition unread :: "replayed \<Rightarrow> bool" where
  "unread x \<longleftrightarrow> isl (fst x) \<or> refusal {ReplayStatus.kUnreadable} x"

context append_store
begin

text \<open>The failures that stop a replay are excluded in the states of \<open>R\<close>.\<close>

lemma replay_segments_stored:
  assumes "ok w" "stored (files w) d n (bs @ ess) t"
    and reads: "\<And>w p. ok w \<Longrightarrow> R w \<Longrightarrow> files w p \<noteq> None \<Longrightarrow> \<exists>c w'. ReadAll fs p w = (Inr (Inr c), w') \<and> R w'"
  shows "\<exists>x w'. replay_segments L P m fs d
        (map (\<lambda>f. (f, SegmentName f)) (firsts (n + length (concat bs)) ess)) st w = (x, w')
    \<and> (x = replay_contents L P m (contents (n + length (concat bs)) ess t) st \<or> unread x \<and> \<not> R w)"
  using assms(1,2)
proof (induction ess arbitrary: bs st w)
  case Nil
  then show ?case by simp
next
  case (Cons es ess)
  let ?f = "of_nat (n + length (concat bs)) :: u64"
  let ?c = "records es @ (if ess = [] then t else [])"
  obtain rr w1 where r: "ReadAll fs (JoinPath d (SegmentName ?f)) w = (rr, w1)" by fastforce
  have w1: "ok w1" "files w1 = files w" "\<And>c. rr = Inr (Inr c) \<Longrightarrow> c = ?c"
    using ReadAll_law[OF r Cons.prems(1)] stored_segment[OF Cons.prems(2)] by auto
  have R: "R w \<Longrightarrow> R w1 \<and> (\<exists>c. rr = Inr (Inr c))"
    using reads[OF Cons.prems(1), of "JoinPath d (SegmentName ?f)"] r stored_segment[OF Cons.prems(2)] by auto
  consider x where "rr = Inl x" | x where "rr = Inr (Inl x)" | "rr = Inr (Inr ?c)"
    using w1(3) by (metis sum.exhaust)
  then show ?case
  proof cases
    case 3
    have h: "map (\<lambda>f. (f, SegmentName f)) (firsts (n + length (concat bs) + length es) ess) = [] \<longleftrightarrow> ess = []"
      by (cases ess) auto
    obtain y st1 where y: "ReplayContent L P m (?f, SegmentName ?f) (ess = []) ?c st = (y, st1)" by fastforce
    consider x where "y = Inl x" | x where "y = Inr (Some x)" | "y = Inr None" by (metis not_None_eq sum.exhaust)
    then show ?thesis
    proof cases
      case y3: 3
      have e: "firsts (n + length (concat bs)) (es # ess) = ?f # firsts (n + length (concat (bs @ [es]))) ess"
        "contents (n + length (concat bs)) (es # ess) t = ((?f, SegmentName ?f), ?c) # contents (n + length (concat (bs @ [es]))) ess t"
        by (simp_all add: add.assoc)
      have "stored (files w1) d n ((bs @ [es]) @ ess) t" using Cons.prems(2) w1(2) by simp
      from Cons.IH[OF w1(1) this, of st1] R y y3 r h 3 show ?thesis
        unfolding e by (auto simp: ReplaySegment_def add.assoc simp del: of_nat_add)
    qed (use r h y in \<open>simp_all add: ReplaySegment_def 3 del: of_nat_add\<close>)
  qed (use r R in \<open>auto simp: ReplaySegment_def unread_def refuse_def Refuse_def refusal_def Let_def simp del: of_nat_add\<close>)
qed

end

end
