(* ===== verification/Journal_Recovery.thy ===== *)
theory Journal_Recovery
  imports Replay_Journal
begin

text \<open>
  What replay promises. On any bytes at all, a successful replay is the reference fold over some events,
  so every Job it returns was reached by the reducer, and a refused replay returns no Job. On a directory
  that the segment journal wrote, replay returns exactly the Jobs of the committed events, and reports
  the torn tail that a crash left.
\<close>

section \<open>The Jobs of the reference\<close>

text \<open>
  The snapshot of the resident \<open>x\<close> is the result of the reducer on the records of its own Job, from the
  record of its creation on.
\<close>

definition reached_by :: "libs \<Rightarrow> LogicalJobEvent list \<Rightarrow> u64 \<times> Snapshot \<Rightarrow> bool" where
  "reached_by L es x \<longleftrightarrow> (\<exists>earlier created later session effects.
     es = earlier @ created # later \<and> fst x = lje_sequence created \<and> lje_job_id created = job_id (snd x)
     \<and> run L (InitialSnapshot (job_id (snd x)) session)
         (map proposal_of (created # filter (\<lambda>e. lje_job_id e = job_id (snd x)) later)) = Some (snd x, effects))"

lemma run_one: "run L c [p] = accept (Apply L c p)"
  by (simp add: run.simps(2) split: option.split)

lemma restore_job_known:
  assumes "restore_job L (Some s0) e = Some s" "entity_exists s0"
  shows "lje_job_id e = job_id s0 \<and> job_id s = job_id s0 \<and> (\<exists>effects. run L s0 [proposal_of e] = Some (s, effects))"
proof -
  have c: "current_snapshot (Some s0) e = Inr s0"
    using assms by (auto simp: restore_job_def current_snapshot_def split: if_splits)
  then have "ar_rejection (Apply L s0 (proposal_of e)) = None" "s = ar_snapshot (Apply L s0 (proposal_of e))"
    using assms(1) by (auto simp: restore_job_def accept_def split: if_splits)
  then show ?thesis using accepted_identity[of L s0 "proposal_of e"] by (simp add: run_one accept_def)
qed

lemma restore_job_new:
  assumes "restore_job L None e = Some s"
  shows "lje_job_id e = job_id s \<and> (\<exists>session effects. run L (InitialSnapshot (job_id s) session) [proposal_of e] = Some (s, effects))"
proof -
  obtain k where c: "current_snapshot None e = Inr (InitialSnapshot (lje_job_id e) k)"
    using assms by (auto simp: restore_job_def current_snapshot_def split: if_splits)
  then have "ar_rejection (Apply L (InitialSnapshot (lje_job_id e) k) (proposal_of e)) = None"
    "s = ar_snapshot (Apply L (InitialSnapshot (lje_job_id e) k) (proposal_of e))"
    using assms by (auto simp: restore_job_def accept_def split: if_splits)
  moreover from this have "job_id s = lje_job_id e"
    using accepted_identity[of L "InitialSnapshot (lje_job_id e) k" "proposal_of e"] by (simp add: InitialSnapshot_def)
  ultimately show ?thesis by (auto simp: run_one accept_def)
qed

lemma reached_other: "reached_by L es x \<Longrightarrow> lje_job_id e \<noteq> job_id (snd x) \<Longrightarrow> reached_by L (es @ [e]) x"
  unfolding reached_by_def by (elim exE, rule exI, rule exI, rule_tac x = "later @ [e]" in exI) auto

lemma reached_next:
  assumes "reached_by L es (q, s0)" "run L s0 [proposal_of e] = Some (s, effs)" "lje_job_id e = job_id s0" "job_id s = job_id s0"
  shows "reached_by L (es @ [e]) (q, s)"
proof -
  obtain bs c cs k x where r: "es = bs @ c # cs" "q = lje_sequence c" "lje_job_id c = job_id s0"
    "run L (InitialSnapshot (job_id s0) k) (map proposal_of (c # filter (\<lambda>e. lje_job_id e = job_id s0) cs)) = Some (s0, x)"
    using assms(1) by (auto simp: reached_by_def)
  have "run L (InitialSnapshot (job_id s0) k) (map proposal_of (c # filter (\<lambda>e. lje_job_id e = job_id s0) (cs @ [e])))
      = Some (s, x @ effs)"
    using run_append[of L "InitialSnapshot (job_id s0) k" "map proposal_of (c # filter (\<lambda>e. lje_job_id e = job_id s0) cs)"
      "[proposal_of e]"] r(4) assms(2,3) by simp
  then show ?thesis
    unfolding reached_by_def
    by (intro exI[of _ bs] exI[of _ c] exI[of _ "cs @ [e]"] exI[of _ k] exI[of _ "x @ effs"]) (use r assms(3,4) in simp)
qed

lemma transition_exists: "transition s t q s' es \<Longrightarrow> entity_exists s'"
  by (erule transitionE) (auto simp: InitialSnapshot_def)

lemma run_exists: "run L c [p] = Some (s, effs) \<Longrightarrow> entity_exists s"
  by (auto simp: run_Cons dest: transition_exists)

definition restored :: "libs \<Rightarrow> nat \<Rightarrow> LogicalJobEvent list \<Rightarrow> residents \<Rightarrow> bool" where
  "restored L m es js \<longleftrightarrow> (\<forall>x \<in> set js. reached_by L es x \<and> entity_exists (snd x)) \<and> distinct (map ident js) \<and> length js \<le> m"

lemma ident_eq: "ident x = uuid_value j \<longleftrightarrow> job_id (snd x) = j"
  using Uuid.expand by (auto simp: ident_def)

lemma restored_known:
  assumes "restored L m es js" "index_in (uuid_value (lje_job_id e)) (map ident js) = Some i"
    "restore_job L (Some (snd (js ! i))) e = Some s"
  shows "restored L m (es @ [e]) (js[i := (fst (js ! i), s)])"
proof -
  have i: "i < length js" "ident (js ! i) = uuid_value (lje_job_id e)" using index_in_Some[OF assms(2)] by auto
  have x: "reached_by L es (js ! i)" "entity_exists (snd (js ! i))" using assms(1) i(1) by (auto simp: restored_def)
  obtain effs where k: "lje_job_id e = job_id (snd (js ! i))" "job_id s = job_id (snd (js ! i))"
    "run L (snd (js ! i)) [proposal_of e] = Some (s, effs)"
    using restore_job_known[OF assms(3) x(2)] by blast
  have new: "reached_by L (es @ [e]) (fst (js ! i), s)"
    using reached_next[of L es "fst (js ! i)" "snd (js ! i)"] x(1) k by simp
  have ids: "map ident (js[i := (fst (js ! i), s)]) = map ident js"
    using i k(2) by (simp add: map_update ident_def list_update_same_conv)
  have "reached_by L (es @ [e]) y \<and> entity_exists (snd y)" if y: "y \<in> set (js[i := (fst (js ! i), s)])" for y
  proof (cases "y = (fst (js ! i), s)")
    case True
    then show ?thesis using new run_exists[OF k(3)] by simp
  next
    case False
    obtain n where "n < length js" "y = js[i := (fst (js ! i), s)] ! n" using y by (auto simp: in_set_conv_nth)
    with False i(1) have n: "n < length js" "n \<noteq> i" "y = js ! n" by (auto simp: nth_list_update split: if_splits)
    then have "ident y \<noteq> ident (js ! i)" using assms(1) i(1) by (auto simp: restored_def distinct_conv_nth)
    then have "lje_job_id e \<noteq> job_id (snd y)" using i(2) by (auto simp: ident_eq)
    then show ?thesis using reached_other n assms(1) by (auto simp: restored_def)
  qed
  then show ?thesis using assms(1) ids unfolding restored_def by simp
qed

lemma restored_erase:
  assumes "restored L m es js" "v < length js"
  shows "restored L (m - 1) es (erase_at v js)"
proof -
  have "set (erase_at v js) \<subseteq> set js"
    using set_take_subset[of v js] set_drop_subset[of "v + 1" js] by (simp add: erase_at_def)
  then show ?thesis
    using assms by (auto simp: restored_def map_erase_at distinct_erase_at length_erase_at)
qed

lemma restored_new:
  assumes "restored L m es js" "index_in (uuid_value (lje_job_id e)) (map ident js) = None" "restore_job L None e = Some s"
  shows "restored L (m + 1) (es @ [e]) (js @ [(lje_sequence e, s)])"
proof -
  obtain k effs where r: "lje_job_id e = job_id s" "run L (InitialSnapshot (job_id s) k) [proposal_of e] = Some (s, effs)"
    using restore_job_new[OF assms(3)] by blast
  have n: "uuid_value (lje_job_id e) \<notin> set (map ident js)" using assms(2) index_in_None by metis
  have "reached_by L (es @ [e]) (lje_sequence e, s)"
    unfolding reached_by_def
    by (intro exI[of _ es] exI[of _ e] exI[of _ "[]"] exI[of _ k] exI[of _ effs]) (use r in simp)
  moreover have "reached_by L (es @ [e]) x" if "x \<in> set js" for x
  proof -
    have "ident x \<in> set (map ident js)" using that by simp
    then have "ident x \<noteq> uuid_value (lje_job_id e)" using n by metis
    then have "lje_job_id e \<noteq> job_id (snd x)" using ident_eq by metis
    then show ?thesis using reached_other that assms(1) by (simp add: restored_def)
  qed
  moreover have "ident (lje_sequence e, s) = uuid_value (lje_job_id e)" by (simp add: ident_eq r(1))
  ultimately show ?thesis using assms(1) run_exists[OF r(2)] n by (simp add: restored_def)
qed

lemma oldest_bound: "oldest js = Some v \<Longrightarrow> v < length js"
  using OldestClosed_spec[of "length js" "\<lambda>i. Some (map snd js ! i)" "\<lambda>i. map fst js ! i"] by (simp add: oldest_def)

lemma restored_step:
  assumes "restored L m es js" "restore_step L m e js = Some js'"
  shows "restored L m (es @ [e]) js'"
proof (cases "index_in (uuid_value (lje_job_id e)) (map ident js)")
  case (Some i)
  then show ?thesis using restored_known[OF assms(1)] assms(2) by (auto simp: restore_step_def)
next
  case None
  then obtain s where s: "restore_job L None e = Some s" using assms(2) by (auto simp: restore_step_def split: option.splits)
  show ?thesis
  proof (cases "length js < m")
    case True
    then have "restored L (m - 1) es js" using assms(1) by (simp add: restored_def)
    from restored_new[OF this None s] assms(2) None s True show ?thesis by (simp add: restore_step_def)
  next
    case False
    then obtain v where v: "oldest js = Some v" "js' = erase_at v js @ [(lje_sequence e, s)]"
      using assms(2) None s by (auto simp: restore_step_def)
    note b = oldest_bound[OF v(1)]
    have "index_in (uuid_value (lje_job_id e)) (map ident (erase_at v js)) = None"
      using index_in_erase[of "map ident js" v] None assms(1) b by (simp add: map_erase_at restored_def)
    from restored_new[OF restored_erase[OF assms(1) b] this s] b v assms(1) show ?thesis
      by (cases m) (auto simp: restored_def)
  qed
qed

lemma restore_restored: "restore L m es js = Some js' \<Longrightarrow> restored L m bs js \<Longrightarrow> restored L m (bs @ es) js'"
proof (induction es arbitrary: bs js)
  case (Cons e es)
  then show ?case using restored_step[of L m bs js e] Cons.IH[of _ "bs @ [e]"] by (auto split: option.splits)
qed simp

lemma reached_valid:
  assumes "reached_by L es x"
  shows "ValidSnapshot (snd x) \<and> job_inv (snd x)"
proof -
  obtain c ps k effs where r: "run L (InitialSnapshot (job_id (snd x)) k) (proposal_of c # ps) = Some (snd x, effs)"
    using assms by (auto simp: reached_by_def)
  then have "ValidSnapshot (InitialSnapshot (job_id (snd x)) k)" by (auto simp: run_Cons well_formed_def)
  from run_valid[OF r this job_inv_initial] show ?thesis .
qed

section \<open>Replay of any bytes\<close>

text \<open>What a step of the replayer leaves: the state follows the reference on some events, or the result is blank.\<close>

definition follows :: "libs \<Rightarrow> nat \<Rightarrow> Replayer \<Rightarrow> bool" where
  "follows L m st \<longleftrightarrow> (\<exists>es js. restore L m es [] = Some js \<and> tracks st js
     \<and> rr_records (rp_result st) = of_nat (length es) \<and> rr_unresolved (rp_result st) = [])"

definition blank :: "ReplayResult \<Rightarrow> bool" where
  "blank r \<longleftrightarrow> rr_status r \<noteq> ReplayStatus.kReplayed \<and> rr_jobs r = [] \<and> rr_created_sequences r = []
     \<and> rr_unresolved r = [] \<and> rr_segments r = [] \<and> rr_spans r = []"

definition safe :: "libs \<Rightarrow> nat \<Rightarrow> replayed \<Rightarrow> bool" where
  "safe L m x \<longleftrightarrow> (case x of (Inr None, st) \<Rightarrow> follows L m st | (Inr (Some r), _) \<Rightarrow> blank r | (Inl _, _) \<Rightarrow> True)"

lemma safe_simps [simp]:
  "safe L m (Inr None, st) \<longleftrightarrow> follows L m st" "safe L m (Inr (Some r), st) \<longleftrightarrow> blank r" "safe L m (Inl x, st)"
  by (simp_all add: safe_def)

lemma safe_refuse [simp]: "safe L m (refuse status detail st) \<longleftrightarrow> status \<noteq> ReplayStatus.kReplayed"
  by (simp add: refuse_def Refuse_def Let_def blank_def)

lemma safe_torn [simp]: "safe L m (TornTail name k st)"
  by (simp add: TornTail_def)

lemma sound_restore: "ReplayRecord L P before e = Inr (Inr s) \<Longrightarrow> restore_job L before e = Some s"
  using ReplayRecord_sound[of L P before e s] by (auto simp: restore_job_def accept_def)

lemma follows_step:
  assumes "restore L m es [] = Some js" "restore_step L m e js = Some js'" "tracks st1 js'"
    "rr_records (rp_result st1) = of_nat (length es)" "rr_unresolved (rp_result st1) = []"
  shows "follows L m (count_record e st1)"
  unfolding follows_def
  by (intro exI[of _ "es @ [e]"] exI[of _ js'])
    (use assms in \<open>simp add: restore_append count_tracks, simp add: count_record_def Let_def\<close>)

lemma add_job_follows:
  assumes "restore L m es [] = Some js" "tracks st js" "rr_records (rp_result st) = of_nat (length es)"
    "rr_unresolved (rp_result st) = []" "index_in (uuid_value (lje_job_id e)) (map ident js) = None"
    "restore_job L None e = Some s" "uuid_value (job_id s) = uuid_value (lje_job_id e)"
  shows "(length (rr_jobs (rp_result st)) < m \<longrightarrow> follows L m (count_record e (add_job e s k st)))
    \<and> (\<forall>st1. length (rr_jobs (rp_result st)) \<ge> m \<longrightarrow> evict st = Some st1 \<longrightarrow> follows L m (count_record e (add_job e s k st1)))"
proof (intro conjI allI impI)
  note len = assms(2)[unfolded tracks_def]
  { assume "length (rr_jobs (rp_result st)) < m"
    then show "follows L m (count_record e (add_job e s k st))"
      using assms len by (intro follows_step[OF assms(1) _ add_job_tracks[OF assms(2,5,7)]])
        (simp_all add: restore_step_def add_job_def Let_def) }
  fix st1
  assume m: "length (rr_jobs (rp_result st)) \<ge> m" and ev: "evict st = Some st1"
  obtain v where v: "oldest js = Some v" "tracks st1 (erase_at v js)" "v < length js"
    "rr_records (rp_result st1) = rr_records (rp_result st)" "rr_unresolved (rp_result st1) = rr_unresolved (rp_result st)"
    using evict_tracks[OF assms(2)] ev by (cases "oldest js") auto
  have "index_in (uuid_value (lje_job_id e)) (map ident (erase_at v js)) = None"
    using index_in_erase[of "map ident js" v] assms(2,5) v(3) by (simp add: map_erase_at tracks_def)
  from add_job_tracks[OF v(2) this assms(7)] show "follows L m (count_record e (add_job e s k st1))"
    using assms len v m by (intro follows_step[OF assms(1)]) (simp_all add: restore_step_def add_job_def Let_def)
qed

lemma ReplayEvent_follows:
  assumes "follows L m st"
  shows "safe L m (ReplayEvent L P m name e st)"
proof -
  obtain es js where f: "restore L m es [] = Some js" "tracks st js" "rr_records (rp_result st) = of_nat (length es)"
    "rr_unresolved (rp_result st) = []" using assms by (auto simp: follows_def)
  let ?found = "map_of (rp_index_of st) (uuid_value (lje_job_id e))"
  let ?before = "map_option (\<lambda>i. rr_jobs (rp_result st) ! i) ?found"
  have ix: "?found = index_in (uuid_value (lje_job_id e)) (map ident js)" using f(2) by (simp add: tracks_def)
  consider "lje_sequence e \<noteq> rp_expected st" | x where "ReplayRecord L P ?before e = Inl x"
    | y where "ReplayRecord L P ?before e = Inr (Inl y)"
    | s where "lje_sequence e = rp_expected st" "ReplayRecord L P ?before e = Inr (Inr s)" by (metis sum.exhaust)
  then show ?thesis
  proof cases
    case (4 s)
    note r = sound_restore[OF 4(2)]
    let ?k = "length (rr_segments (rp_result st)) - 1"
    show ?thesis
    proof (cases ?found)
      case (Some i)
      then have i: "index_in (uuid_value (lje_job_id e)) (map ident js) = Some i" using ix by simp
      have b: "?before = Some (snd (js ! i))" "ident (js ! i) = uuid_value (lje_job_id e)"
        using f(2) Some index_in_Some[OF i] by (auto simp: tracks_def)
      have "uuid_value (job_id s) = uuid_value (lje_job_id e)"
        using restore_job_identity[OF r] b by (simp add: ident_def)
      note t = update_job_tracks[OF f(2) i this, of ?k]
      have "follows L m (count_record e (update_job i s ?k st))"
        by (rule follows_step[OF f(1) _ t]) (use i r b f(3,4) in \<open>simp_all add: restore_step_def update_job_def Let_def\<close>)
      then show ?thesis using 4 Some by (simp add: ReplayEvent_def Let_def)
    next
      case None
      then have i: "index_in (uuid_value (lje_job_id e)) (map ident js) = None" using ix by simp
      have s: "uuid_value (job_id s) = uuid_value (lje_job_id e)" using restore_job_identity[OF r] None by simp
      have "restore_job L None e = Some s" using r None by simp
      from add_job_follows[OF f i this s, of ?k] show ?thesis
        using 4 None by (auto simp: ReplayEvent_def Let_def split: option.splits)
    qed
  qed (auto simp: ReplayEvent_def Let_def)
qed

lemma ReplayLine_follows: "follows L m st \<Longrightarrow> safe L m (ReplayLine L P m name offset line st)"
  using ReplayEvent_follows by (auto simp: ReplayLine_def Let_def split: DecodeStatus.split option.split)

lemma replay_lines_follows: "follows L m st \<Longrightarrow> safe L m (replay_lines L P m name highest content offset st)"
proof (induction L P m name highest content offset st rule: replay_lines.induct)
  case (1 L P m name highest content offset st)
  note ih = 1(1) and f = 1(2)
  show ?case
  proof (cases "offset < length content")
    case True
    show ?thesis
    proof (cases "find_from LF content offset")
      case None
      then show ?thesis using True by (subst replay_lines.simps) simp
    next
      case (Some i)
      let ?line = "take (i + 1 - offset) (drop offset content)"
      obtain x st1 where r: "ReplayLine L P m name offset ?line st = (x, st1)" by fastforce
      then have sf: "safe L m (x, st1)" using ReplayLine_follows[OF f] by metis
      consider y where "x = Inl y" | y where "x = Inr (Some y)" | "x = Inr None" by (metis not_None_eq sum.exhaust)
      then show ?thesis
        by cases (use True Some r sf ih[OF True Some] in
          \<open>auto simp: AfterExhaustion_def replay_lines.simps[of L P m name highest content offset st]\<close>)
    qed
  next
    case False
    then show ?thesis using f by (subst replay_lines.simps) simp
  qed
qed

lemma follows_update [simp]:
  "follows L m (st\<lparr>rp_result := (rp_result st)\<lparr>rr_segments := x\<rparr>\<rparr>) = follows L m st"
  "follows L m (st\<lparr>rp_expected := n\<rparr>) = follows L m st"
  by (simp_all add: follows_def tracks_def)

lemma ReplayContent_follows: "follows L m st \<Longrightarrow> safe L m (ReplayContent L P m segment highest content st)"
  by (auto simp: ReplayContent_def split: prod.split intro!: replay_lines_follows)

lemma replay_segments_follows: "follows L m st \<Longrightarrow> safe L m (fst (replay_segments L P m fs d segments st w))"
proof (induction segments arbitrary: st w)
  case (Cons segment segments)
  obtain x st1 w1 where r: "ReplaySegment L P m fs d segment (segments = []) st w = ((x, st1), w1)"
    by (metis prod.exhaust)
  have "safe L m (fst (ReplaySegment L P m fs d segment (segments = []) st w))"
    using ReplayContent_follows[OF Cons.prems] by (auto simp: ReplaySegment_def split: prod.split sum.split)
  then have sf: "safe L m (x, st1)" by (simp add: r)
  consider y where "x = Inl y" | y where "x = Inr (Some y)" | "x = Inr None" by (metis not_None_eq sum.exhaust)
  then show ?case using r sf Cons.IH by cases simp_all
qed simp

lemma follows_new: "follows L m new_Replayer"
  unfolding follows_def by (intro exI[of _ "[]"]) (simp add: new_Replayer_def tracks_def)

definition replayed_from :: "libs \<Rightarrow> nat \<Rightarrow> LogicalJobEvent list \<Rightarrow> residents \<Rightarrow> ReplayResult \<Rightarrow> bool" where
  "replayed_from L m es js r \<longleftrightarrow> restore L m es [] = Some js \<and> rr_jobs r = map snd js \<and> rr_created_sequences r = map fst js
     \<and> rr_records r = of_nat (length es) \<and> rr_unresolved r = map job_id (filter IsUnresolved (map snd js))"

lemma finish_tracks:
  assumes "restore L m es [] = Some js" "tracks st js" "rr_records (rp_result st) = of_nat (length es)"
    "rr_unresolved (rp_result st) = []"
  shows "replayed_from L m es js (rp_result (finish_replay st))"
  using assms by (simp add: replayed_from_def tracks_def finish_replay_def Let_def)

lemma finish_status [simp]:
  "rr_status (rp_result (finish_replay st)) = ReplayStatus.kReplayed"
  "rr_next_sequence (rp_result (finish_replay st)) = rp_expected st"
  by (simp_all add: finish_replay_def Let_def)

lemma finish_follows: "follows L m st \<Longrightarrow> \<exists>es js. replayed_from L m es js (rp_result (finish_replay st))"
  unfolding follows_def using finish_tracks by blast

lemma blank_Refuse [simp]: "blank (fst (Refuse status detail st)) \<longleftrightarrow> status \<noteq> ReplayStatus.kReplayed"
  by (simp add: Refuse_def Let_def blank_def)

definition sound :: "libs \<Rightarrow> nat \<Rightarrow> ReplayResult \<Rightarrow> bool" where
  "sound L m r \<longleftrightarrow> blank r \<or> rr_status r = ReplayStatus.kReplayed \<and> (\<exists>es js. replayed_from L m es js r)"

lemma sound_Refuse [simp]: "Refuse status detail st = (r, st1) \<Longrightarrow> status \<noteq> ReplayStatus.kReplayed \<Longrightarrow> sound L m r"
  by (metis blank_Refuse fst_conv sound_def)

lemma Run_sound:
  assumes "Run L P m fs d st w = ((Inr r, st'), w')" "follows L m st"
  shows "sound L m r"
proof -
  obtain rl w1 where l: "FileSystem.List fs d w = (rl, w1)" by fastforce
  consider x where "rl = Inl x" | x where "rl = Inr (Inl x)"
    | names y where "rl = Inr (Inr names)" "scan_segments SegmentFirst names = Inl y"
    | names ss where "rl = Inr (Inr names)" "scan_segments SegmentFirst names = Inr ss" by (metis sum.exhaust)
  then show ?thesis
  proof cases
    case (4 names ss)
    let ?st = "st\<lparr>rp_expected := (if sort_key fst ss = [] then 1 else fst (hd (sort_key fst ss)))\<rparr>"
    obtain x st1 w2 where r: "replay_segments L P m fs d (sort_key fst ss) ?st w1 = ((x, st1), w2)"
      by (metis prod.exhaust)
    have "follows L m ?st" using assms(2) by simp
    from replay_segments_follows[OF this, of P fs d "sort_key fst ss" w1] have sf: "safe L m (x, st1)" by (simp only: r fst_conv)
    consider y where "x = Inl y" | y where "x = Inr (Some y)" | "x = Inr None" by (metis not_None_eq sum.exhaust)
    then show ?thesis
      using assms(1) sf finish_follows[of L m st1] r by cases (auto simp: Run_def l 4 Let_def sound_def)
  qed (use assms(1) l in \<open>auto simp: Run_def split: prod.splits\<close>)
qed

lemma ReplayJournal_sound: "sound L m (fst (ReplayJournal L P m fs d w))"
proof -
  obtain x st w1 where r: "Run L P m fs d new_Replayer w = ((x, st), w1)" by (metis prod.exhaust)
  consider t where "x = Inl (std_exception t)" | "x = Inl unknown_exception" | r where "x = Inr r"
    by (metis exn.exhaust sum.exhaust)
  then show ?thesis
    using r Run_sound[of L P m fs d new_Replayer w _ st w1, OF _ follows_new]
    by cases (simp_all add: ReplayJournal_def sound_def)
qed

section \<open>Replay of a journal\<close>

text \<open>What replay returns for the segments \<open>ess\<close>, of which the last ends with the torn part \<open>t\<close>.\<close>

definition recovered :: "libs \<Rightarrow> nat \<Rightarrow> nat \<Rightarrow> LogicalJobEvent list list \<Rightarrow> string \<Rightarrow> ReplayResult \<Rightarrow> bool" where
  "recovered L m n ess t r \<longleftrightarrow>
     (case restore L m (concat ess) [] of
        None \<Rightarrow> rr_status r \<in> {ReplayStatus.kCorrupt, ReplayStatus.kCapacityExceeded}
      | Some js \<Rightarrow>
          if t = []
          then rr_status r = ReplayStatus.kReplayed \<and> replayed_from L m (concat ess) js r
            \<and> rr_next_sequence r = of_nat (n + length (concat ess))
          else rr_status r = ReplayStatus.kTornTail
            \<and> rr_torn_segment r = SegmentName (of_nat (n + length (concat (butlast ess))))
            \<and> rr_torn_offset r = of_nat (length (records (last ess))))"

lemma contents_recovered:
  assumes "segments_ok n ess" "decodable L (concat ess)" "\<forall>e \<in> set (concat ess). prints_payload L P e"
    "n + length (concat ess) < 2 ^ 64" "LF \<notin> set t" "ess = [] \<longrightarrow> n = 1 \<and> t = []" "concat ess = [] \<and> t = [] \<longrightarrow> n = 1"
    "replay_contents L P m (contents n ess t) (new_Replayer\<lparr>rp_expected := of_nat n\<rparr>) = (x, st)"
  shows "case x of Inl _ \<Rightarrow> False | Inr (Some r) \<Rightarrow> recovered L m n ess t r
    | Inr None \<Rightarrow> recovered L m n ess t (rp_result (finish_replay st))"
proof -
  let ?st = "new_Replayer\<lparr>rp_expected := of_nat n\<rparr>"
  have st: "tracks ?st []" "rp_expected ?st = of_nat n" "rr_records (rp_result ?st) = of_nat 0" "rr_unresolved (rp_result ?st) = []"
    by (simp_all add: new_Replayer_def tracks_def)
  note c = contents_restore[OF st(1) assms(1-3) st(2) assms(4,5) st(3), of m, unfolded assms(8)]
  show ?thesis
  proof (cases "restore L m (concat ess) []")
    case None
    then show ?thesis using c assms(4,7) by (auto simp: refusal_def recovered_def)
  next
    case (Some js)
    then obtain st' where s: "tracks st' js" "advanced (length (concat ess)) ?st st'"
      "(x, st) = (if ess = [] \<or> t = [] then (Inr None, st')
         else TornTail (SegmentName (of_nat (n + length (concat (butlast ess))))) (length (records (last ess))) st')"
      using c assms(4,7) by auto
    have a: "rp_expected st' = of_nat (n + length (concat ess))" "rr_records (rp_result st') = of_nat (length (concat ess))"
      "rr_unresolved (rp_result st') = []" using s(2) st by (simp_all add: advanced_def)
    show ?thesis
    proof (cases "t = []")
      case True
      then show ?thesis using s(3) a(1) Some finish_tracks[OF Some s(1) a(2,3)] by (simp add: recovered_def)
    next
      case False
      then show ?thesis using s(3) Some assms(6)
        by (auto simp: TornTail_def refuse_def Refuse_def Let_def recovered_def simp del: of_nat_add)
    qed
  qed
qed

context append_store
begin

lemma ReplayJournal_stored:
  assumes "ok w" "stored (files w) d n ess t" "decodable L (concat ess)" "\<forall>e \<in> set (concat ess). prints_payload L P e"
    "n + length (concat ess) < 2 ^ 64" "ess = [] \<longrightarrow> n = 1 \<and> t = []" "concat ess = [] \<and> t = [] \<longrightarrow> n = 1"
    and reads: "\<And>w p. ok w \<Longrightarrow> R w \<Longrightarrow> files w p \<noteq> None \<Longrightarrow> \<exists>c w'. ReadAll fs p w = (Inr (Inr c), w') \<and> R w'"
    and lists: "R w \<Longrightarrow> \<exists>names w'. FileSystem.List fs d w = (Inr (Inr names), w') \<and> R w'"
  shows "recovered L m n ess t (fst (ReplayJournal L P m fs d w))
    \<or> rr_status (fst (ReplayJournal L P m fs d w)) = ReplayStatus.kUnreadable \<and> \<not> R w"
proof -
  obtain rl w1 where l: "FileSystem.List fs d w = (rl, w1)" by fastforce
  consider x where "rl = Inl x" | x where "rl = Inr (Inl x)" | names where "rl = Inr (Inr names)" by (metis sum.exhaust)
  then show ?thesis
  proof cases
    case (3 names)
    obtain ss where ss: "scan_segments SegmentFirst names = Inr ss" "sort_key fst ss = map (\<lambda>f. (f, SegmentName f)) (firsts n ess)"
      using listed_segments[OF l[unfolded 3] assms(1,2), of SegmentFirst] SegmentFirst_eq by metis
    have st: "new_Replayer\<lparr>rp_expected := (if sort_key fst ss = [] then 1 else fst (hd (sort_key fst ss)))\<rparr>
      = new_Replayer\<lparr>rp_expected := of_nat n\<rparr>" using assms(6) by (cases ess) (auto simp: ss(2))
    have w1: "ok w1" "stored (files w1) d n ([] @ ess) t" "R w \<Longrightarrow> R w1" using List_law[OF l assms(1)] assms(2) lists l by auto
    from replay_segments_stored[where R = R, OF w1(1,2) reads, of L P m "new_Replayer\<lparr>rp_expected := of_nat n\<rparr>"]
    obtain x st2 w2 where r: "replay_segments L P m fs d (sort_key fst ss) (new_Replayer\<lparr>rp_expected := of_nat n\<rparr>) w1 = ((x, st2), w2)"
      "(x, st2) = replay_contents L P m (contents n ess t) (new_Replayer\<lparr>rp_expected := of_nat n\<rparr>) \<or> unread (x, st2) \<and> \<not> R w1"
      unfolding ss(2) by auto
    have run: "Run L P m fs d new_Replayer w = (case x of Inl y \<Rightarrow> ((Inl y, st2), w2)
      | Inr (Some y) \<Rightarrow> ((Inr y, st2), w2) | Inr None \<Rightarrow> ((Inr (rp_result (finish_replay st2)), finish_replay st2), w2))"
      using r(1) unfolding Run_def l 3 by (simp add: ss(1) Let_def st split: sum.split option.split)
    from r(2) show ?thesis
    proof
      assume "(x, st2) = replay_contents L P m (contents n ess t) (new_Replayer\<lparr>rp_expected := of_nat n\<rparr>)"
      from contents_recovered[OF _ assms(3-5) _ assms(6,7) this[symmetric]] assms(2) run show ?thesis
        by (auto simp: ReplayJournal_def stored_def split: sum.splits option.splits)
    next
      assume "unread (x, st2) \<and> \<not> R w1"
      then show ?thesis using run w1(3)
        by (auto simp: ReplayJournal_def unread_def refusal_def Refuse_def Let_def split: sum.splits option.splits exn.splits)
    qed
  qed (use l lists in \<open>auto simp: ReplayJournal_def Run_def Refuse_def Let_def split: exn.splits\<close>)
qed

end

section \<open>What replay promises\<close>

text \<open>
  C2. Replay restores what was committed. On a readable directory that holds the events \<open>concat ess\<close>
  in the layout of the segment journal, \<^verbatim>\<open>ReplayJournal\<close> replays exactly these events: it returns the
  Jobs of the reference fold in the order of their creation, the unresolved ones among them and the number
  of the next event. If the last segment ends with a torn record, it refuses and names the segment and the byte
  where the tear begins. It finds the journal corrupt or too large exactly when the reference has no result.
\<close>

theorem replay_restores:
  assumes "readable_store fs files open_path ok readable" "ok w" "readable d w" "stored (files w) d n ess t"
    "decodable L (concat ess)" "\<forall>e \<in> set (concat ess). prints_payload L P e"
    "n + length (concat ess) < 2 ^ 64" "concat ess = [] \<and> t = [] \<longrightarrow> n = 1"
  shows "recovered L m n ess t (fst (ReplayJournal L P m fs d w))"
proof -
  note store = readable_store.axioms(1)[OF assms(1)]
  have "ess = [] \<longrightarrow> n = 1 \<and> t = []" using assms(4,8) by (auto simp: stored_def)
  from append_store.ReplayJournal_stored[OF store assms(2,4-7) this assms(8), of "readable d"]
  show ?thesis
    using readable_store.readable_ReadAll[OF assms(1)] readable_store.readable_List[OF assms(1,2)] assms(3) by blast
qed

text \<open>
  C5. On any directory, whatever its bytes, replay returns at most \<open>m\<close> Jobs, and every one is a snapshot
  that the reducer reaches from the initial snapshot of its Job by the proposals of that Job's own records,
  in the order in which some list of events holds them, starting with its creation. In particular each satisfies
  \<^verbatim>\<open>ValidSnapshot\<close>.
\<close>

theorem replayed_jobs_are_reached:
  "\<exists>es js. rr_jobs (fst (ReplayJournal L P m fs d w)) = map snd js
     \<and> rr_created_sequences (fst (ReplayJournal L P m fs d w)) = map fst js \<and> length js \<le> m
     \<and> list_all (reached_by L es) js \<and> list_all ValidSnapshot (map snd js)"
proof -
  let ?r = "fst (ReplayJournal L P m fs d w)"
  consider "blank ?r" | es js where "replayed_from L m es js ?r"
    using ReplayJournal_sound[of L m P fs d w] by (auto simp: sound_def)
  then show ?thesis
  proof cases
    case 1
    then show ?thesis by (intro exI[of _ "[]"]) (simp add: blank_def)
  next
    case (2 es js)
    then have "restored L m es js"
      using restore_restored[of L m es "[]" js "[]"] by (simp add: replayed_from_def restored_def)
    then show ?thesis
      using 2 reached_valid[of L es]
      by (intro exI[of _ es] exI[of _ js]) (auto simp: replayed_from_def restored_def list_all_iff)
  qed
qed

text \<open>
  A refused replay hands nothing on: a result with a status other than replayed holds no Job, no
  sequence, no unresolved Job, no segment and no span, on every path of refusal, exceptions included.
\<close>

theorem refused_replay_is_blank:
  "rr_status (fst (ReplayJournal L P m fs d w)) = ReplayStatus.kReplayed
   \<or> rr_jobs (fst (ReplayJournal L P m fs d w)) = [] \<and> rr_created_sequences (fst (ReplayJournal L P m fs d w)) = []
     \<and> rr_unresolved (fst (ReplayJournal L P m fs d w)) = [] \<and> rr_segments (fst (ReplayJournal L P m fs d w)) = []
     \<and> rr_spans (fst (ReplayJournal L P m fs d w)) = []"
  using ReplayJournal_sound[of L m P fs d w] by (auto simp: sound_def blank_def)

text \<open>
  C4. Recovery after a commit. Let the journal be open on the events \<open>concat ess\<close>, and let one commit of
  \<open>e\<close> return. A replay of the directory that this commit left restores the events and \<open>e\<close> after
  a committed result, exactly the old events after a definite failure, and after an unknown outcome either the
  events and \<open>e\<close>, or it reports the tear behind the old events. A committed event is never lost.
\<close>

theorem replay_after_commit:
  assumes "readable_store fs files open_path ok readable" "ok w" "journal_at files open_path j w n ess"
    "Commit fs mutex_ok e j w = Some (r, j', w')" "readable (sj_directory j) w'"
    "decodable L (concat ess @ [e])" "\<forall>x \<in> set (concat ess @ [e]). prints_payload L P x"
    "n + length (concat ess) + 1 < 2 ^ 64" "concat ess = [] \<longrightarrow> n = 1"
  shows "\<exists>ess' t. recovered L m n ess' t (fst (ReplayJournal L P m fs (sj_directory j) w'))
    \<and> (case r of
         LogicalCommitResult.kCommitted \<Rightarrow> t = [] \<and> concat ess' = concat ess @ [e]
       | LogicalCommitResult.kDefiniteFailure \<Rightarrow> t = [] \<and> concat ess' = concat ess
       | LogicalCommitResult.kOutcomeUnknown \<Rightarrow> t = [] \<and> concat ess' = concat ess @ [e] \<or> t \<noteq> [] \<and> concat ess' = concat ess)"
proof -
  note store = readable_store.axioms(1)[OF assms(1)]
  have ok: "ok w'" using append_store.Commit_effect[OF store assms(4,2) append_store.journal_has_active[OF store assms(3)]] by blast
  obtain ess' t where s: "stored (files w') (sj_directory j) n ess' t"
    and c: "case r of
         LogicalCommitResult.kCommitted \<Rightarrow> t = [] \<and> concat ess' = concat ess @ [e]
       | LogicalCommitResult.kDefiniteFailure \<Rightarrow> t = [] \<and> concat ess' = concat ess
       | LogicalCommitResult.kOutcomeUnknown \<Rightarrow> t = [] \<and> concat ess' = concat ess @ [e] \<or> t \<noteq> [] \<and> concat ess' = concat ess"
    using append_store.Commit_stored[OF store assms(4,2,3)] by (cases r) auto
  then have es: "concat ess' = concat ess \<or> concat ess' = concat ess @ [e]" by (cases r) auto
  then have n: "concat ess' = [] \<longrightarrow> n = 1" using assms(9) by (metis append_is_Nil_conv not_Cons_self2)
  moreover have "ess' = [] \<longrightarrow> t = []" using s by (simp add: stored_def)
  ultimately have n1: "ess' = [] \<longrightarrow> n = 1 \<and> t = []" "concat ess' = [] \<and> t = [] \<longrightarrow> n = 1"
    by (metis concat.simps(1))+
  have "recovered L m n ess' t (fst (ReplayJournal L P m fs (sj_directory j) w'))"
    using append_store.ReplayJournal_stored[OF store ok s _ _ _ n1, of L P "readable (sj_directory j)" m]
      readable_store.readable_ReadAll[OF assms(1)] readable_store.readable_List[OF assms(1) ok] assms(5-8) es
    by (elim disjE) (simp_all add: decodable_def)
  with c show ?thesis by blast
qed

section \<open>Witnesses\<close>

definition recovery_libs :: libs where
  "recovery_libs = table_libs [event_doc sample_event, payload_doc (lje_payload sample_event)]"

definition print_sample :: "string \<Rightarrow> exn + string" where
  "print_sample bytes = Inr (render (payload_doc (lje_payload sample_event)))"

lemma sample_recovery:
  "decodable recovery_libs [sample_event]" "prints_payload recovery_libs print_sample sample_event"
proof -
  have "reads_back recovery_libs (event_doc sample_event)" by code_simp
  then show "decodable recovery_libs [sample_event]" by (simp add: decodable_def)
  have "NUL \<notin> set (render (payload_doc (lje_payload sample_event)))" by code_simp
  moreover have "case json_parse recovery_libs (render (payload_doc (lje_payload sample_event))) of
      Some j \<Rightarrow> same_json (payload_doc (lje_payload sample_event)) j | None \<Rightarrow> False" by code_simp
  ultimately show "prints_payload recovery_libs print_sample sample_event"
    by (simp add: prints_payload_def print_sample_def)
qed

lemma sample_accepted:
  "accept (Apply L (initial sample_job) sample_created_proposal) = Some ((initial sample_job)\<lparr>entity_exists := True\<rparr>, [])"
proof -
  have "run L (initial sample_job) [sample_created_proposal] = Some ((initial sample_job)\<lparr>entity_exists := True\<rparr>, [])"
    using created[of "initial sample_job" sample_job] initial_valid[OF sample_job_uuid] sample_job_uuid
    by (auto simp: run_Cons well_formed_def sample_created_proposal_def ValidInternalPayload_def InitialSnapshot_def enum_defs)
  then show ?thesis by (simp add: run_one)
qed

lemma sample_restored:
  "restore L 4 [sample_event] [] = Some [(1, (initial sample_job)\<lparr>entity_exists := True\<rparr>)]"
proof -
  have "proposal_of sample_event = sample_created_proposal"
    by (simp add: proposal_of_def sample_event_def Envelope_def sample_created_proposal_def)
  moreover have "current_snapshot None sample_event = Inr (initial sample_job)"
    by (simp add: current_snapshot_def sample_event_def Envelope_def sample_created_proposal_def)
  ultimately have "restore_job L None sample_event = Some ((initial sample_job)\<lparr>entity_exists := True\<rparr>)"
    by (simp add: restore_job_def sample_accepted)
  then show ?thesis by (simp add: restore_step_def sample_event_def Envelope_def)
qed

lemma sample_committed:
  "\<exists>j' w'. Commit memory_fs True sample_event sample_journal empty_memory = Some (LogicalCommitResult.kCommitted, j', w')
     \<and> mem_ok w' \<and> mem_readable ''j'' w'"
proof -
  obtain j' w' where c: "Commit memory_fs True sample_event sample_journal empty_memory
      = Some (LogicalCommitResult.kCommitted, j', w')"
    using commit_healthy[OF sample_state(1-3) sample_event_encodes sample_state(6,7)] by blast
  have "mem_readable ''j'' empty_memory" by (simp add: mem_readable_def empty_memory_def)
  from mem_kept.Commit_effect[OF c _ sample_state(5), of "''j''"] this sample_state(4) c show ?thesis by blast
qed

lemma sample_directory: "sj_directory sample_journal = ''j''"
  by (simp add: sample_journal_def)

theorem replay_after_commit_witness:
  "\<exists>j' w'. Commit memory_fs True sample_event sample_journal empty_memory = Some (LogicalCommitResult.kCommitted, j', w')
   \<and> rr_status (fst (ReplayJournal recovery_libs print_sample 4 memory_fs ''j'' w')) = ReplayStatus.kReplayed
   \<and> rr_jobs (fst (ReplayJournal recovery_libs print_sample 4 memory_fs ''j'' w')) = [(initial sample_job)\<lparr>entity_exists := True\<rparr>]
   \<and> rr_next_sequence (fst (ReplayJournal recovery_libs print_sample 4 memory_fs ''j'' w')) = 2"
proof -
  obtain j' w' where c: "Commit memory_fs True sample_event sample_journal empty_memory
      = Some (LogicalCommitResult.kCommitted, j', w')" "mem_readable ''j'' w'" using sample_committed by blast
  from replay_after_commit[OF mem_read.readable_store_axioms sample_state(4) fresh_journal(2) c(1), of recovery_libs print_sample 4]
  obtain ess' where r: "recovered recovery_libs 4 1 ess' [] (fst (ReplayJournal recovery_libs print_sample 4 memory_fs ''j'' w'))"
    and e: "concat ess' = [sample_event]"
    using sample_recovery c(2) by (auto simp: sample_directory)
  have "restore recovery_libs 4 (concat ess') [] = Some [(1, (initial sample_job)\<lparr>entity_exists := True\<rparr>)]"
    unfolding e by (rule sample_restored)
  with r have "rr_status (fst (ReplayJournal recovery_libs print_sample 4 memory_fs ''j'' w')) = ReplayStatus.kReplayed
   \<and> rr_jobs (fst (ReplayJournal recovery_libs print_sample 4 memory_fs ''j'' w')) = [(initial sample_job)\<lparr>entity_exists := True\<rparr>]
   \<and> rr_next_sequence (fst (ReplayJournal recovery_libs print_sample 4 memory_fs ''j'' w')) = of_nat (1 + length (concat ess'))"
    by (simp add: recovered_def replayed_from_def)
  with c(1) e show ?thesis by auto
qed

theorem replay_restores_witness:
  "\<exists>w ess. stored (mem_files w) ''j'' 1 ess [] \<and> concat ess = [sample_event]
   \<and> recovered recovery_libs 4 1 ess [] (fst (ReplayJournal recovery_libs print_sample 4 memory_fs ''j'' w))"
proof -
  obtain j' w' where c: "Commit memory_fs True sample_event sample_journal empty_memory
      = Some (LogicalCommitResult.kCommitted, j', w')" "mem_ok w'" "mem_readable ''j'' w'" using sample_committed by blast
  from mem.Commit_stored[OF c(1) sample_state(4) fresh_journal(2)] obtain ess where
    s: "stored (mem_files w') ''j'' 1 ess []" "concat ess = [sample_event]" by (auto simp: sample_directory)
  from replay_restores[OF mem_read.readable_store_axioms c(2,3) s(1), of recovery_libs print_sample 4] s sample_recovery
  show ?thesis by auto
qed

end
