(* ===== verification/Maintenance_Flow.thy ===== *)
theory Maintenance_Flow
  imports File_System
begin

text \<open>
  The control flow of the maintenance tools (\<^verbatim>\<open>src/journal/maintenance.cpp\<close>). An operation of the classes
  \<^verbatim>\<open>Quarantine\<close> and \<^verbatim>\<open>Prune\<close> works on their result and on the file system; it goes on with a value, stops because
  the tool returns its result, or throws. \<open>None\<close> is a loop that never ends. The rules of \<open>meets\<close> are a
  small program logic for these operations.
\<close>

section \<open>Operations\<close>

datatype 'a flow = Thrown exn | Stopped | Went 'a

type_synonym ('r, 'w, 'a) op = "'r \<times> 'w \<Rightarrow> ('a flow \<times> 'r \<times> 'w) option"

definition go :: "'a \<Rightarrow> ('r, 'w, 'a) op" where
  "go a s = Some (Went a, s)"

definition stop :: "('r, 'w, 'a) op" where
  "stop s = Some (Stopped, s)"

definition andthen :: "('r, 'w, 'a) op \<Rightarrow> ('a \<Rightarrow> ('r, 'w, 'b) op) \<Rightarrow> ('r, 'w, 'b) op" where
  "andthen m f s =
     (case m s of
        None \<Rightarrow> None
      | Some (Thrown x, s1) \<Rightarrow> Some (Thrown x, s1)
      | Some (Stopped, s1) \<Rightarrow> Some (Stopped, s1)
      | Some (Went a, s1) \<Rightarrow> f a s1)"

text \<open>A call of the file system that may throw, one that is \<^verbatim>\<open>noexcept\<close>, and a loop of such calls.\<close>

definition call :: "('w \<Rightarrow> (exn + 'a) \<times> 'w) \<Rightarrow> ('r, 'w, 'a) op" where
  "call f s = (case f (snd s) of (Inl x, w) \<Rightarrow> Some (Thrown x, fst s, w) | (Inr a, w) \<Rightarrow> Some (Went a, fst s, w))"

definition call_noexcept :: "('w \<Rightarrow> 'a \<times> 'w) \<Rightarrow> ('r, 'w, 'a) op" where
  "call_noexcept f s = (case f (snd s) of (a, w) \<Rightarrow> Some (Went a, fst s, w))"

definition call_loop :: "('w \<Rightarrow> ('a \<times> 'w) option) \<Rightarrow> ('r, 'w, 'a) op" where
  "call_loop f s = (case f (snd s) of None \<Rightarrow> None | Some (a, w) \<Rightarrow> Some (Went a, fst s, w))"

definition update :: "('r \<Rightarrow> 'r) \<Rightarrow> ('r, 'w, unit) op" where
  "update g s = Some (Went (), g (fst s), snd s)"

definition current :: "('r, 'w, 'r) op" where
  "current s = Some (Went (fst s), s)"

text \<open>A destructor that runs on every exit.\<close>

definition scoped :: "('w \<Rightarrow> 'w) \<Rightarrow> ('r, 'w, 'a) op \<Rightarrow> ('r, 'w, 'a) op" where
  "scoped c m s = (case m s of None \<Rightarrow> None | Some (x, r, w) \<Rightarrow> Some (x, r, c w))"

fun each :: "('a \<Rightarrow> ('r, 'w, unit) op) \<Rightarrow> 'a list \<Rightarrow> ('r, 'w, unit) op" where
  "each f [] = go ()"
| "each f (x # xs) = andthen (f x) (\<lambda>_. each f xs)"

section \<open>Rules\<close>

text \<open>
  From a state of \<open>A\<close> the operation goes on with a value and a state of \<open>B\<close>, or leaves in a state of
  \<open>E\<close>, whose first argument tells whether it threw.
\<close>

fun lands :: "('a \<Rightarrow> 'r \<Rightarrow> 'w \<Rightarrow> bool) \<Rightarrow> (bool \<Rightarrow> 'r \<Rightarrow> 'w \<Rightarrow> bool) \<Rightarrow> ('a flow \<times> 'r \<times> 'w) option \<Rightarrow> bool" where
  "lands B E None = True"
| "lands B E (Some (Went a, r, w)) = B a r w"
| "lands B E (Some (Stopped, r, w)) = E False r w"
| "lands B E (Some (Thrown x, r, w)) = E True r w"

definition meets ::
  "('r \<Rightarrow> 'w \<Rightarrow> bool) \<Rightarrow> ('r, 'w, 'a) op \<Rightarrow> ('a \<Rightarrow> 'r \<Rightarrow> 'w \<Rightarrow> bool) \<Rightarrow> (bool \<Rightarrow> 'r \<Rightarrow> 'w \<Rightarrow> bool) \<Rightarrow> bool" where
  "meets A m B E \<longleftrightarrow> (\<forall>r w. A r w \<longrightarrow> lands B E (m (r, w)))"

named_theorems meets_rules

lemma landed_cases:
  obtains "x = None" | a r w where "x = Some (Went a, r, w)" | r w where "x = Some (Stopped, r, w)"
    | e r w where "x = Some (Thrown e, r, w)"
  by (metis flow.exhaust option.exhaust prod_cases3)

lemma meets_go [meets_rules]: "(\<And>r w. A r w \<Longrightarrow> B a r w) \<Longrightarrow> meets A (go a) B E"
  by (simp add: meets_def go_def)

lemma meets_stop [meets_rules]: "(\<And>r w. A r w \<Longrightarrow> E False r w) \<Longrightarrow> meets A stop B E"
  by (simp add: meets_def stop_def)

lemma meets_andthen [meets_rules]:
  assumes "meets A m C E" "\<And>a. meets (C a) (f a) B E"
  shows "meets A (andthen m f) B E"
  unfolding meets_def
proof (intro allI impI)
  fix r w assume "A r w"
  then have l: "lands C E (m (r, w))" using assms(1) by (simp add: meets_def)
  show "lands B E (andthen m f (r, w))"
    by (cases rule: landed_cases[of "m (r, w)"]) (use l assms(2) in \<open>simp_all add: andthen_def meets_def\<close>)
qed

lemma meets_call:
  assumes "\<And>r w a w'. A r w \<Longrightarrow> f w = (Inr a, w') \<Longrightarrow> B a r w'" "\<And>r w x w'. A r w \<Longrightarrow> f w = (Inl x, w') \<Longrightarrow> E True r w'"
  shows "meets A (call f) B E"
  using assms by (auto simp: meets_def call_def split: prod.splits sum.splits)

lemma meets_noexcept:
  "(\<And>r w a w'. A r w \<Longrightarrow> f w = (a, w') \<Longrightarrow> B a r w') \<Longrightarrow> meets A (call_noexcept f) B E"
  by (auto simp: meets_def call_noexcept_def split: prod.splits)

lemma meets_loop:
  "(\<And>r w a w'. A r w \<Longrightarrow> f w = Some (a, w') \<Longrightarrow> B a r w') \<Longrightarrow> meets A (call_loop f) B E"
  by (auto simp: meets_def call_loop_def split: option.splits)

lemma meets_update [meets_rules]: "(\<And>r w. A r w \<Longrightarrow> B () (g r) w) \<Longrightarrow> meets A (update g) B E"
  by (simp add: meets_def update_def)

lemma meets_current [meets_rules]: "(\<And>r w. A r w \<Longrightarrow> B r r w) \<Longrightarrow> meets A current B E"
  by (simp add: meets_def current_def)

lemma meets_scoped [meets_rules]:
  assumes "meets A m (\<lambda>a r w. B a r (c w)) (\<lambda>t r w. E t r (c w))"
  shows "meets A (scoped c m) B E"
  unfolding meets_def
proof (intro allI impI)
  fix r w assume "A r w"
  then have l: "lands (\<lambda>a r w. B a r (c w)) (\<lambda>t r w. E t r (c w)) (m (r, w))" using assms by (simp add: meets_def)
  show "lands B E (scoped c m (r, w))"
    by (cases rule: landed_cases[of "m (r, w)"]) (use l in \<open>simp_all add: scoped_def\<close>)
qed

lemma meets_weaken:
  assumes "meets A' m B' E'" "\<And>r w. A r w \<Longrightarrow> A' r w" "\<And>a r w. B' a r w \<Longrightarrow> B a r w" "\<And>t r w. E' t r w \<Longrightarrow> E t r w"
  shows "meets A m B E"
  unfolding meets_def
proof (intro allI impI)
  fix r w assume "A r w"
  then have l: "lands B' E' (m (r, w))" using assms(1,2) by (simp add: meets_def)
  show "lands B E (m (r, w))"
    by (cases rule: landed_cases[of "m (r, w)"]) (use l assms(3,4) in simp_all)
qed

lemma meets_if [meets_rules]:
  "(b \<Longrightarrow> meets A m B E) \<Longrightarrow> (\<not> b \<Longrightarrow> meets A n B E) \<Longrightarrow> meets A (if b then m else n) B E"
  by simp

lemma meets_option [meets_rules]:
  "(x = None \<Longrightarrow> meets A m B E) \<Longrightarrow> (\<And>a. x = Some a \<Longrightarrow> meets A (f a) B E) \<Longrightarrow>
   meets A (case x of None \<Rightarrow> m | Some a \<Rightarrow> f a) B E"
  by (cases x) simp_all

lemma meets_sum [meets_rules]:
  "(\<And>a. x = Inl a \<Longrightarrow> meets A (f a) B E) \<Longrightarrow> (\<And>b. x = Inr b \<Longrightarrow> meets A (g b) B E) \<Longrightarrow>
   meets A (case x of Inl a \<Rightarrow> f a | Inr b \<Rightarrow> g b) B E"
  by (cases x) simp_all

lemma meets_assume: "(b \<Longrightarrow> meets A m B E) \<Longrightarrow> meets (\<lambda>r w. b \<and> A r w) m B E"
  by (auto simp: meets_def)

lemma meets_each:
  assumes "\<And>x. x \<in> set xs \<Longrightarrow> meets I (f x) (\<lambda>_. I) E"
  shows "meets I (each f xs) (\<lambda>_. I) E"
  using assms by (induction xs) (auto intro!: meets_go meets_andthen[where C = "\<lambda>_. I"])

text \<open>The operation ends, however the calls fare.\<close>

definition answers :: "('r, 'w, 'a) op \<Rightarrow> bool" where
  "answers m \<longleftrightarrow> (\<forall>s. m s \<noteq> None)"

named_theorems answers_rules

lemma answers_andthen [answers_rules]:
  assumes "answers m" "\<And>a. answers (f a)"
  shows "answers (andthen m f)"
  unfolding answers_def
proof
  fix s
  have "m s \<noteq> None" "f a s' \<noteq> None" for a s' using assms unfolding answers_def by blast+
  then show "andthen m f s \<noteq> None"
    by (cases rule: landed_cases[of "m s"]) (simp_all add: andthen_def)
qed

lemma answers_basic [answers_rules]:
  "answers (go a)" "answers stop" "answers (call f)" "answers (call_noexcept f')" "answers (update g)" "answers current"
  by (auto simp: answers_def go_def stop_def call_def call_noexcept_def update_def current_def split: prod.splits sum.splits)

lemma answers_loop: "(\<And>w. f w \<noteq> None) \<Longrightarrow> answers (call_loop f)"
  by (auto simp: answers_def call_loop_def split: option.splits)

lemma answers_scoped [answers_rules]: "answers m \<Longrightarrow> answers (scoped c m)"
  by (auto simp: answers_def scoped_def split: option.splits)

lemma answers_each [answers_rules]: "(\<And>x. answers (f x)) \<Longrightarrow> answers (each f xs)"
  by (induction xs) (auto intro!: answers_rules)

lemma answers_if [answers_rules]: "answers m \<Longrightarrow> answers n \<Longrightarrow> answers (if b then m else n)"
  by simp

lemma answers_option [answers_rules]: "answers m \<Longrightarrow> (\<And>a. answers (f a)) \<Longrightarrow> answers (case x of None \<Rightarrow> m | Some a \<Rightarrow> f a)"
  by (cases x) simp_all

lemma answers_sum [answers_rules]: "(\<And>a. answers (f a)) \<Longrightarrow> (\<And>b. answers (g b)) \<Longrightarrow> answers (case x of Inl a \<Rightarrow> f a | Inr b \<Rightarrow> g b)"
  by (cases x) simp_all

end
