(* ===== verification/Maintenance.thy ===== *)
theory Maintenance
  imports Maintenance_Flow Replay
begin

text \<open>
  Offline maintenance of the journal (\<^verbatim>\<open>src/journal/maintenance.cpp\<close>): the steps that its tools share,
  and the class \<^verbatim>\<open>Quarantine\<close>, which moves a torn tail into a quarantine file (\<^verbatim>\<open>QuarantineTornTail\<close>).
\<close>

section \<open>Shared steps\<close>

datatype MaintenanceStatus = kDone | kPlanned | kNothingToDo | kRefused | kFailed

definition k_archive_directory :: string where
  "k_archive_directory = ''archive''"

definition size_max :: nat where
  "size_max = 18446744073709551615"

definition ReplayAll ::
  "libs \<Rightarrow> (string \<Rightarrow> exn + string) \<Rightarrow> 'w FileSystem \<Rightarrow> string \<Rightarrow> 'w \<Rightarrow> ReplayResult \<times> 'w" where
  "ReplayAll L P fs directory w = ReplayJournal L P size_max fs directory w"

text \<open>The scope of a \<^verbatim>\<open>JournalLock\<close>; \<open>otherwise\<close> returns its refusal.\<close>

definition JournalLock ::
  "'w MaintenanceFileSystem \<Rightarrow> string \<Rightarrow> (string \<Rightarrow> ('r, 'w, 'a) op) \<Rightarrow> ('r, 'w, 'a) op \<Rightarrow> ('r, 'w, 'a) op" where
  "JournalLock m directory otherwise body =
     andthen (call (Lock (base m) (JoinPath directory lock_name)))
       (\<lambda>handle. case handle of
          Inl e \<Rightarrow> otherwise (if e = IoError.kLocked then ''journal_locked: '' @ directory
                          else ''journal_unreadable: cannot lock '' @ directory)
        | Inr h \<Rightarrow> scoped (Close (base m) h) body)"

definition Failed :: "string \<Rightarrow> string \<Rightarrow> string" where
  "Failed step path = ''journal_maintenance_failed: '' @ step @ '' '' @ path"

definition In :: "string \<Rightarrow> string \<Rightarrow> string" where
  "In detail directory = detail @ '' in '' @ directory"

partial_function (option) append_loop :: "'w FileSystem \<Rightarrow> FileHandle \<Rightarrow> string \<Rightarrow> 'w \<Rightarrow> (bool \<times> 'w) option" where
  [code]: "append_loop fs file bytes w =
     (if bytes = [] then Some (True, w)
      else (let (outcome, w1) = Write fs file bytes w
            in if wo_error outcome = IoError.kInterrupted \<and> wo_written outcome = 0
               then append_loop fs file bytes w1
               else if wo_error outcome \<noteq> IoError.kNone \<or> wo_written outcome = 0 then Some (False, w1)
               else append_loop fs file (drop (min (wo_written outcome) (length bytes)) bytes) w1))"

text \<open>The failure of \<^verbatim>\<open>AppendDurably\<close>, or \<open>None\<close>; the file is closed on every exit.\<close>

definition AppendDurably ::
  "'w MaintenanceFileSystem \<Rightarrow> string \<Rightarrow> string \<Rightarrow> bool \<Rightarrow> ('r, 'w, string option) op" where
  "AppendDurably m path bytes create =
     andthen (call (OpenAppend (base m) path create))
       (\<lambda>handle. case handle of
          Inl _ \<Rightarrow> go (Some (Failed (if create then ''create'' else ''open'') path))
        | Inr file \<Rightarrow>
            scoped (Close (base m) file)
              (andthen (call_loop (append_loop (base m) file bytes))
                (\<lambda>written. if \<not> written then go (Some (Failed ''write'' path))
                  else andthen (call_noexcept (SyncData (base m) file))
                    (\<lambda>e. go (if e \<noteq> IoError.kNone then Some (Failed ''sync'' path) else None)))))"

definition NotOwnFile :: "'w MaintenanceFileSystem \<Rightarrow> string \<Rightarrow> bool \<Rightarrow> ('r, 'w, string option) op" where
  "NotOwnFile m path single_link =
     andthen (call (Entry m path))
       (\<lambda>kind. case kind of
          Inl _ \<Rightarrow> go None
        | Inr k \<Rightarrow>
            if k \<noteq> EntryKind.kRegularFile then go (Some (path @ '' is not a regular file''))
            else if \<not> single_link then go (Some [])
            else andthen (call (HardLinks m path))
              (\<lambda>links. case links of
                 Inl _ \<Rightarrow> go None
               | Inr n \<Rightarrow> go (Some (if n = 1 then [] else path @ '' has other hard links''))))"

section \<open>Quarantine\<close>

record QuarantineResult =
  qr_status :: MaintenanceStatus
  qr_detail :: string
  qr_segment :: string
  qr_offset :: u64
  qr_quarantine :: string
  qr_bytes :: u64
  qr_next_sequence :: u64
  qr_sequence_exhausted :: bool

definition new_QuarantineResult :: QuarantineResult where
  "new_QuarantineResult = \<lparr>qr_status = MaintenanceStatus.kRefused, qr_detail = [], qr_segment = [], qr_offset = 0,
     qr_quarantine = [], qr_bytes = 0, qr_next_sequence = 0, qr_sequence_exhausted = False\<rparr>"

definition FinishQuarantine :: "MaintenanceStatus \<Rightarrow> string \<Rightarrow> QuarantineResult \<Rightarrow> QuarantineResult" where
  "FinishQuarantine status detail r = r\<lparr>qr_status := status, qr_detail := detail\<rparr>"

definition q_return :: "MaintenanceStatus \<Rightarrow> string \<Rightarrow> (QuarantineResult, 'w, 'a) op" where
  "q_return status detail = andthen (update (FinishQuarantine status detail)) (\<lambda>_. stop)"

definition Holds :: "'w MaintenanceFileSystem \<Rightarrow> string \<Rightarrow> string \<Rightarrow> ('r, 'w, bool) op" where
  "Holds m path expected = andthen (call (ReadAll (base m) path)) (\<lambda>now. go (now = Inr expected))"

definition RefuseForeign :: "'w MaintenanceFileSystem \<Rightarrow> string \<Rightarrow> (QuarantineResult, 'w, unit) op" where
  "RefuseForeign m path =
     andthen (NotOwnFile m path True)
       (\<lambda>reason. case reason of
          None \<Rightarrow> q_return MaintenanceStatus.kFailed (Failed ''check'' path)
        | Some why \<Rightarrow>
            if why \<noteq> [] then q_return MaintenanceStatus.kRefused (''journal_quarantine_conflict: '' @ why) else go ())"

text \<open>The greatest segment-shaped name of a listing; it is empty when there is none.\<close>

definition highest_name :: "string list \<Rightarrow> string" where
  "highest_name names =
     fold (\<lambda>name highest. if starts_with name ''journal-'' \<and> ends_with name ''.ndjson'' \<and> bytes_less highest name
                          then name else highest) names []"

definition ResyncCut :: "'w MaintenanceFileSystem \<Rightarrow> string \<Rightarrow> string \<Rightarrow> string \<Rightarrow> string \<Rightarrow> (QuarantineResult, 'w, string) op" where
  "ResyncCut m directory highest content quarantine =
     (let path = JoinPath directory highest in
      andthen (RefuseForeign m path) (\<lambda>_.
      andthen (call (Truncate m path (length content))) (\<lambda>e.
      if e \<noteq> IoError.kNone then q_return MaintenanceStatus.kFailed (Failed ''truncate'' path) else
      andthen (Holds m path content) (\<lambda>held.
      if \<not> held then q_return MaintenanceStatus.kFailed (Failed ''verify cut'' path) else
      andthen (call_noexcept (SyncDirectory (base m) directory)) (\<lambda>e.
      if e \<noteq> IoError.kNone then q_return MaintenanceStatus.kFailed (Failed ''sync directory'' directory) else
      andthen (update (\<lambda>r. r\<lparr>qr_segment := highest, qr_offset := of_nat (length content), qr_quarantine := quarantine\<rparr>)) (\<lambda>_.
      go (''; synced the cut of '' @ highest @ '' at byte '' @ dec (length content))))))))"

definition ResyncEarlierCut :: "'w MaintenanceFileSystem \<Rightarrow> string \<Rightarrow> (QuarantineResult, 'w, string) op" where
  "ResyncEarlierCut m directory =
     andthen (call (FileSystem.List (base m) directory)) (\<lambda>listed. case listed of
       Inl _ \<Rightarrow> q_return MaintenanceStatus.kFailed (Failed ''list'' directory)
     | Inr names \<Rightarrow>
         (let highest = highest_name names; path = JoinPath directory highest in
          if highest = [] then go []
          else andthen (call (ReadAll (base m) path)) (\<lambda>contents. case contents of
            Inl _ \<Rightarrow> q_return MaintenanceStatus.kFailed (Failed ''read'' path)
          | Inr content \<Rightarrow>
              (let quarantine = highest @ ''.torn-'' @ dec (length content) in
               if quarantine \<notin> set names then go []
               else ResyncCut m directory highest content quarantine))))"

definition WriteQuarantine :: "'w MaintenanceFileSystem \<Rightarrow> string \<Rightarrow> string \<Rightarrow> string \<Rightarrow> (QuarantineResult, 'w, unit) op" where
  "WriteQuarantine m directory quarantine tail =
     (let path = JoinPath directory quarantine in
      andthen (call (FileSystem.List (base m) directory)) (\<lambda>listed. case listed of
        Inl _ \<Rightarrow> q_return MaintenanceStatus.kFailed (Failed ''list'' directory)
      | Inr names \<Rightarrow>
          andthen
            (if quarantine \<in> set names then
               andthen (RefuseForeign m path) (\<lambda>_.
               andthen (call (ReadAll (base m) path)) (\<lambda>contents. case contents of
                 Inl _ \<Rightarrow> q_return MaintenanceStatus.kFailed (Failed ''read'' path)
               | Inr existing \<Rightarrow>
                   if length existing > length tail \<or> \<not> starts_with tail existing
                   then q_return MaintenanceStatus.kRefused
                          (''journal_quarantine_conflict: '' @ path @ '' exists with different bytes'')
                   else AppendDurably m path (drop (length existing) tail) False))
             else AppendDurably m path tail True)
            (\<lambda>failure. case failure of
               Some why \<Rightarrow> q_return MaintenanceStatus.kFailed why
             | None \<Rightarrow>
                 andthen (call_noexcept (SyncDirectory (base m) directory)) (\<lambda>e.
                 if e \<noteq> IoError.kNone then q_return MaintenanceStatus.kFailed (Failed ''sync directory'' directory)
                 else go ()))))"

text \<open>\<^verbatim>\<open>Run\<close> once replay found a clean journal, and once it found a torn tail.\<close>

definition CleanJournal :: "'w MaintenanceFileSystem \<Rightarrow> string \<Rightarrow> ReplayResult \<Rightarrow> (QuarantineResult, 'w, unit) op" where
  "CleanJournal m directory replayed =
     andthen (ResyncEarlierCut m directory) (\<lambda>resynced.
     if rr_status replayed = ReplayStatus.kSequenceExhausted
     then q_return MaintenanceStatus.kRefused (In (rr_detail replayed @ resynced) directory)
     else andthen (update (\<lambda>r. r\<lparr>qr_next_sequence := rr_next_sequence replayed\<rparr>)) (\<lambda>_.
       q_return MaintenanceStatus.kNothingToDo (''journal_clean: '' @ directory @ resynced)))"

definition VerifyQuarantine ::
  "libs \<Rightarrow> (string \<Rightarrow> exn + string) \<Rightarrow> 'w MaintenanceFileSystem \<Rightarrow> string \<Rightarrow> ReplayResult \<Rightarrow> (QuarantineResult, 'w, unit) op" where
  "VerifyQuarantine L P m directory replayed =
     andthen (call_noexcept (ReplayAll L P (base m) directory)) (\<lambda>after.
     if (rr_status after \<noteq> ReplayStatus.kReplayed \<and> rr_status after \<noteq> ReplayStatus.kSequenceExhausted)
        \<or> rr_records after \<noteq> rr_records replayed
     then q_return MaintenanceStatus.kFailed (Failed ''verify'' (In (rr_detail after) directory))
     else
       andthen (update (\<lambda>r. let exhausted = rr_status after = ReplayStatus.kSequenceExhausted
                in r\<lparr>qr_sequence_exhausted := exhausted,
                     qr_next_sequence := (if exhausted then 0 else rr_next_sequence after)\<rparr>)) (\<lambda>_.
       andthen current (\<lambda>r.
       q_return MaintenanceStatus.kDone
         (In (''journal_quarantined: '' @ qr_segment r @ '' at byte '' @ to_string (qr_offset r) @ '' into ''
              @ qr_quarantine r @ (if qr_sequence_exhausted r then ''; sequence exhausted'' else [])) directory))))"

definition CutTail ::
  "libs \<Rightarrow> (string \<Rightarrow> exn + string) \<Rightarrow> 'w MaintenanceFileSystem \<Rightarrow> string \<Rightarrow> ReplayResult \<Rightarrow> string \<Rightarrow> (QuarantineResult, 'w, unit) op" where
  "CutTail L P m directory replayed content =
     (let segment_path = JoinPath directory (rr_torn_segment replayed);
          offset = unat (rr_torn_offset replayed);
          quarantine = rr_torn_segment replayed @ ''.torn-'' @ to_string (rr_torn_offset replayed);
          tail = drop offset content
      in andthen (update (\<lambda>r. r\<lparr>qr_bytes := of_nat (length tail)\<rparr>)) (\<lambda>_.
         andthen (RefuseForeign m segment_path) (\<lambda>_.
         andthen (WriteQuarantine m directory quarantine tail) (\<lambda>_.
         andthen (call (Truncate m segment_path offset)) (\<lambda>e.
         if e \<noteq> IoError.kNone then q_return MaintenanceStatus.kFailed (Failed ''truncate'' segment_path) else
         andthen (Holds m segment_path (take offset content)) (\<lambda>held.
         if \<not> held then q_return MaintenanceStatus.kFailed (Failed ''verify cut'' segment_path)
         else VerifyQuarantine L P m directory replayed))))))"

definition TornJournal ::
  "libs \<Rightarrow> (string \<Rightarrow> exn + string) \<Rightarrow> 'w MaintenanceFileSystem \<Rightarrow> string \<Rightarrow> ReplayResult \<Rightarrow> (QuarantineResult, 'w, unit) op" where
  "TornJournal L P m directory replayed =
     (let segment_path = JoinPath directory (rr_torn_segment replayed)
      in andthen (update (\<lambda>r. r\<lparr>qr_segment := rr_torn_segment replayed, qr_offset := rr_torn_offset replayed,
           qr_quarantine := rr_torn_segment replayed @ ''.torn-'' @ to_string (rr_torn_offset replayed)\<rparr>)) (\<lambda>_.
         andthen (call (ReadAll (base m) segment_path)) (\<lambda>contents. case contents of
           Inl _ \<Rightarrow> q_return MaintenanceStatus.kFailed (Failed ''read'' segment_path)
         | Inr content \<Rightarrow>
             if length content \<le> unat (rr_torn_offset replayed)
             then q_return MaintenanceStatus.kFailed (Failed ''read'' segment_path)
             else CutTail L P m directory replayed content)))"

definition Quarantine_Run ::
  "libs \<Rightarrow> (string \<Rightarrow> exn + string) \<Rightarrow> 'w MaintenanceFileSystem \<Rightarrow> string \<Rightarrow> (QuarantineResult, 'w, unit) op" where
  "Quarantine_Run L P m directory =
     JournalLock m directory (q_return MaintenanceStatus.kRefused)
       (andthen (call_noexcept (ReplayAll L P (base m) directory)) (\<lambda>replayed.
        if rr_status replayed = ReplayStatus.kReplayed \<or> rr_status replayed = ReplayStatus.kSequenceExhausted
        then CleanJournal m directory replayed
        else if rr_status replayed \<noteq> ReplayStatus.kTornTail
        then q_return MaintenanceStatus.kRefused (In (rr_detail replayed) directory)
        else TornJournal L P m directory replayed))"

fun what_of :: "exn \<Rightarrow> string" where
  "what_of (std_exception what) = what"
| "what_of unknown_exception = ''unexpected exception''"

definition QuarantineTornTail ::
  "libs \<Rightarrow> (string \<Rightarrow> exn + string) \<Rightarrow> 'w MaintenanceFileSystem \<Rightarrow> string \<Rightarrow> 'w \<Rightarrow> (QuarantineResult \<times> 'w) option" where
  "QuarantineTornTail L P m directory w0 =
     (case Quarantine_Run L P m directory (new_QuarantineResult, w0) of
        None \<Rightarrow> None
      | Some (Thrown x, r, w) \<Rightarrow>
          Some (FinishQuarantine MaintenanceStatus.kFailed
                  (In (''journal_maintenance_failed: '' @ what_of x) directory) r, w)
      | Some (_, r, w) \<Rightarrow> Some (r, w))"

end
