(* ===== verification/Prune.thy ===== *)
theory Prune
  imports Maintenance
begin

text \<open>
  The class \<^verbatim>\<open>Prune\<close> of \<^verbatim>\<open>src/journal/maintenance.cpp\<close>: it archives the longest prefix of segments that
  holds only closed Jobs (\<^verbatim>\<open>PruneClosedPrefix\<close>), and completes a run that was interrupted between two moves.
\<close>

section \<open>The prunable prefix\<close>

definition IsSegmentName :: "string \<Rightarrow> bool" where
  "IsSegmentName name \<longleftrightarrow> starts_with name ''journal-'' \<and> ends_with name ''.ndjson''"

definition highest_non_empty :: "ReplayedSegment list \<Rightarrow> nat option" where
  "highest_non_empty segments =
     (case filter (\<lambda>i. rs_records (segments ! i) \<noteq> 0) [0..<length segments] of [] \<Rightarrow> None | is \<Rightarrow> Some (last is))"

text \<open>The marks of one Job in the difference array, and the loop over the array.\<close>

definition mark_blocked :: "nat \<Rightarrow> Snapshot \<Rightarrow> JobSegmentSpan \<Rightarrow> int list \<Rightarrow> int list" where
  "mark_blocked highest job span blocked =
     (let start = first_segment span;
          end_mark = (if \<not> IsClosed job then highest + 1 else last_segment span + 1)
      in if start + 1 < end_mark
         then (let marked = blocked[start + 1 := blocked ! (start + 1) + 1]
               in marked[end_mark := marked ! end_mark - 1])
         else blocked)"

definition longest_unblocked :: "nat \<Rightarrow> int list \<Rightarrow> nat" where
  "longest_unblocked highest blocked =
     snd (fold (\<lambda>k (running, longest).
       let running1 = running + blocked ! k in (running1, if running1 = 0 then k else longest)) [0..<highest + 1] (0, 0))"

definition PrunableLength :: "ReplayResult \<Rightarrow> nat" where
  "PrunableLength replayed =
     (case highest_non_empty (rr_segments replayed) of
        None \<Rightarrow> 0
      | Some highest \<Rightarrow>
          longest_unblocked highest
            (fold (\<lambda>j. mark_blocked highest (rr_jobs replayed ! j) (rr_spans replayed ! j))
              [0..<length (rr_jobs replayed)] (replicate (highest + 2) 0)))"

section \<open>The journal before an interrupted run\<close>

definition MergedJournalView :: "'w FileSystem \<Rightarrow> string \<Rightarrow> string list \<Rightarrow> 'w FileSystem" where
  "MergedJournalView fs directory archived =
     \<lparr>EnsureDirectory = (\<lambda>_ w. (Inr IoError.kUnsupported, w)),
      Lock = (\<lambda>_ w. (Inr (Inl IoError.kUnsupported), w)),
      List = (\<lambda>dir w0. case FileSystem.List fs dir w0 of
          (Inr (Inr names), w) \<Rightarrow> (Inr (Inr (if dir = directory then names @ archived else names)), w)
        | r \<Rightarrow> r),
      ReadAll = (\<lambda>path. case List.find (\<lambda>name. path = JoinPath directory name) archived of
          Some name \<Rightarrow> ReadAll fs (JoinPath (JoinPath directory k_archive_directory) name)
        | None \<Rightarrow> ReadAll fs path),
      OpenAppend = (\<lambda>_ _ w. (Inr (Inl IoError.kUnsupported), w)),
      Write = (\<lambda>_ _ w. (\<lparr>wo_written = 0, wo_error = IoError.kUnsupported\<rparr>, w)),
      SyncData = (\<lambda>_ w. (IoError.kUnsupported, w)),
      SyncDirectory = (\<lambda>_ w. (IoError.kUnsupported, w)),
      Close = (\<lambda>_ w. w)\<rparr>"

text \<open>\<^verbatim>\<open>std::string::find\<close> of a text, and \<^verbatim>\<open>std::sort\<close> of names.\<close>

definition holds_text :: "string \<Rightarrow> string \<Rightarrow> bool" where
  "holds_text s needle \<longleftrightarrow> list_ex (\<lambda>i. starts_with (drop i s) needle) [0..<length s + 1]"

fun insert_name :: "string \<Rightarrow> string list \<Rightarrow> string list" where
  "insert_name x [] = [x]"
| "insert_name x (y # ys) = (if bytes_less y x then y # insert_name x ys else x # y # ys)"

definition interrupted :: "ReplayResult \<Rightarrow> bool" where
  "interrupted r \<longleftrightarrow> rr_status r = ReplayStatus.kCorrupt
     \<and> holds_text (rr_detail r) ''record for a Job that was never created''"

section \<open>The tool\<close>

record PruneResult =
  pr_status :: MaintenanceStatus
  pr_detail :: string
  pr_segments :: "string list"
  pr_records :: u64
  pr_jobs :: "Uuid list"
  pr_first_retained_sequence :: u64
  pr_next_sequence :: u64
  pr_moved :: "string list"
  pr_resumed :: "string list"

definition new_PruneResult :: PruneResult where
  "new_PruneResult = \<lparr>pr_status = MaintenanceStatus.kRefused, pr_detail = [], pr_segments = [], pr_records = 0, pr_jobs = [],
     pr_first_retained_sequence = 0, pr_next_sequence = 0, pr_moved = [], pr_resumed = []\<rparr>"

definition FinishPrune :: "MaintenanceStatus \<Rightarrow> string \<Rightarrow> PruneResult \<Rightarrow> PruneResult" where
  "FinishPrune status detail r0 =
     (let r = r0\<lparr>pr_status := status, pr_detail := detail\<rparr>
      in if status = MaintenanceStatus.kRefused \<or> status = MaintenanceStatus.kFailed
         then r\<lparr>pr_segments := [], pr_jobs := [], pr_records := 0, pr_first_retained_sequence := 0\<rparr>
         else r)"

definition p_return :: "MaintenanceStatus \<Rightarrow> string \<Rightarrow> (PruneResult, 'w, 'a) op" where
  "p_return status detail = andthen (update (FinishPrune status detail)) (\<lambda>_. stop)"

definition sync_directory :: "'w MaintenanceFileSystem \<Rightarrow> string \<Rightarrow> (PruneResult, 'w, unit) op" where
  "sync_directory m directory =
     andthen (call_noexcept (SyncDirectory (base m) directory)) (\<lambda>e.
     if e \<noteq> IoError.kNone then p_return MaintenanceStatus.kFailed (Failed ''sync directory'' directory) else go ())"

definition SyncEarlierMoves :: "'w MaintenanceFileSystem \<Rightarrow> string \<Rightarrow> (PruneResult, 'w, unit) op" where
  "SyncEarlierMoves m directory =
     (let archive = JoinPath directory k_archive_directory in
      andthen (call (Entry m archive)) (\<lambda>kind. case kind of
        Inl _ \<Rightarrow> p_return MaintenanceStatus.kFailed (Failed ''check'' archive)
      | Inr k \<Rightarrow>
          if k = EntryKind.kNone then go ()
          else if k \<noteq> EntryKind.kDirectory
          then p_return MaintenanceStatus.kRefused (''journal_archive_conflict: '' @ archive @ '' is not a directory'')
          else andthen (sync_directory m archive) (\<lambda>_. sync_directory m directory)))"

text \<open>The loop over the archived runs that could precede the journal.\<close>

fun try_runs ::
  "libs \<Rightarrow> (string \<Rightarrow> exn + string) \<Rightarrow> 'w MaintenanceFileSystem \<Rightarrow> string \<Rightarrow> string list \<Rightarrow> nat list
   \<Rightarrow> (PruneResult, 'w, ReplayResult option) op" where
  "try_runs L P m directory before [] = go None"
| "try_runs L P m directory before (n # ns) =
     (let archived_run = drop (length before - n) before in
      andthen (call_noexcept (ReplayAll L P (MergedJournalView (base m) directory archived_run) directory)) (\<lambda>merged.
      if rr_status merged = ReplayStatus.kReplayed
      then andthen (update (\<lambda>r. r\<lparr>pr_resumed := archived_run\<rparr>)) (\<lambda>_. go (Some merged))
      else if \<not> interrupted merged then go None
      else try_runs L P m directory before ns))"

definition ReplayInterrupted ::
  "libs \<Rightarrow> (string \<Rightarrow> exn + string) \<Rightarrow> 'w MaintenanceFileSystem \<Rightarrow> string \<Rightarrow> ReplayResult
   \<Rightarrow> (PruneResult, 'w, ReplayResult option) op" where
  "ReplayInterrupted L P m directory declined =
     (if \<not> interrupted declined then go None
      else
        andthen (call (FileSystem.List (base m) directory)) (\<lambda>listed.
        andthen (call (FileSystem.List (base m) (JoinPath directory k_archive_directory))) (\<lambda>archived.
        case (listed, archived) of
          (Inr names, Inr old) \<Rightarrow>
            (let start = fold (\<lambda>name start. if IsSegmentName name \<and> (start = [] \<or> bytes_less name start) then name else start)
                   names [];
                 before = fold insert_name (filter (\<lambda>name. IsSegmentName name \<and> bytes_less name start) old) []
             in try_runs L P m directory before [1..<length before + 1])
        | _ \<Rightarrow> go None)))"

definition check_destination :: "'w MaintenanceFileSystem \<Rightarrow> string \<Rightarrow> string \<Rightarrow> (PruneResult, 'w, unit) op" where
  "check_destination m archive name =
     (let target = JoinPath archive name in
      andthen (call (Entry m target)) (\<lambda>kind. case kind of
        Inl _ \<Rightarrow> p_return MaintenanceStatus.kFailed (Failed ''check'' target)
      | Inr k \<Rightarrow>
          if k \<noteq> EntryKind.kNone
          then p_return MaintenanceStatus.kRefused (''journal_archive_conflict: '' @ target @ '' already exists'')
          else go ()))"

definition move_segment :: "'w MaintenanceFileSystem \<Rightarrow> string \<Rightarrow> string \<Rightarrow> string \<Rightarrow> (PruneResult, 'w, unit) op" where
  "move_segment m directory archive name =
     (let source = JoinPath directory name in
      andthen (call (RenameNoReplace m source (JoinPath archive name))) (\<lambda>e.
      if e \<noteq> IoError.kNone then p_return MaintenanceStatus.kFailed (Failed ''rename'' source) else
      andthen (update (\<lambda>r. r\<lparr>pr_moved := pr_moved r @ [name]\<rparr>)) (\<lambda>_.
      andthen (sync_directory m archive) (\<lambda>_. sync_directory m directory))))"

definition Archive :: "'w MaintenanceFileSystem \<Rightarrow> string \<Rightarrow> string list \<Rightarrow> (PruneResult, 'w, unit) op" where
  "Archive m directory segments =
     (let archive = JoinPath directory k_archive_directory in
      andthen (call (Entry m archive)) (\<lambda>kind. case kind of
        Inl _ \<Rightarrow> p_return MaintenanceStatus.kFailed (Failed ''check'' archive)
      | Inr k \<Rightarrow>
          if k \<noteq> EntryKind.kNone \<and> k \<noteq> EntryKind.kDirectory
          then p_return MaintenanceStatus.kRefused (''journal_archive_conflict: '' @ archive @ '' is not a directory'')
          else
            andthen (call (EnsureDirectory (base m) archive)) (\<lambda>e.
            if e \<noteq> IoError.kNone then p_return MaintenanceStatus.kFailed (Failed ''archive directory'' archive) else
            andthen (sync_directory m directory) (\<lambda>_.
            andthen (each (check_destination m archive) segments) (\<lambda>_.
            each (move_segment m directory archive) segments)))))"

definition Summary :: "string \<Rightarrow> string \<Rightarrow> PruneResult \<Rightarrow> string" where
  "Summary code directory r =
     In (code @ '': '' @ dec (length (pr_segments r)) @ '' segments, '' @ to_string (pr_records r) @ '' records, ''
         @ dec (length (pr_jobs r)) @ '' Jobs; replay starts at '' @ to_string (pr_first_retained_sequence r)
         @ (if pr_resumed r \<noteq> []
            then ''; completes an interrupted prune after '' @ dec (length (pr_resumed r)) @ '' archived segments''
            else [])) directory"

text \<open>\<^verbatim>\<open>Run\<close> once the journal was replayed: the plan, and its execution.\<close>

definition plan_prune :: "nat \<Rightarrow> nat \<Rightarrow> ReplayResult \<Rightarrow> PruneResult \<Rightarrow> PruneResult" where
  "plan_prune count archived replayed r =
     (let segments = drop archived (take count (rr_segments replayed))
      in r\<lparr>pr_segments := map rs_name segments, pr_records := sum_list (map rs_records segments),
           pr_jobs := map (\<lambda>j. job_id (rr_jobs replayed ! j))
             (filter (\<lambda>j. first_segment (rr_spans replayed ! j) < count) [0..<length (rr_jobs replayed)]),
           pr_first_retained_sequence := rs_first (rr_segments replayed ! count)\<rparr>)"

definition check_source :: "'w MaintenanceFileSystem \<Rightarrow> string \<Rightarrow> string \<Rightarrow> (PruneResult, 'w, unit) op" where
  "check_source m directory name =
     (let path = JoinPath directory name in
      andthen (NotOwnFile m path False) (\<lambda>reason. case reason of
        None \<Rightarrow> p_return MaintenanceStatus.kFailed (Failed ''check'' path)
      | Some why \<Rightarrow>
          if why \<noteq> [] then p_return MaintenanceStatus.kRefused (''journal_archive_conflict: '' @ why) else go ()))"

definition ExecutePlan ::
  "libs \<Rightarrow> (string \<Rightarrow> exn + string) \<Rightarrow> 'w MaintenanceFileSystem \<Rightarrow> string \<Rightarrow> bool \<Rightarrow> nat \<Rightarrow> ReplayResult
   \<Rightarrow> (PruneResult, 'w, unit) op" where
  "ExecutePlan L P m directory dry_run count replayed =
     andthen current (\<lambda>planned.
     andthen (each (check_source m directory) (pr_segments planned)) (\<lambda>_.
     if dry_run then p_return MaintenanceStatus.kPlanned (Summary ''journal_prune_planned'' directory planned) else
     andthen (Archive m directory (pr_segments planned)) (\<lambda>_.
     andthen (call_noexcept (ReplayAll L P (base m) directory)) (\<lambda>after.
     if rr_status after \<noteq> ReplayStatus.kReplayed \<or> rr_next_sequence after \<noteq> pr_next_sequence planned
        \<or> rr_records after + sum_list (map rs_records (take count (rr_segments replayed))) \<noteq> rr_records replayed
     then p_return MaintenanceStatus.kFailed (Failed ''verify'' (In (rr_detail after) directory))
     else p_return MaintenanceStatus.kDone (Summary ''journal_pruned'' directory planned)))))"

definition PruneReplayed ::
  "libs \<Rightarrow> (string \<Rightarrow> exn + string) \<Rightarrow> 'w MaintenanceFileSystem \<Rightarrow> string \<Rightarrow> bool \<Rightarrow> ReplayResult
   \<Rightarrow> (PruneResult, 'w, unit) op" where
  "PruneReplayed L P m directory dry_run replayed =
     andthen (update (\<lambda>r. r\<lparr>pr_next_sequence := rr_next_sequence replayed\<rparr>)) (\<lambda>_.
     andthen current (\<lambda>r.
     let count = PrunableLength replayed; archived = length (pr_resumed r) in
     if archived \<noteq> 0 \<and> count \<le> archived then
       andthen (update (\<lambda>r. r\<lparr>pr_resumed := []\<rparr>)) (\<lambda>_.
       p_return MaintenanceStatus.kRefused
         (In ''journal_corrupt: archived segments before the Journal are not a prunable prefix'' directory))
     else if count = 0 then
       andthen (SyncEarlierMoves m directory) (\<lambda>_.
       p_return MaintenanceStatus.kNothingToDo
         (In ''journal_nothing_to_prune: no sealed prefix holds only closed Jobs'' directory))
     else
       andthen (update (plan_prune count archived replayed)) (\<lambda>_.
       ExecutePlan L P m directory dry_run count replayed)))"

definition Prune_Run ::
  "libs \<Rightarrow> (string \<Rightarrow> exn + string) \<Rightarrow> 'w MaintenanceFileSystem \<Rightarrow> string \<Rightarrow> bool \<Rightarrow> (PruneResult, 'w, unit) op" where
  "Prune_Run L P m directory dry_run =
     JournalLock m directory (p_return MaintenanceStatus.kRefused)
       (andthen (call_noexcept (ReplayAll L P (base m) directory)) (\<lambda>replayed.
        if rr_status replayed \<noteq> ReplayStatus.kReplayed then
          andthen (ReplayInterrupted L P m directory replayed) (\<lambda>resumed. case resumed of
            None \<Rightarrow> p_return MaintenanceStatus.kRefused (In (rr_detail replayed) directory)
          | Some r \<Rightarrow> PruneReplayed L P m directory dry_run r)
        else PruneReplayed L P m directory dry_run replayed))"

definition PruneClosedPrefix ::
  "libs \<Rightarrow> (string \<Rightarrow> exn + string) \<Rightarrow> 'w MaintenanceFileSystem \<Rightarrow> string \<Rightarrow> bool \<Rightarrow> 'w \<Rightarrow> (PruneResult \<times> 'w) option" where
  "PruneClosedPrefix L P m directory dry_run w0 =
     (case Prune_Run L P m directory dry_run (new_PruneResult, w0) of
        None \<Rightarrow> None
      | Some (Thrown x, r, w) \<Rightarrow>
          Some (FinishPrune MaintenanceStatus.kFailed
                  (In (''journal_maintenance_failed: '' @ what_of x) directory) r, w)
      | Some (_, r, w) \<Rightarrow> Some (r, w))"

end
