(* ===== verification/Prunable_Prefix.thy ===== *)
theory Prunable_Prefix
  imports Prune
begin

text \<open>
  The difference array of \<^verbatim>\<open>PrunableLength\<close> computes what the contract asks for: the longest prefix
  of segments before the highest non-empty one such that every Job with a record in it is closed and has its last record in it.
\<close>

section \<open>Prefix sums\<close>

text \<open>A Job stands in the way of a prefix of \<open>k\<close> segments that holds its first record but not its last, or that leaves it open.\<close>

definition blocks :: "nat \<Rightarrow> Snapshot \<Rightarrow> JobSegmentSpan \<Rightarrow> bool" where
  "blocks k job span \<longleftrightarrow> first_segment span < k \<and> \<not> (IsClosed job \<and> last_segment span < k)"

definition total :: "int list \<Rightarrow> nat \<Rightarrow> int" where
  "total b k = (\<Sum>i \<le> k. b ! i)"

lemma total_update:
  "i < length b \<Longrightarrow> total (b[i := b ! i + v]) k = total b k + (if i \<le> k then v else 0)"
proof (induction k)
  case 0
  then show ?case by (auto simp: total_def nth_list_update)
next
  case (Suc k)
  then show ?case by (auto simp: total_def nth_list_update)
qed

lemma mark_blocked_total:
  assumes "length b = highest + 2" "IsClosed job \<longrightarrow> last_segment span \<le> highest" "k \<le> highest"
  shows "total (mark_blocked highest job span b) k = total b k + (if blocks k job span then 1 else 0)"
proof -
  let ?stop = "if \<not> IsClosed job then highest + 1 else last_segment span + 1"
  have e: "?stop \<le> highest + 1" using assms(2) by simp
  show ?thesis
  proof (cases "first_segment span + 1 < ?stop")
    case True
    let ?b = "b[first_segment span + 1 := b ! (first_segment span + 1) + 1]"
    have "total (?b[?stop := ?b ! ?stop + (- 1)]) k = total ?b k + (if ?stop \<le> k then - 1 else 0)"
      using e assms(1) by (intro total_update) simp
    moreover have "total ?b k = total b k + (if first_segment span + 1 \<le> k then 1 else 0)"
      using True e assms(1) by (intro total_update) simp
    ultimately show ?thesis
      using True assms(3) by (auto simp: mark_blocked_def Let_def blocks_def)
  next
    case False
    then show ?thesis using assms(3) by (auto simp: mark_blocked_def Let_def blocks_def split: if_splits)
  qed
qed

lemma mark_blocked_length [simp]: "length (mark_blocked highest job span b) = length b"
  by (simp add: mark_blocked_def Let_def)

lemma marks_total:
  assumes "\<And>j. j \<in> set js \<Longrightarrow> IsClosed (jobs j) \<longrightarrow> last_segment (spans j) \<le> highest" "length b = highest + 2" "k \<le> highest"
  shows "total (fold (\<lambda>j. mark_blocked highest (jobs j) (spans j)) js b) k
    = total b k + int (length (filter (\<lambda>j. blocks k (jobs j) (spans j)) js))"
  using assms(1,2)
proof (induction js arbitrary: b)
  case (Cons j js)
  then show ?case
    using mark_blocked_total[of b highest "jobs j" "spans j" k] assms(3) by simp
qed simp

section \<open>The loop\<close>

lemma longest_unblocked_spec:
  fixes b defines "f \<equiv> (\<lambda>k (running, longest). let running1 = running + b ! k in (running1, if running1 = 0 then k else longest))"
  shows "fst (fold f [0..<n] (0, 0)) = (\<Sum>i < n. b ! i)
    \<and> (\<forall>k < n. total b k = 0 \<longrightarrow> k \<le> snd (fold f [0..<n] (0, 0)))
    \<and> (snd (fold f [0..<n] (0, 0)) = 0 \<or> snd (fold f [0..<n] (0, 0)) < n \<and> total b (snd (fold f [0..<n] (0, 0))) = 0)"
proof (induction n)
  case (Suc n)
  obtain r l where s: "fold f [0..<n] (0, 0) = (r, l)" by fastforce
  have t: "total b n = r + b ! n" using Suc.IH by (simp add: s total_def lessThan_Suc_atMost[symmetric])
  have "fold f [0..<Suc n] (0, 0) = f n (r, l)" by (simp add: s)
  also have "f n (r, l) = (r + b ! n, if r + b ! n = 0 then n else l)" by (simp add: f_def Let_def)
  finally show ?case using Suc.IH t by (auto simp: s less_Suc_eq)
qed simp

text \<open>
  C13. \<^verbatim>\<open>PrunableLength\<close> is the greatest admissible length. With \<open>h\<close> the highest non-empty segment, no Job stands in
  the way of a prefix of that length, the length is at most \<open>h\<close>, and every length up to \<open>h\<close> that
  no Job stands in the way of is at most that length. The difference array with its two marks per Job and one pass
  counts the blocking Jobs of each length exactly.
\<close>

theorem prunable_length_is_longest:
  assumes "highest_non_empty (rr_segments r) = Some h"
    "\<forall>j < length (rr_jobs r). last_segment (rr_spans r ! j) \<le> h"
  shows "PrunableLength r \<le> h
    \<and> (\<forall>j < length (rr_jobs r). \<not> blocks (PrunableLength r) (rr_jobs r ! j) (rr_spans r ! j))
    \<and> (\<forall>k \<le> h. (\<forall>j < length (rr_jobs r). \<not> blocks k (rr_jobs r ! j) (rr_spans r ! j)) \<longrightarrow> k \<le> PrunableLength r)"
proof -
  define b where "b = fold (\<lambda>j. mark_blocked h (rr_jobs r ! j) (rr_spans r ! j)) [0..<length (rr_jobs r)] (replicate (h + 2) 0)"
  have p: "PrunableLength r = longest_unblocked h b" using assms(1) by (simp add: PrunableLength_def b_def)
  have "total (replicate (h + 2) 0) k = 0" if "k \<le> h" for k
    using that by (simp add: total_def del: replicate.simps add_2_eq_Suc')
  then have "total b k = int (length (filter (\<lambda>j. blocks k (rr_jobs r ! j) (rr_spans r ! j)) [0..<length (rr_jobs r)]))"
    if "k \<le> h" for k
    using marks_total[of "[0..<length (rr_jobs r)]" "(!) (rr_jobs r)" "(!) (rr_spans r)" h "replicate (h + 2) 0" k] that assms(2)
    by (simp add: b_def)
  then have zero: "total b k = 0 \<longleftrightarrow> (\<forall>j < length (rr_jobs r). \<not> blocks k (rr_jobs r ! j) (rr_spans r ! j))" if "k \<le> h" for k
    using that by (auto simp: filter_empty_conv)
  have none: "\<not> blocks 0 job span" for job span by (simp add: blocks_def)
  note l = longest_unblocked_spec[of b "h + 1", folded longest_unblocked_def]
  have "longest_unblocked h b \<le> h" using l by auto
  moreover have "total b (longest_unblocked h b) = 0" using l zero[of 0] none by auto
  ultimately show ?thesis using l zero unfolding p by auto
qed

section \<open>Witness\<close>

text \<open>Three segments; a closed Job lies in the first, an open one starts in the second.\<close>

definition sample_replay :: ReplayResult where
  "sample_replay = (rp_result new_Replayer)\<lparr>rr_segments := map (\<lambda>n. \<lparr>rs_name = [], rs_first = n, rs_records = 1\<rparr>) [1, 2, 3],
     rr_jobs := [sample_closed, initial sample_job],
     rr_spans := [\<lparr>first_segment = 0, last_segment = 0\<rparr>, \<lparr>first_segment = 1, last_segment = 2\<rparr>]\<rparr>"

theorem prunable_length_is_longest_witness:
  "highest_non_empty (rr_segments sample_replay) = Some 2
   \<and> \<not> blocks (PrunableLength sample_replay) sample_closed \<lparr>first_segment = 0, last_segment = 0\<rparr>
   \<and> PrunableLength sample_replay = 1"
proof -
  have h: "highest_non_empty (rr_segments sample_replay) = Some 2" by code_simp
  have s: "length (rr_jobs sample_replay) = 2" "rr_jobs sample_replay ! 0 = sample_closed"
    "rr_spans sample_replay = [\<lparr>first_segment = 0, last_segment = 0\<rparr>, \<lparr>first_segment = 1, last_segment = 2\<rparr>]"
    by (simp_all add: sample_replay_def)
  have "PrunableLength sample_replay = 1" by code_simp
  with prunable_length_is_longest[OF h] s h show ?thesis by (auto simp: less_2_cases_iff)
qed

end
