(* ===== verification/Replay_Frame.thy ===== *)
theory Replay_Frame
  imports Replay
begin

text \<open>
  What replay does not do: it only lists and reads, so it keeps every invariant that these calls
  keep. And what its result names: segments of the directory, by names that the parser of segment names accepts.
\<close>

section \<open>The frame\<close>

lemma replay_segments_frame:
  assumes "\<And>p w. I w \<Longrightarrow> I (snd (ReadAll fs p w))" "I w"
  shows "I (snd (replay_segments L P m fs d segments st w))"
  using assms(2)
proof (induction segments arbitrary: st w)
  case (Cons s segments)
  obtain rr w1 where r: "ReadAll fs (JoinPath d (snd s)) w = (rr, w1)" by fastforce
  then have w1: "I w1" using assms(1)[OF Cons.prems, of "JoinPath d (snd s)"] by simp
  have "snd (ReplaySegment L P m fs d s (segments = []) st w) = w1"
    by (simp add: ReplaySegment_def r split: sum.split)
  then obtain x y st1 where x: "ReplaySegment L P m fs d s (segments = []) st w = (x, w1)" and y: "x = (y, st1)"
    by (metis prod.collapse)
  consider e where "y = Inl e" | e where "y = Inr (Some e)" | "y = Inr None" by (metis not_None_eq sum.exhaust)
  then show ?case using x y w1 Cons.IH by cases simp_all
qed simp

lemma Run_frame:
  assumes "\<And>d w. I w \<Longrightarrow> I (snd (FileSystem.List fs d w))" "\<And>p w. I w \<Longrightarrow> I (snd (ReadAll fs p w))" "I w"
  shows "I (snd (Run L P m fs d st w))"
proof -
  obtain rl w1 where l: "FileSystem.List fs d w = (rl, w1)" by fastforce
  then have w1: "I w1" using assms(1)[OF assms(3), of d] by simp
  consider x where "rl = Inl x" | x where "rl = Inr (Inl x)"
    | names y where "rl = Inr (Inr names)" "scan_segments SegmentFirst names = Inl y"
    | names ss where "rl = Inr (Inr names)" "scan_segments SegmentFirst names = Inr ss" by (metis sum.exhaust)
  then show ?thesis
  proof cases
    case (4 names ss)
    let ?st = "st\<lparr>rp_expected := (if sort_key fst ss = [] then 1 else fst (hd (sort_key fst ss)))\<rparr>"
    obtain x st1 w2 where r: "replay_segments L P m fs d (sort_key fst ss) ?st w1 = ((x, st1), w2)"
      by (metis prod.exhaust)
    have "I w2" using replay_segments_frame[of I fs w1 L P m d "sort_key fst ss" ?st, OF assms(2) w1] r by simp
    then show ?thesis using r by (simp add: Run_def l 4 Let_def split: sum.split option.split)
  qed (use l w1 in \<open>auto simp: Run_def split: prod.splits\<close>)
qed

lemma ReplayJournal_frame:
  assumes "\<And>d w. I w \<Longrightarrow> I (snd (FileSystem.List fs d w))" "\<And>p w. I w \<Longrightarrow> I (snd (ReadAll fs p w))" "I w"
  shows "I (snd (ReplayJournal L P m fs d w))"
proof -
  obtain x st w1 where r: "Run L P m fs d new_Replayer w = ((x, st), w1)" by (metis prod.exhaust)
  have "I w1" using Run_frame[of I fs w L P m d new_Replayer, OF assms] by (simp add: r)
  then show ?thesis using r by (auto simp: ReplayJournal_def split: sum.splits exn.splits)
qed

section \<open>The names of a result\<close>

definition named :: "string \<Rightarrow> bool" where
  "named name \<longleftrightarrow> SegmentFirst name \<noteq> None"

definition names_only :: "Replayer \<Rightarrow> bool" where
  "names_only st \<longleftrightarrow> list_all (\<lambda>s. named (rs_name s)) (rr_segments (rp_result st))"

text \<open>The result of a step in the segment \<open>name\<close>.\<close>

definition tidy :: "string \<Rightarrow> replayed \<Rightarrow> bool" where
  "tidy name x \<longleftrightarrow> (case fst x of
      Inr None \<Rightarrow> names_only (snd x) \<and> rr_segments (rp_result (snd x)) \<noteq> []
    | Inr (Some r) \<Rightarrow> rr_segments r = [] \<and> (rr_status r = ReplayStatus.kTornTail \<longrightarrow> rr_torn_segment r = name)
    | Inl _ \<Rightarrow> True)"

lemma tidy_refuse [simp]: "status \<noteq> ReplayStatus.kTornTail \<Longrightarrow> tidy name (refuse status detail st)"
  by (simp add: tidy_def refuse_def Refuse_def Let_def)

lemma tidy_torn [simp]: "tidy name (TornTail name k st)"
  by (simp add: tidy_def TornTail_def refuse_def Refuse_def Let_def)

lemma names_count:
  assumes "names_only st" "rr_segments (rp_result st) \<noteq> []"
  shows "names_only (count_record e st) \<and> rr_segments (rp_result (count_record e st)) \<noteq> []"
proof -
  have s: "rr_segments (rp_result st) = butlast (rr_segments (rp_result st)) @ [last (rr_segments (rp_result st))]"
    using assms(2) by simp
  then have "list_all (\<lambda>s. named (rs_name s)) (butlast (rr_segments (rp_result st)) @ [last (rr_segments (rp_result st))])"
    using assms(1) by (metis names_only_def)
  then show ?thesis by (simp add: names_only_def count_record_def Let_def)
qed

lemma evict_segments: "evict st = Some st1 \<Longrightarrow> rr_segments (rp_result st1) = rr_segments (rp_result st)"
  by (auto simp: evict_def Let_def split: option.splits)

lemma ReplayEvent_tidy:
  assumes "names_only st" "rr_segments (rp_result st) \<noteq> []"
  shows "tidy name (ReplayEvent L P m name e st)"
proof -
  have c: "tidy name (Inr None, count_record e st1)" if "rr_segments (rp_result st1) = rr_segments (rp_result st)" for st1
    using names_count[of st1 e] assms that by (simp add: tidy_def names_only_def)
  show ?thesis
    using evict_segments[of st]
    by (auto simp: ReplayEvent_def Let_def add_job_def update_job_def split: sum.split option.split intro!: c)
      (simp_all add: tidy_def)
qed

lemma ReplayLine_tidy:
  "names_only st \<Longrightarrow> rr_segments (rp_result st) \<noteq> [] \<Longrightarrow> tidy name (ReplayLine L P m name offset line st)"
  using ReplayEvent_tidy by (auto simp: ReplayLine_def Let_def split: DecodeStatus.split option.split)

lemma replay_lines_tidy:
  "names_only st \<Longrightarrow> rr_segments (rp_result st) \<noteq> [] \<Longrightarrow> tidy name (replay_lines L P m name highest content offset st)"
proof (induction L P m name highest content offset st rule: replay_lines.induct)
  case (1 L P m name highest content offset st)
  note ih = 1(1) and f = 1(2,3)
  show ?case
  proof (cases "offset < length content")
    case True
    show ?thesis
    proof (cases "find_from LF content offset")
      case None
      then show ?thesis using True by (subst replay_lines.simps) simp
    next
      case (Some i)
      let ?line = "take (i + 1 - offset) (drop offset content)"
      obtain x st1 where r: "ReplayLine L P m name offset ?line st = (x, st1)" by fastforce
      then have sf: "tidy name (x, st1)" using ReplayLine_tidy[OF f] by metis
      consider y where "x = Inl y" | y where "x = Inr (Some y)" | "x = Inr None" by (metis not_None_eq sum.exhaust)
      then show ?thesis
        by cases (use True Some r sf ih[OF True Some] in
          \<open>auto simp: tidy_def[of _ "(_, _)"] AfterExhaustion_def replay_lines.simps[of L P m name highest content offset st]\<close>)
    qed
  next
    case False
    then show ?thesis using f by (subst replay_lines.simps) (simp add: tidy_def)
  qed
qed

lemma ReplayContent_tidy:
  "names_only st \<Longrightarrow> named (snd segment) \<Longrightarrow> tidy (snd segment) (ReplayContent L P m segment highest content st)"
  by (cases segment) (auto simp: ReplayContent_def names_only_def intro!: replay_lines_tidy)

definition named_result :: "ReplayResult \<Rightarrow> bool" where
  "named_result r \<longleftrightarrow> list_all (\<lambda>s. named (rs_name s)) (rr_segments r)
     \<and> (rr_status r = ReplayStatus.kTornTail \<longrightarrow> named (rr_torn_segment r))"

lemma replay_segments_named:
  assumes "list_all (\<lambda>s. named (snd s)) segments" "names_only st"
    "replay_segments L P m fs d segments st w = ((x, st1), w1)"
  shows "case x of Inl _ \<Rightarrow> True | Inr None \<Rightarrow> names_only st1 | Inr (Some r) \<Rightarrow> named_result r"
  using assms
proof (induction segments arbitrary: st w)
  case (Cons s segments)
  obtain y st2 w2 where r: "ReplaySegment L P m fs d s (segments = []) st w = ((y, st2), w2)" by (metis prod.exhaust)
  have "tidy (snd s) (fst (ReplaySegment L P m fs d s (segments = []) st w))"
    using ReplayContent_tidy[of st s] Cons.prems(1,2)
    by (auto simp: ReplaySegment_def split: prod.split sum.split) (simp add: tidy_def)
  then have t: "tidy (snd s) (y, st2)" by (simp add: r)
  consider e where "y = Inl e" | e where "y = Inr (Some e)" | "y = Inr None" by (metis not_None_eq sum.exhaust)
  then show ?case
    using r t Cons.prems Cons.IH[of st2 w2] by cases (auto simp: tidy_def named_result_def)
qed auto

lemma scan_named: "scan_segments SegmentFirst names = Inr ss \<Longrightarrow> list_all (\<lambda>s. named (snd s)) ss"
  by (induction names arbitrary: ss) (auto simp: named_def split: option.splits sum.splits if_splits)

lemma ReplayJournal_named: "named_result (fst (ReplayJournal L P m fs d w))"
proof -
  have refused: "named_result r" if "Refuse status detail st = (r, st1)" "status \<noteq> ReplayStatus.kTornTail" for status detail st r st1
    using that by (auto simp: Refuse_def Let_def named_result_def)
  obtain x st w1 where r: "Run L P m fs d new_Replayer w = ((x, st), w1)" by (metis prod.exhaust)
  have "named_result res" if "x = Inr res" for res
  proof -
    obtain rl w2 where l: "FileSystem.List fs d w = (rl, w2)" by fastforce
    consider y where "rl = Inl y" | y where "rl = Inr (Inl y)"
      | names y where "rl = Inr (Inr names)" "scan_segments SegmentFirst names = Inl y"
      | names ss where "rl = Inr (Inr names)" "scan_segments SegmentFirst names = Inr ss" by (metis sum.exhaust)
    then show ?thesis
    proof cases
      case (4 names ss)
      let ?st = "new_Replayer\<lparr>rp_expected := (if sort_key fst ss = [] then 1 else fst (hd (sort_key fst ss)))\<rparr>"
      obtain y st1 w3 where rs: "replay_segments L P m fs d (sort_key fst ss) ?st w2 = ((y, st1), w3)" by (metis prod.exhaust)
      have "list_all (\<lambda>s. named (snd s)) (sort_key fst ss)" using scan_named[OF 4(2)] by (simp add: list_all_iff)
      moreover have "names_only ?st" by (simp add: names_only_def new_Replayer_def)
      ultimately have "case y of Inl _ \<Rightarrow> True | Inr None \<Rightarrow> names_only st1 | Inr (Some r) \<Rightarrow> named_result r"
        using replay_segments_named[OF _ _ rs] by blast
      then show ?thesis using r rs that
        by (auto simp: Run_def l 4 Let_def finish_replay_def names_only_def named_result_def split: sum.splits option.splits)
    qed (use r l that refused in \<open>auto simp: Run_def split: prod.splits\<close>)
  qed
  then show ?thesis
    using r refused by (auto simp: ReplayJournal_def named_result_def Refuse_def Let_def split: sum.splits exn.splits)
qed

end
