(* ===== verification/Quarantine_Safety.thy ===== *)
theory Quarantine_Safety
  imports Maintenance Replay_Frame Journal_Commit Journal_Open "HOL-Library.Sublist"
begin

text \<open>
  \<^verbatim>\<open>QuarantineTornTail\<close> never loses a byte: whatever call fails or throws, the segment is cut only once
  the torn bytes are complete in the quarantine file, and nothing else in the store changes but the lock file.
\<close>

section \<open>What a run may leave\<close>

text \<open>From the files \<open>f\<close> before the run to the files \<open>g\<close>; \<open>r\<close> names the segment, the offset and the quarantine file.\<close>

definition untouched :: "string \<Rightarrow> (string \<Rightarrow> string option) \<Rightarrow> (string \<Rightarrow> string option) \<Rightarrow> bool" where
  "untouched d f g \<longleftrightarrow> (\<forall>x. x \<noteq> JoinPath d lock_name \<longrightarrow> g x = f x)"

definition grown :: "string \<Rightarrow> QuarantineResult \<Rightarrow> (string \<Rightarrow> string option) \<Rightarrow> (string \<Rightarrow> string option) \<Rightarrow> bool" where
  "grown d r f g \<longleftrightarrow> (let p = JoinPath d (qr_segment r); q = JoinPath d (qr_quarantine r) in
     (\<forall>x. x \<noteq> JoinPath d lock_name \<and> x \<noteq> q \<longrightarrow> g x = f x)
     \<and> (\<exists>c y. f p = Some c \<and> g p = Some c \<and> g q = Some y \<and> prefix y (drop (unat (qr_offset r)) c)
          \<and> (\<forall>e. f q = Some e \<longrightarrow> prefix e y)))"

definition cut :: "string \<Rightarrow> QuarantineResult \<Rightarrow> (string \<Rightarrow> string option) \<Rightarrow> (string \<Rightarrow> string option) \<Rightarrow> bool" where
  "cut d r f g \<longleftrightarrow> (let p = JoinPath d (qr_segment r); q = JoinPath d (qr_quarantine r) in
     (\<forall>x. x \<noteq> JoinPath d lock_name \<and> x \<noteq> p \<and> x \<noteq> q \<longrightarrow> g x = f x)
     \<and> (\<exists>c. f p = Some c \<and> g p = Some (take (unat (qr_offset r)) c) \<and> g q = Some (drop (unat (qr_offset r)) c)
          \<and> (\<forall>e. f q = Some e \<longrightarrow> prefix e (drop (unat (qr_offset r)) c))))"

definition quarantine_leaves :: "string \<Rightarrow> (string \<Rightarrow> string option) \<Rightarrow> bool \<Rightarrow> QuarantineResult \<Rightarrow> (string \<Rightarrow> string option) \<Rightarrow> bool" where
  "quarantine_leaves d f thrown r g \<longleftrightarrow>
     (if thrown \<or> qr_status r = MaintenanceStatus.kFailed then untouched d f g \<or> grown d r f g \<or> cut d r f g
      else if qr_status r = MaintenanceStatus.kDone then cut d r f g
      else untouched d f g)"

lemma leaves_finish [simp]:
  "grown d (FinishQuarantine s t r) f g = grown d r f g" "cut d (FinishQuarantine s t r) f g = cut d r f g"
  "qr_status (FinishQuarantine s t r) = s"
  by (simp_all add: FinishQuarantine_def grown_def cut_def)

lemma leaves_untouched:
  "untouched d f g \<Longrightarrow> quarantine_leaves d f True r g"
  "untouched d f g \<Longrightarrow> s \<noteq> MaintenanceStatus.kDone \<Longrightarrow> quarantine_leaves d f False (FinishQuarantine s t r) g"
  by (simp_all add: quarantine_leaves_def)

text \<open>The file that takes the torn bytes; \<open>None\<close> is success.\<close>

definition appended :: "string \<Rightarrow> string \<Rightarrow> bool \<Rightarrow> (string \<Rightarrow> string option) \<Rightarrow> string option \<Rightarrow> (string \<Rightarrow> string option) \<Rightarrow> bool" where
  "appended p b create f failure g \<longleftrightarrow> failure \<noteq> None \<and> g = f
     \<or> (\<exists>e k. (if create then f p = None \<and> e = [] else f p = Some e) \<and> k \<le> length b \<and> g = f(p \<mapsto> e @ take k b)
          \<and> (failure = None \<longrightarrow> k = length b))"

text \<open>An assertion about the result and the files of a state that the store can be in.\<close>

definition held :: "('w \<Rightarrow> bool) \<Rightarrow> ('w \<Rightarrow> string \<Rightarrow> string option) \<Rightarrow> ('r \<Rightarrow> (string \<Rightarrow> string option) \<Rightarrow> bool) \<Rightarrow> 'r \<Rightarrow> 'w \<Rightarrow> bool" where
  "held ok files F r w \<longleftrightarrow> ok w \<and> F r (files w)"

section \<open>The quarantine file\<close>

text \<open>The tool is at the segment \<open>seg\<close>, which holds \<open>c\<close>; the bytes from \<open>off\<close> on go to the file \<open>quar\<close>.\<close>

definition aimed :: "string \<Rightarrow> string \<Rightarrow> u64 \<Rightarrow> string \<Rightarrow> string \<Rightarrow> (string \<Rightarrow> string option) \<Rightarrow> QuarantineResult \<Rightarrow> bool" where
  "aimed d seg off quar c f r \<longleftrightarrow> qr_segment r = seg \<and> qr_offset r = off \<and> qr_quarantine r = quar \<and> f (JoinPath d seg) = Some c
     \<and> distinct [JoinPath d lock_name, JoinPath d seg, JoinPath d quar]"

definition secured :: "string \<Rightarrow> u64 \<Rightarrow> string \<Rightarrow> string \<Rightarrow> (string \<Rightarrow> string option) \<Rightarrow> (string \<Rightarrow> string option) \<Rightarrow> bool" where
  "secured d off quar c f g \<longleftrightarrow> (\<forall>x. x \<noteq> JoinPath d lock_name \<and> x \<noteq> JoinPath d quar \<longrightarrow> g x = f x)
     \<and> g (JoinPath d quar) = Some (drop (unat off) c)
     \<and> (\<forall>e. f (JoinPath d quar) = Some e \<longrightarrow> prefix e (drop (unat off) c))"

lemma torn_name_plain:
  assumes "named seg"
  shows "plain_name seg" "plain_name (seg @ ''.torn-'' @ to_string off)" "plain_name lock_name"
    "distinct [lock_name, seg, seg @ ''.torn-'' @ to_string off]"
proof -
  obtain n where n: "seg = SegmentName n" using assms by (auto simp: named_def SegmentFirst_eq SegmentFirstSequence_iff)
  have "IsAsciiDigit c \<Longrightarrow> c \<noteq> SLASH \<and> c \<noteq> BACKSLASH" for c by (auto simp: IsAsciiDigit_def)
  then have "SLASH \<notin> set (to_string off)" "BACKSLASH \<notin> set (to_string off)"
    using dec_digits by (auto simp: to_string_def)
  then show "plain_name seg" "plain_name (seg @ ''.torn-'' @ to_string off)" "plain_name lock_name"
    using SegmentName_plain[of n] n by (auto simp: plain_name_def lock_name_def)
  have "seg \<noteq> lock_name" "seg @ x \<noteq> lock_name" for x
    unfolding n SegmentName_padded segment_prefix_def lock_name_def by simp_all
  then show "distinct [lock_name, seg, seg @ ''.torn-'' @ to_string off]" by (metis append_self_conv distinct_length_2_or_more distinct_singleton list.discI append_Cons)
qed

lemma aimed_at:
  assumes "named seg" "quar = seg @ ''.torn-'' @ to_string off" "qr_segment r = seg" "qr_offset r = off" "qr_quarantine r = quar"
    "f (JoinPath d seg) = Some c"
  shows "aimed d seg off quar c f r"
  using torn_name_plain(1,3)[OF assms(1)] torn_name_plain(2,4)[OF assms(1), of off] assms(2-) by (simp add: aimed_def JoinPath_inject)

lemma aimed_untouched: "aimed d seg off quar c f r \<Longrightarrow> untouched d f g \<Longrightarrow> g (JoinPath d seg) = Some c"
  by (auto simp: aimed_def untouched_def)

lemma secured_cut:
  assumes "aimed d seg off quar c f r" "secured d off quar c f g"
  shows "cut d r f (g(JoinPath d seg \<mapsto> take (unat off) c))"
  using assms by (auto simp: aimed_def secured_def cut_def Let_def)

lemma secured_grown: "aimed d seg off quar c f r \<Longrightarrow> secured d off quar c f g \<Longrightarrow> grown d r f g"
  by (auto simp: aimed_def secured_def grown_def Let_def)

lemma appended_leaves:
  assumes "aimed d seg off quar c f r" "untouched d f g0" "appended (JoinPath d quar) b create g0 failure g"
    "if create then b = drop (unat off) c
     else \<exists>e. g0 (JoinPath d quar) = Some e \<and> prefix e (drop (unat off) c) \<and> b = drop (length e) (drop (unat off) c)"
  shows "untouched d f g \<or> grown d r f g" "failure = None \<Longrightarrow> secured d off quar c f g"
proof -
  let ?q = "JoinPath d quar" and ?t = "drop (unat off) c"
  have q: "g0 ?q = f ?q" using assms(1,2) by (force simp: aimed_def untouched_def)
  consider "g = g0" "failure \<noteq> None"
    | e k where "if create then g0 ?q = None \<and> e = [] else g0 ?q = Some e" "k \<le> length b" "g = g0(?q \<mapsto> e @ take k b)"
        "failure = None \<longrightarrow> k = length b"
    using assms(3) unfolding appended_def by blast
  then have "(untouched d f g \<or> grown d r f g) \<and> (failure = None \<longrightarrow> secured d off quar c f g)"
  proof cases
    case (2 e k)
    have e: "prefix e ?t" "b = drop (length e) ?t" using assms(4) 2(1) by (auto split: if_splits)
    then have t: "e @ b = ?t" by (metis append_eq_conv_conj prefix_def)
    then have y: "prefix (e @ take k b) ?t" by (metis append_take_drop_id append.assoc prefixI)
    have old: "f ?q = Some e' \<Longrightarrow> prefix e' (e @ take k b)" for e' using 2(1) q by (auto split: if_splits)
    have "untouched d f g \<or> grown d r f g"
      using assms(1,2) 2(3) y old by (auto simp: grown_def Let_def aimed_def untouched_def)
    moreover have "secured d off quar c f g" if "failure = None"
      using assms(1,2) 2(3,4) that t old by (auto simp: secured_def untouched_def)
    ultimately show ?thesis by blast
  qed (use assms(2) in auto)
  then show "untouched d f g \<or> grown d r f g" "failure = None \<Longrightarrow> secured d off quar c f g" by blast+
qed

section \<open>The loop\<close>

lemma append_loop_induct [consumes 1, case_names finished failed again more]:
  assumes "append_loop fs h b w = Some r"
    and "\<And>w. P [] w (True, w)"
    and "\<And>b w out w1. b \<noteq> [] \<Longrightarrow> Write fs h b w = (out, w1) \<Longrightarrow> P b w (False, w1)"
    and "\<And>b w r out w1. b \<noteq> [] \<Longrightarrow> Write fs h b w = (out, w1) \<Longrightarrow> wo_written out = 0 \<Longrightarrow> P b w1 r \<Longrightarrow> P b w r"
    and "\<And>b w r out w1. b \<noteq> [] \<Longrightarrow> Write fs h b w = (out, w1) \<Longrightarrow> P (drop (min (wo_written out) (length b)) b) w1 r \<Longrightarrow> P b w r"
  shows "P b w r"
proof -
  have "fs = fs \<longrightarrow> h = h \<longrightarrow> P b w r"
  proof (rule append_loop.raw_induct[where P = "\<lambda>fs' h' b w r. fs' = fs \<longrightarrow> h' = h \<longrightarrow> P b w r", OF _ assms(1)], goal_cases)
    case (1 loop fs' h' b w r)
    show ?case
    proof (intro impI)
      assume eq: "fs' = fs" "h' = h"
      obtain out w1 where out: "Write fs h b w = (out, w1)" by fastforce
      show "P b w r"
        using 1(2) 1(1)[of fs h b w1 r] 1(1)[of fs h "drop (min (wo_written out) (length b)) b" w1 r] out eq
          assms(2)[of w] assms(3)[OF _ out] assms(4)[OF _ out, of r] assms(5)[OF _ out, of r]
        by (simp add: Let_def split: if_splits)
    qed
  qed
  then show ?thesis by simp
qed

section \<open>Calls that change no file\<close>

context maintenance_store
begin

lemma call_quiet:
  assumes "\<And>w x w'. f w = (x, w') \<Longrightarrow> ok w \<Longrightarrow> ok w' \<and> files w' = files w" "\<And>r g. F r g \<Longrightarrow> X True r g"
  shows "meets (held ok files F) (call f) (\<lambda>_. held ok files F) (\<lambda>t. held ok files (X t))"
  by (rule meets_call) (use assms in \<open>auto simp: held_def\<close>)

lemma call_quiet_noexcept:
  assumes "\<And>w x w'. f w = (x, w') \<Longrightarrow> ok w \<Longrightarrow> ok w' \<and> files w' = files w"
  shows "meets (held ok files F) (call_noexcept f) (\<lambda>_. held ok files F) E"
  by (rule meets_noexcept) (use assms in \<open>auto simp: held_def\<close>)

lemma call_ReadAll:
  assumes "\<And>r g. F r g \<Longrightarrow> X True r g"
  shows "meets (held ok files F) (call (ReadAll (base m) p))
    (\<lambda>a. held ok files (\<lambda>r g. F r g \<and> (\<forall>c. a = Inr c \<longrightarrow> g p = Some c))) (\<lambda>t. held ok files (X t))"
proof (rule meets_call)
  fix r w a w' assume a: "held ok files F r w" "ReadAll (base m) p w = (Inr a, w')"
  then show "held ok files (\<lambda>r g. F r g \<and> (\<forall>c. a = Inr c \<longrightarrow> g p = Some c)) r w'"
    using ReadAll_law[OF a(2)] by (auto simp: held_def)
next
  fix r w x w' assume a: "held ok files F r w" "ReadAll (base m) p w = (Inl x, w')"
  then show "held ok files (X True) r w'" using ReadAll_law[OF a(2)] assms by (auto simp: held_def)
qed

lemma call_List:
  assumes "\<And>r g. F r g \<Longrightarrow> X True r g"
  shows "meets (held ok files F) (call (FileSystem.List (base m) d))
    (\<lambda>a. held ok files (\<lambda>r g. F r g \<and> (\<forall>names n. a = Inr names \<longrightarrow> plain_name n \<longrightarrow> (n \<in> set names \<longleftrightarrow> g (JoinPath d n) \<noteq> None))))
    (\<lambda>t. held ok files (X t))"
proof (rule meets_call)
  fix r w a w' assume a: "held ok files F r w" "FileSystem.List (base m) d w = (Inr a, w')"
  then show "held ok files (\<lambda>r g. F r g \<and> (\<forall>names n. a = Inr names \<longrightarrow> plain_name n
      \<longrightarrow> (n \<in> set names \<longleftrightarrow> g (JoinPath d n) \<noteq> None))) r w'"
    using List_law[OF a(2)] by (auto simp: held_def)
next
  fix r w x w' assume a: "held ok files F r w" "FileSystem.List (base m) d w = (Inl x, w')"
  then show "held ok files (X True) r w'" using List_law[OF a(2)] assms by (auto simp: held_def)
qed

lemma ReplayAll_quiet: "ReplayAll L P (base m) d w = (x, w') \<Longrightarrow> ok w \<Longrightarrow> ok w' \<and> files w' = files w"
proof -
  assume r: "ReplayAll L P (base m) d w = (x, w')" "ok w"
  have "(\<lambda>w'. ok w' \<and> files w' = files w) (snd (ReplayJournal L P size_max (base m) d w))"
  proof (rule ReplayJournal_frame)
    fix d' w1 assume "ok w1 \<and> files w1 = files w"
    then show "ok (snd (FileSystem.List (base m) d' w1)) \<and> files (snd (FileSystem.List (base m) d' w1)) = files w"
      using List_law[of d' w1] by (metis prod.collapse)
  next
    fix p w1 assume "ok w1 \<and> files w1 = files w"
    then show "ok (snd (ReadAll (base m) p w1)) \<and> files (snd (ReadAll (base m) p w1)) = files w"
      using ReadAll_law[of p w1] by (metis prod.collapse)
  qed (use r in simp)
  then show ?thesis using r(1) by (simp add: ReplayAll_def)
qed

lemma NotOwnFile_meets:
  assumes "\<And>r g. F r g \<Longrightarrow> X True r g"
  shows "meets (held ok files F) (NotOwnFile m p single) (\<lambda>_. held ok files F) (\<lambda>t. held ok files (X t))"
  unfolding NotOwnFile_def
  by (intro meets_andthen[OF call_quiet[where X = X]] meets_rules Entry_law HardLinks_law assms) auto

lemma q_return_meets:
  assumes "\<And>r g. F r g \<Longrightarrow> X False (FinishQuarantine s t r) g"
  shows "meets (held ok files F) (q_return s t) B (\<lambda>t. held ok files (X t))"
  unfolding q_return_def
  by (rule meets_andthen[where C = "\<lambda>_ r w. ok w \<and> X False r (files w)"])
    (auto intro!: meets_rules simp: held_def assms)

lemma held_Close: "held ok files F r w \<Longrightarrow> held ok files F r (Close (base m) h w)"
  using Close_law[of h w] by (auto simp: held_def)

lemma JournalLock_meets:
  assumes "\<And>why. meets (held ok files (\<lambda>r g. R r \<and> untouched d f g)) (otherwise why) (\<lambda>a. held ok files (B a)) (\<lambda>t. held ok files (X t))"
    "meets (held ok files (\<lambda>r g. R r \<and> untouched d f g)) body (\<lambda>a. held ok files (B a)) (\<lambda>t. held ok files (X t))"
    "\<And>r g. R r \<and> untouched d f g \<Longrightarrow> X True r g"
  shows "meets (\<lambda>r w. R r \<and> ok w \<and> files w = f) (JournalLock m d otherwise body) (\<lambda>a. held ok files (B a)) (\<lambda>t. held ok files (X t))"
  unfolding JournalLock_def
proof (rule meets_andthen[where C = "\<lambda>_. held ok files (\<lambda>r g. R r \<and> untouched d f g)"])
  have l: "ok w \<Longrightarrow> files w = f \<Longrightarrow> Lock (base m) (JoinPath d lock_name) w = (x, w') \<Longrightarrow> ok w' \<and> untouched d f (files w')" for w x w'
    using Lock_law[of "JoinPath d lock_name" w x w'] by (auto simp: untouched_def)
  show "meets (\<lambda>r w. R r \<and> ok w \<and> files w = f) (call (Lock (base m) (JoinPath d lock_name)))
      (\<lambda>_. held ok files (\<lambda>r g. R r \<and> untouched d f g)) (\<lambda>t. held ok files (X t))"
    by (rule meets_call) (use l assms(3) in \<open>auto simp: held_def\<close>)
next
  have "meets (held ok files (\<lambda>r g. R r \<and> untouched d f g)) (scoped (Close (base m) h) body) (\<lambda>a. held ok files (B a)) (\<lambda>t. held ok files (X t))" for h
    by (intro meets_scoped meets_weaken[OF assms(2)] held_Close)
  then show "meets (held ok files (\<lambda>r g. R r \<and> untouched d f g)) (case a of Inl e \<Rightarrow> otherwise (if e = IoError.kLocked
      then ''journal_locked: '' @ d else ''journal_unreadable: cannot lock '' @ d) | Inr h \<Rightarrow> scoped (Close (base m) h) body)
    (\<lambda>a. held ok files (B a)) (\<lambda>t. held ok files (X t))" for a
    by (intro meets_sum assms(1))
qed

section \<open>The steps of the tool\<close>

lemma RefuseForeign_meets:
  assumes "\<And>r g. F r g \<Longrightarrow> untouched d f g"
  shows "meets (held ok files F) (RefuseForeign m p) (\<lambda>_. held ok files F) (\<lambda>t. held ok files (quarantine_leaves d f t))"
  unfolding RefuseForeign_def
  by (intro meets_andthen[OF NotOwnFile_meets] meets_rules q_return_meets leaves_untouched assms) auto

lemma Holds_meets:
  assumes "\<And>r g. F r g \<Longrightarrow> X True r g"
  shows "meets (held ok files F) (Holds m p c) (\<lambda>b. held ok files (\<lambda>r g. F r g \<and> (b \<longrightarrow> g p = Some c))) (\<lambda>t. held ok files (X t))"
  unfolding Holds_def
  by (intro meets_andthen[OF call_ReadAll] meets_go assms) (auto simp: held_def)

lemma ResyncCut_meets:
  "meets (held ok files (\<lambda>r g. untouched d f g \<and> g (JoinPath d h) = Some c)) (ResyncCut m d h c q)
     (\<lambda>_. held ok files (\<lambda>r. untouched d f)) (\<lambda>t. held ok files (quarantine_leaves d f t))"
proof -
  let ?F = "\<lambda>r g. untouched d f g \<and> g (JoinPath d h) = Some c"
  have "meets (held ok files ?F) (call (Truncate m (JoinPath d h) (length c))) (\<lambda>_. held ok files ?F)
      (\<lambda>t. held ok files (quarantine_leaves d f t))"
  proof -
    have "ok w' \<and> files w' = files w" if "Truncate m (JoinPath d h) (length c) w = (x, w')" "ok w" "files w (JoinPath d h) = Some c" for w x w'
      using Truncate_law[OF that(1,2)] that(3) by (auto simp: fun_upd_idem)
    then show ?thesis by (intro meets_call) (auto simp: held_def leaves_untouched)
  qed
  note t = this
  show ?thesis
    unfolding ResyncCut_def Let_def
    by (intro meets_andthen[OF RefuseForeign_meets] meets_andthen[OF t] meets_andthen[OF Holds_meets]
        meets_andthen[OF call_quiet_noexcept] meets_rules q_return_meets leaves_untouched SyncDirectory_law)
      (auto simp: held_def leaves_untouched dest: SyncDirectory_law)
qed

lemma ResyncEarlierCut_meets:
  "meets (held ok files (\<lambda>r. untouched d f)) (ResyncEarlierCut m d)
     (\<lambda>_. held ok files (\<lambda>r. untouched d f)) (\<lambda>t. held ok files (quarantine_leaves d f t))"
proof -
  have l: "FileSystem.List (base m) d w = (x, w') \<Longrightarrow> ok w \<Longrightarrow> ok w' \<and> files w' = files w" for w x w'
    using List_law[of d w x w'] by blast
  show ?thesis
    unfolding ResyncEarlierCut_def Let_def
    by (intro meets_andthen[OF call_quiet[OF l]] meets_andthen[OF call_ReadAll] meets_weaken[OF ResyncCut_meets]
        meets_rules q_return_meets leaves_untouched) (auto simp: held_def leaves_untouched)
qed

lemma append_loop_effect:
  assumes "append_loop (base m) h b w = Some (fin, w')" "ok w" "open_path w h = Some p" "files w p = Some c"
  shows "ok w' \<and> open_path w' = open_path w \<and> (\<exists>k \<le> length b. files w' = (files w)(p \<mapsto> c @ take k b) \<and> (fin \<longrightarrow> k = length b))"
proof -
  have "ok (snd r) \<and> open_path (snd r) = open_path w
      \<and> (\<exists>k \<le> length b. files (snd r) = (files w)(p \<mapsto> c @ take k b) \<and> (fst r \<longrightarrow> k = length b))"
    if "append_loop (base m) h b w = Some r" for r
    using that assms(2-4)
  proof (induction arbitrary: c rule: append_loop_induct)
    case (finished w)
    then show ?case by (auto simp: fun_upd_idem)
  next
    case (failed b w out w1)
    then show ?case using Write_law[OF failed(2-5)] by auto
  next
    case (again b w r out w1)
    then show ?case using Write_law[OF again(2,5-7)] again(4)[of c] by (auto simp: fun_upd_idem)
  next
    case (more b w r out w1)
    note w1 = Write_law[OF more(2,4-6)]
    let ?n = "wo_written out"
    have n: "drop (min ?n (length b)) b = drop ?n b" "open_path w1 h = Some p" "files w1 p = Some (c @ take ?n b)" "ok w1"
      using w1 more(5) by auto
    from more(3)[unfolded n(1), OF n(4,2,3)] obtain k where k: "ok (snd r)" "open_path (snd r) = open_path w1"
      "k \<le> length (drop ?n b)" "files (snd r) = (files w1)(p \<mapsto> (c @ take ?n b) @ take k (drop ?n b))"
      "fst r \<longrightarrow> k = length (drop ?n b)" by blast
    have "files (snd r) = (files w)(p \<mapsto> c @ take (?n + k) b)" unfolding k(4) using w1 by (simp add: take_add)
    then show ?case using w1 k by (intro conjI exI[of _ "?n + k"]) auto
  qed
  from this[OF assms(1)] show ?thesis by simp
qed

lemma AppendDurably_effect:
  assumes "AppendDurably m p b create (r, w) = Some (x, r', w')" "ok w"
  shows "ok w' \<and> r' = r \<and> (case x of Went failure \<Rightarrow> appended p b create (files w) failure (files w') | _ \<Rightarrow> files w' = files w)"
proof -
  obtain oh w1 where oh: "OpenAppend (base m) p create w = (oh, w1)" by fastforce
  note w1 = OpenAppend_law[OF oh assms(2)]
  consider e where "oh = Inl e" | e where "oh = Inr (Inl e)" | h where "oh = Inr (Inr h)" by (metis sum.exhaust)
  then show ?thesis
  proof cases
    case (3 h)
    let ?e = "if create then [] else the (files w p)"
    have o: "ok w1" "open_path w1 h = Some p" "files w1 p = Some ?e" "\<And>v. (files w1)(p \<mapsto> v) = (files w)(p \<mapsto> v)"
      using w1 3 by (auto split: if_splits)
    have start: "if create then files w p = None \<and> ?e = [] else files w p = Some ?e" using w1 3 by auto
    obtain fin w2 where l: "append_loop (base m) h b w1 = Some (fin, w2)"
      using assms(1) by (auto simp: AppendDurably_def andthen_def call_def call_loop_def oh 3 scoped_def split: option.splits)
    from append_loop_effect[OF l o(1-3)] obtain k where k: "ok w2" "open_path w2 h = Some p" "k \<le> length b"
      "files w2 = (files w)(p \<mapsto> ?e @ take k b)" "fin \<longrightarrow> k = length b" using o(2,4) by auto
    obtain e w3 where sy: "SyncData (base m) h w2 = (e, w3)" by fastforce
    have w3: "ok w3" "files w3 = files w2" using SyncData_law[OF sy k(1)] k(2) by auto
    have "w' = Close (base m) h (if fin then w3 else w2)" "r' = r"
      "x = Went (if \<not> fin then Some (Failed ''write'' p) else if e \<noteq> IoError.kNone then Some (Failed ''sync'' p) else None)"
      using assms(1) by (auto simp: AppendDurably_def andthen_def call_def call_loop_def call_noexcept_def oh 3 scoped_def l sy go_def
          split: if_splits)
    moreover from this(1) have "ok w'" "files w' = files w2"
      using Close_law[of h w3] Close_law[of h w2] w3 k(1) by (auto split: if_splits)
    moreover have "appended p b create (files w) failure (files w2)" if "failure = None \<longrightarrow> fin" for failure
      unfolding appended_def by (intro disjI2 exI[of _ ?e] exI[of _ k]) (use k(3-5) start that in simp)
    ultimately show ?thesis by auto
  qed (use assms(1) w1 in \<open>auto simp: AppendDurably_def andthen_def call_def oh go_def appended_def\<close>)
qed

lemma AppendDurably_meets:
  assumes "\<And>r g. F r g \<Longrightarrow> X True r g"
  shows "meets (held ok files F) (AppendDurably m p b create)
    (\<lambda>failure. held ok files (\<lambda>r g. \<exists>g0. F r g0 \<and> appended p b create g0 failure g)) (\<lambda>t. held ok files (X t))"
  unfolding meets_def
proof (intro allI impI)
  fix r w assume a: "held ok files F r w"
  have no_stop: "AppendDurably m p b create (r, w) \<noteq> Some (Stopped, r', w')" for r' w'
    by (auto simp: AppendDurably_def andthen_def call_def call_loop_def call_noexcept_def scoped_def go_def
        split: prod.splits sum.splits option.splits if_splits)
  show "lands (\<lambda>failure. held ok files (\<lambda>r g. \<exists>g0. F r g0 \<and> appended p b create g0 failure g)) (\<lambda>t. held ok files (X t))
    (AppendDurably m p b create (r, w))"
    by (cases rule: landed_cases[of "AppendDurably m p b create (r, w)"])
      (use a no_stop AppendDurably_effect[of p b create r w] assms in \<open>auto simp: held_def\<close>)
qed

lemma AppendTail_meets:
  assumes "\<And>r g. F r g \<Longrightarrow> (aimed d seg off quar c f r \<and> untouched d f g) \<and> (if create then b = drop (unat off) c
    else \<exists>e. g (JoinPath d quar) = Some e \<and> prefix e (drop (unat off) c) \<and> b = drop (length e) (drop (unat off) c))"
  shows "meets (held ok files F) (AppendDurably m (JoinPath d quar) b create)
    (\<lambda>failure. held ok files (\<lambda>r g. (aimed d seg off quar c f r \<and> (untouched d f g \<or> grown d r f g))
       \<and> (failure = None \<longrightarrow> secured d off quar c f g)))
    (\<lambda>t. held ok files (quarantine_leaves d f t))"
proof (rule meets_weaken[OF AppendDurably_meets[where F = F and X = "quarantine_leaves d f"]])
  fix failure r w
  assume "held ok files (\<lambda>r g. \<exists>g0. F r g0 \<and> appended (JoinPath d quar) b create g0 failure g) r w"
  then obtain g0 where g: "ok w" "F r g0" "appended (JoinPath d quar) b create g0 failure (files w)" unfolding held_def by blast
  have a: "aimed d seg off quar c f r" "untouched d f g0" using assms[OF g(2)] by blast+
  note b = appended_leaves[OF a g(3) conjunct2[OF assms[OF g(2)]]]
  show "held ok files (\<lambda>r g. (aimed d seg off quar c f r \<and> (untouched d f g \<or> grown d r f g))
     \<and> (failure = None \<longrightarrow> secured d off quar c f g)) r w"
    unfolding held_def using g(1) a(1) b by blast
qed (use assms leaves_untouched(1) in blast)+

lemma WriteQuarantine_meets:
  "meets (held ok files (\<lambda>r g. aimed d seg off quar c f r \<and> untouched d f g)) (WriteQuarantine m d quar (drop (unat off) c))
     (\<lambda>_. held ok files (\<lambda>r g. aimed d seg off quar c f r \<and> secured d off quar c f g)) (\<lambda>t. held ok files (quarantine_leaves d f t))"
proof -
  let ?q = "JoinPath d quar" and ?t = "drop (unat off) c"
  let ?A = "\<lambda>r g. aimed d seg off quar c f r \<and> untouched d f g"
  let ?S = "\<lambda>r g. aimed d seg off quar c f r \<and> (untouched d f g \<or> grown d r f g)"
  let ?W = "\<lambda>failure r g. ?S r g \<and> (failure = None \<longrightarrow> secured d off quar c f g)"
  have l: "FileSystem.List (base m) d w = (x, w') \<Longrightarrow> ok w \<Longrightarrow> ok w' \<and> files w' = files w" for w x w'
    using List_law[of d w x w'] by blast
  have create: "meets (held ok files ?A) (AppendDurably m ?q ?t True) (\<lambda>a. held ok files (?W a)) (\<lambda>t. held ok files (quarantine_leaves d f t))"
    by (rule AppendTail_meets) simp
  have extend: "meets (held ok files (\<lambda>r g. ?A r g \<and> (\<forall>y. x = Inr y \<longrightarrow> g ?q = Some y)))
      (AppendDurably m ?q (drop (length e) ?t) False) (\<lambda>a. held ok files (?W a)) (\<lambda>t. held ok files (quarantine_leaves d f t))"
    if "x = Inr e" "\<not> (length e > length ?t \<or> \<not> starts_with ?t e)" for x :: "IoError + string" and e
  proof (rule AppendTail_meets)
    have "prefix e ?t" using that(2) unfolding starts_with_def by (metis take_is_prefix)
    then show "?A r g \<and> (\<forall>y. x = Inr y \<longrightarrow> g ?q = Some y) \<Longrightarrow> ?A r g \<and> (if False then drop (length e) ?t = ?t
        else \<exists>e'. g ?q = Some e' \<and> prefix e' ?t \<and> drop (length e) ?t = drop (length e') ?t)" for r g
      using that(1) by auto
  qed
  have finish: "meets (held ok files (?W a)) (case a of Some why \<Rightarrow> q_return MaintenanceStatus.kFailed why
      | None \<Rightarrow> andthen (call_noexcept (SyncDirectory (base m) d)) (\<lambda>e. if e \<noteq> IoError.kNone
          then q_return MaintenanceStatus.kFailed (Failed ''sync directory'' d) else go ()))
      (\<lambda>_. held ok files (\<lambda>r g. aimed d seg off quar c f r \<and> secured d off quar c f g)) (\<lambda>t. held ok files (quarantine_leaves d f t))" for a
    by (intro meets_andthen[OF call_quiet_noexcept] meets_rules q_return_meets)
      (auto simp: held_def quarantine_leaves_def dest: SyncDirectory_law)
  show ?thesis
    unfolding WriteQuarantine_def Let_def
    by (intro meets_andthen[OF call_quiet[where f = "FileSystem.List (base m) d", OF l]] meets_andthen[where C = "\<lambda>a. held ok files (?W a)"] finish create
        meets_andthen[OF RefuseForeign_meets] meets_andthen[OF call_ReadAll] extend meets_rules q_return_meets)
      (auto simp: held_def leaves_untouched)
qed

lemma VerifyQuarantine_meets:
  "meets (held ok files (\<lambda>r. cut d r f)) (VerifyQuarantine L P m d replayed)
     (\<lambda>_. held ok files (quarantine_leaves d f False)) (\<lambda>t. held ok files (quarantine_leaves d f t))"
proof -
  have c: "cut d (r\<lparr>qr_sequence_exhausted := x, qr_next_sequence := y\<rparr>) f g = cut d r f g" for r x y g
    by (simp add: cut_def)
  show ?thesis
    unfolding VerifyQuarantine_def
    by (intro meets_andthen[OF call_quiet_noexcept[OF ReplayAll_quiet]] meets_if q_return_meets
        meets_andthen[OF meets_update[where B = "\<lambda>_. held ok files (\<lambda>r. cut d r f)"]]
        meets_andthen[OF meets_current[where B = "\<lambda>_. held ok files (\<lambda>r. cut d r f)"]])
      (auto simp: held_def quarantine_leaves_def c Let_def)
qed

lemma CutTail_meets:
  assumes "named (rr_torn_segment replayed)" "length c > unat (rr_torn_offset replayed)"
    "seg = rr_torn_segment replayed" "off = rr_torn_offset replayed" "quar = seg @ ''.torn-'' @ to_string off"
  shows "meets (held ok files (\<lambda>r g. aimed d seg off quar c f r \<and> untouched d f g)) (CutTail L P m d replayed c)
     (\<lambda>_. held ok files (quarantine_leaves d f False)) (\<lambda>t. held ok files (quarantine_leaves d f t))"
proof -
  let ?p = "JoinPath d seg"
  let ?A = "\<lambda>r g. aimed d seg off quar c f r \<and> untouched d f g"
  let ?S = "\<lambda>r g. aimed d seg off quar c f r \<and> secured d off quar c f g"
  let ?T = "\<lambda>r g. aimed d seg off quar c f r \<and> (secured d off quar c f g \<or> cut d r f g)"
  have left: "?T r g \<Longrightarrow> quarantine_leaves d f True r g" "?T r g \<Longrightarrow> quarantine_leaves d f False (FinishQuarantine MaintenanceStatus.kFailed t r) g"
    for r g t using secured_grown by (auto simp: quarantine_leaves_def)
  have at: "secured d off quar c f g \<Longrightarrow> aimed d seg off quar c f r \<Longrightarrow> g ?p = Some c" for g r
    by (auto simp: secured_def aimed_def)
  have trunc: "meets (held ok files ?S) (call (Truncate m ?p (unat off))) (\<lambda>_. held ok files ?T) (\<lambda>t. held ok files (quarantine_leaves d f t))"
  proof -
    have "ok w' \<and> ?T r (files w')" if "Truncate m ?p (unat off) w = (x, w')" "ok w" "?S r (files w)" for w x w' r
      using Truncate_law[OF that(1,2)] that(3) at[of "files w" r] secured_cut[of d seg off quar c f r "files w"] by auto
    then show ?thesis by (intro meets_call) (auto simp: held_def, metis left(1))
  qed
  have holds: "meets (held ok files (\<lambda>r g. ?T r g \<and> (b \<longrightarrow> g ?p = Some (take (unat off) c)))) (if \<not> b then q_return MaintenanceStatus.kFailed x
      else VerifyQuarantine L P m d replayed) (\<lambda>_. held ok files (quarantine_leaves d f False)) (\<lambda>t. held ok files (quarantine_leaves d f t))" for b x
  proof (rule meets_if)
    assume b: "\<not> \<not> b"
    have "take (unat off) c \<noteq> c" using assms(2,4) by (metis length_take min_less_iff_conj nat_less_le take_all_iff linorder_not_le)
    then have "?T r g \<Longrightarrow> g ?p = Some (take (unat off) c) \<Longrightarrow> cut d r f g" for r g using at[of g r] by force
    then show "meets (held ok files (\<lambda>r g. ?T r g \<and> (b \<longrightarrow> g ?p = Some (take (unat off) c)))) (VerifyQuarantine L P m d replayed)
        (\<lambda>_. held ok files (quarantine_leaves d f False)) (\<lambda>t. held ok files (quarantine_leaves d f t))"
      using b by (intro meets_weaken[OF VerifyQuarantine_meets]) (simp_all add: held_def, blast)
  qed (auto intro!: q_return_meets left)
  show ?thesis
    unfolding CutTail_def Let_def assms(3,4)[symmetric] append.assoc[symmetric] assms(5)[unfolded append.assoc[symmetric], symmetric]
    by (intro meets_andthen[OF meets_update[where B = "\<lambda>_. held ok files ?A"]] meets_andthen[OF RefuseForeign_meets[where F = ?A]]
        meets_andthen[OF WriteQuarantine_meets] meets_andthen[OF trunc] meets_if[OF q_return_meets] meets_andthen[OF Holds_meets] holds)
      (auto simp: held_def aimed_def intro: left)
qed

lemma TornJournal_meets:
  assumes "named (rr_torn_segment replayed)"
  shows "meets (held ok files (\<lambda>r. untouched d f)) (TornJournal L P m d replayed)
     (\<lambda>_. held ok files (quarantine_leaves d f False)) (\<lambda>t. held ok files (quarantine_leaves d f t))"
proof -
  let ?seg = "rr_torn_segment replayed" and ?off = "rr_torn_offset replayed"
  let ?quar = "?seg @ ''.torn-'' @ to_string ?off"
  let ?U = "\<lambda>r g. untouched d f g \<and> qr_segment r = ?seg \<and> qr_offset r = ?off \<and> qr_quarantine r = ?quar"
  have p: "untouched d f g \<Longrightarrow> g (JoinPath d ?seg) = f (JoinPath d ?seg)" for g
    using torn_name_plain(1,3)[OF assms] torn_name_plain(4)[OF assms, of ?off] by (force simp: untouched_def JoinPath_inject)
  have "meets (held ok files (\<lambda>r g. ?U r g \<and> (\<forall>y. x = Inr y \<longrightarrow> g (JoinPath d ?seg) = Some y))) (CutTail L P m d replayed c)
     (\<lambda>_. held ok files (quarantine_leaves d f False)) (\<lambda>t. held ok files (quarantine_leaves d f t))"
    if "x = Inr c" "\<not> length c \<le> unat ?off" for x :: "IoError + string" and c
  proof (rule meets_weaken[OF CutTail_meets[OF assms _ refl refl refl]])
    show "length c > unat ?off" using that(2) by simp
    show "held ok files (\<lambda>r g. aimed d ?seg ?off ?quar c f r \<and> untouched d f g) r w"
      if "held ok files (\<lambda>r g. ?U r g \<and> (\<forall>y. x = Inr y \<longrightarrow> g (JoinPath d ?seg) = Some y)) r w" for r w
      using that \<open>x = Inr c\<close> aimed_at[OF assms refl, of r ?off f d c] p[of "files w"] unfolding held_def by simp
  qed
  then show ?thesis
    unfolding TornJournal_def Let_def
    by (intro meets_andthen[OF meets_update[where B = "\<lambda>_. held ok files ?U"]] meets_andthen[OF call_ReadAll] meets_rules q_return_meets)
      (auto simp: held_def leaves_untouched)
qed

lemma CleanJournal_meets:
  "meets (held ok files (\<lambda>r. untouched d f)) (CleanJournal m d replayed)
     (\<lambda>_. held ok files (quarantine_leaves d f False)) (\<lambda>t. held ok files (quarantine_leaves d f t))"
  unfolding CleanJournal_def
  by (intro meets_andthen[OF ResyncEarlierCut_meets] meets_if q_return_meets
      meets_andthen[OF meets_update[where B = "\<lambda>_. held ok files (\<lambda>r. untouched d f)"]])
    (auto simp: held_def leaves_untouched)

lemma Quarantine_Run_meets:
  "meets (\<lambda>r w. ok w \<and> files w = f) (Quarantine_Run L P m d)
     (\<lambda>_. held ok files (quarantine_leaves d f False)) (\<lambda>t. held ok files (quarantine_leaves d f t))"
proof -
  have replay: "meets (held ok files (\<lambda>r. untouched d f)) (call_noexcept (ReplayAll L P (base m) d))
      (\<lambda>a r w. named_result a \<and> held ok files (\<lambda>r. untouched d f) r w) (\<lambda>t. held ok files (quarantine_leaves d f t))"
  proof (rule meets_noexcept)
    fix r w a w' assume a: "held ok files (\<lambda>r. untouched d f) r w" "ReplayAll L P (base m) d w = (a, w')"
    have "named_result a" using ReplayJournal_named[of L P size_max "base m" d w] a(2) by (simp add: ReplayAll_def)
    then show "named_result a \<and> held ok files (\<lambda>r. untouched d f) r w'"
      using ReplayAll_quiet[OF a(2)] a(1) by (auto simp: held_def)
  qed
  show ?thesis
    unfolding Quarantine_Run_def
    by (intro JournalLock_meets[where R = "\<lambda>_. True", simplified] meets_andthen[OF replay] meets_assume meets_if CleanJournal_meets TornJournal_meets q_return_meets)
      (auto simp: leaves_untouched named_result_def)
qed

lemma QuarantineTornTail_leaves:
  assumes "ok w" "QuarantineTornTail L P m d w = Some (r, w')"
  shows "ok w' \<and> quarantine_leaves d (files w) False r (files w')"
proof -
  have run: "lands (\<lambda>_. held ok files (quarantine_leaves d (files w) False)) (\<lambda>t. held ok files (quarantine_leaves d (files w) t))
      (Quarantine_Run L P m d (new_QuarantineResult, w))"
    using Quarantine_Run_meets[of "files w" L P d] assms(1) unfolding meets_def by simp
  show ?thesis
    using run assms(2) unfolding QuarantineTornTail_def
    by (cases rule: landed_cases[of "Quarantine_Run L P m d (new_QuarantineResult, w)"])
      (auto simp: held_def quarantine_leaves_def)
qed

end

section \<open>The run ends\<close>

context finite_interrupts
begin

lemma append_loop_returns: "\<exists>r. append_loop fs h b w = Some r"
proof (induction "interrupts w + length b" arbitrary: b w rule: less_induct)
  case less
  obtain res w1 where res: "Write fs h b w = (res, w1)" by fastforce
  note i = Write_interrupts[OF res]
  show ?case
  proof (cases "b = [] \<or> wo_error res \<noteq> IoError.kNone \<and> wo_error res \<noteq> IoError.kInterrupted \<or> wo_error res \<noteq> IoError.kInterrupted \<and> wo_written res = 0
      \<or> wo_error res = IoError.kInterrupted \<and> wo_written res \<noteq> 0")
    case True
    then show ?thesis using res by (subst append_loop.simps) auto
  next
    case False
    then consider "wo_error res = IoError.kInterrupted" "wo_written res = 0" | "wo_error res = IoError.kNone" "wo_written res \<noteq> 0" by auto
    then show ?thesis
    proof cases
      case 1
      then have "\<exists>r. append_loop fs h b w1 = Some r" using less[of w1 b] i by simp
      then show ?thesis using 1 res False by (subst append_loop.simps) simp
    next
      case 2
      let ?b = "drop (min (wo_written res) (length b)) b"
      have "length ?b < length b" using 2(2) False by auto
      then have "interrupts w1 + length ?b < interrupts w + length b" using i by linarith
      then have "\<exists>r. append_loop fs h ?b w1 = Some r" by (rule less)
      then show ?thesis using 2 res False by (subst append_loop.simps) simp
    qed
  qed
qed

end

lemmas quarantine_defs = JournalLock_def CleanJournal_def ResyncEarlierCut_def ResyncCut_def TornJournal_def CutTail_def
  VerifyQuarantine_def WriteQuarantine_def AppendDurably_def RefuseForeign_def NotOwnFile_def Holds_def q_return_def Let_def

lemma QuarantineTornTail_returns:
  assumes "finite_interrupts (base m) interrupts"
  shows "\<exists>r w'. QuarantineTornTail L P m d w = Some (r, w')"
proof -
  have "append_loop (base m) h b w' \<noteq> None" for h b w'
    using finite_interrupts.append_loop_returns[OF assms, of h b w'] by auto
  note loop = answers_loop[OF this]
  have "answers (Quarantine_Run L P m d)"
    unfolding Quarantine_Run_def quarantine_defs by (intro answers_rules loop)
  then have "Quarantine_Run L P m d (new_QuarantineResult, w) \<noteq> None" unfolding answers_def by blast
  then show ?thesis
    unfolding QuarantineTornTail_def
    by (cases rule: landed_cases[of "Quarantine_Run L P m d (new_QuarantineResult, w)"]) simp_all
qed

section \<open>No byte is lost\<close>

text \<open>
  C11. Whatever file system call fails, throws or writes short (write interruptions being finitely many), the
  quarantine tool returns, and if it reports \<open>kDone\<close> the torn bytes of the segment, all those from the reported
  offset on, are in the quarantine file, the segment is what came before them and every other file is what it
  was. If it reports a failure, either nothing changed, or the quarantine file has grown by some of these bytes
  with the segment intact, or the segment is cut with all of them in the quarantine file. If it refuses or
  finds nothing to do nothing changed. In each case the lock file is not counted.
\<close>

theorem quarantine_loses_nothing:
  assumes "maintenance_store m files open_path ok" "finite_interrupts (base m) interrupts" "ok w"
  shows "\<exists>r w'. QuarantineTornTail L P m d w = Some (r, w') \<and> ok w' \<and>
    (case qr_status r of
       MaintenanceStatus.kDone \<Rightarrow> cut d r (files w) (files w')
     | MaintenanceStatus.kFailed \<Rightarrow> untouched d (files w) (files w') \<or> grown d r (files w) (files w') \<or> cut d r (files w) (files w')
     | _ \<Rightarrow> untouched d (files w) (files w'))"
proof -
  obtain r w' where run: "QuarantineTornTail L P m d w = Some (r, w')" using QuarantineTornTail_returns[OF assms(2)] by blast
  then have "ok w' \<and> quarantine_leaves d (files w) False r (files w')"
    using maintenance_store.QuarantineTornTail_leaves[OF assms(1,3)] by blast
  then show ?thesis using run by (intro exI[of _ r] exI[of _ w']) (cases "qr_status r", auto simp: quarantine_leaves_def)
qed

text \<open>A journal whose only segment is the torn record \<open>x\<close>.\<close>

definition torn_memory :: MemoryFileSystem where
  "torn_memory = empty_memory\<lparr>m_files := [(''j/journal-00000000000000000001.ndjson'', ''x'')]\<rparr>"

text \<open>The bound on the jobs is not reached, so that it need not be computed.\<close>

declare size_max_def [code del]

lemma torn_run:
  "(case QuarantineTornTail \<lparr>json_parse = (\<lambda>_. None), sha256 = (\<lambda>t. t)\<rparr> Inr memory_maintenance ''j'' torn_memory of
      None \<Rightarrow> False
    | Some (r, w) \<Rightarrow> qr_status r = MaintenanceStatus.kDone \<and> qr_segment r = ''journal-00000000000000000001.ndjson''
        \<and> qr_quarantine r = ''journal-00000000000000000001.ndjson.torn-0'' \<and> qr_offset r = 0)"
  by code_simp

theorem quarantine_loses_nothing_witness:
  "\<exists>r w'. QuarantineTornTail \<lparr>json_parse = (\<lambda>_. None), sha256 = (\<lambda>t. t)\<rparr> Inr memory_maintenance ''j'' torn_memory = Some (r, w')
     \<and> qr_status r = MaintenanceStatus.kDone
     \<and> mem_files w' ''j/journal-00000000000000000001.ndjson'' = Some []
     \<and> mem_files w' ''j/journal-00000000000000000001.ndjson.torn-0'' = Some ''x''"
proof -
  let ?L = "\<lparr>json_parse = (\<lambda>_. None), sha256 = (\<lambda>t. t)\<rparr> :: libs"
  have ok: "mem_ok torn_memory \<and> mem_honest torn_memory" by code_simp
  have int: "finite_interrupts (base memory_maintenance) mem_interrupts" using mem_int.finite_interrupts_axioms by simp
  obtain r w' where r: "QuarantineTornTail ?L Inr memory_maintenance ''j'' torn_memory = Some (r, w')"
    "case qr_status r of MaintenanceStatus.kDone \<Rightarrow> cut ''j'' r (mem_files torn_memory) (mem_files w')
      | MaintenanceStatus.kFailed \<Rightarrow> untouched ''j'' (mem_files torn_memory) (mem_files w')
          \<or> grown ''j'' r (mem_files torn_memory) (mem_files w') \<or> cut ''j'' r (mem_files torn_memory) (mem_files w')
      | _ \<Rightarrow> untouched ''j'' (mem_files torn_memory) (mem_files w')"
    using quarantine_loses_nothing[OF mem_maintenance.maintenance_store_axioms int ok, of ?L Inr "''j''"] by blast
  have s: "qr_status r = MaintenanceStatus.kDone" "qr_segment r = ''journal-00000000000000000001.ndjson''"
    "qr_quarantine r = ''journal-00000000000000000001.ndjson.torn-0''" "qr_offset r = 0"
    using torn_run r(1) by simp_all
  then have "cut ''j'' r (mem_files torn_memory) (mem_files w')" using r(2) by simp
  then have "mem_files w' ''j/journal-00000000000000000001.ndjson'' = Some []"
    "mem_files w' ''j/journal-00000000000000000001.ndjson.torn-0'' = Some ''x''"
    unfolding cut_def s Let_def by (auto simp: JoinPath_def torn_memory_def mem_files_def)
  then show ?thesis using r(1) s(1) by blast
qed

end
