(* ===== verification/Prune_Safety.thy ===== *)
theory Prune_Safety
  imports Prunable_Prefix Quarantine_Safety
begin

text \<open>
  \<^verbatim>\<open>PruneClosedPrefix\<close> only moves segments into the archive: whatever call fails or throws, the store is what it
  was with exactly the segments the result lists as moved relocated, none of them over an existing file.
\<close>

section \<open>What a run may leave\<close>

definition archive_of :: "string \<Rightarrow> string \<Rightarrow> string" where
  "archive_of d n = JoinPath (JoinPath d k_archive_directory) n"

definition relocated :: "string \<Rightarrow> string list \<Rightarrow> (string \<Rightarrow> string option) \<Rightarrow> (string \<Rightarrow> string option) \<Rightarrow> bool" where
  "relocated d ns f g \<longleftrightarrow>
     (\<forall>n \<in> set ns. f (JoinPath d n) \<noteq> None \<and> g (JoinPath d n) = None \<and> f (archive_of d n) = None \<and> g (archive_of d n) = f (JoinPath d n))
     \<and> (\<forall>x. x \<noteq> JoinPath d lock_name \<and> (\<forall>n \<in> set ns. x \<noteq> JoinPath d n \<and> x \<noteq> archive_of d n) \<longrightarrow> g x = f x)"

lemma relocated_none: "relocated d [] f g \<longleftrightarrow> untouched d f g"
  by (simp add: relocated_def untouched_def)

lemma named_facts: "named n \<Longrightarrow> plain_name n \<and> n \<noteq> lock_name"
  using torn_name_plain(1,4)[of n] by fastforce

lemma archive_of_plain: "plain_name n \<Longrightarrow> archive_of d n = JoinPath d [] @ ''archive/'' @ n"
proof -
  assume n: "plain_name n"
  have a: "plain_name ''archive''" by (simp add: plain_name_def)
  have "JoinPath (x @ ''archive'') n = x @ ''archive/'' @ n" for x
    using n by (cases n) (auto simp: JoinPath_def plain_name_def)
  then show ?thesis unfolding archive_of_def k_archive_directory_def JoinPath_plain[OF a] by simp
qed

lemma archive_apart:
  assumes "named n"
  shows "JoinPath d n \<noteq> JoinPath d lock_name" "archive_of d n \<noteq> JoinPath d lock_name"
    "named k \<Longrightarrow> archive_of d n \<noteq> JoinPath d k"
    "named k \<Longrightarrow> JoinPath d n = JoinPath d k \<longleftrightarrow> n = k" "named k \<Longrightarrow> archive_of d n = archive_of d k \<longleftrightarrow> n = k"
proof -
  have l: "plain_name lock_name" by (simp add: plain_name_def lock_name_def)
  note n = named_facts[OF assms]
  show "JoinPath d n \<noteq> JoinPath d lock_name" "archive_of d n \<noteq> JoinPath d lock_name"
    using n l by (auto simp: JoinPath_inject archive_of_plain JoinPath_plain lock_name_def)
  assume "named k"
  note k = named_facts[OF this]
  have "SLASH \<notin> set k" using k by (simp add: plain_name_def)
  then have "''archive/'' @ n \<noteq> k" by auto
  then show "archive_of d n \<noteq> JoinPath d k" using n k by (simp add: archive_of_plain JoinPath_plain)
  show "JoinPath d n = JoinPath d k \<longleftrightarrow> n = k" "archive_of d n = archive_of d k \<longleftrightarrow> n = k"
    using n k by (auto simp: JoinPath_inject archive_of_plain)
qed

lemma relocated_one_more:
  assumes "relocated d ns f g" "list_all named (n # ns)" "g (JoinPath d n) \<noteq> None" "g (archive_of d n) = None"
  shows "relocated d (ns @ [n]) f (g(JoinPath d n := None, archive_of d n := g (JoinPath d n)))"
proof -
  have nn: "named n" "\<And>k. k \<in> set ns \<Longrightarrow> named k" using assms(2) by (auto simp: list_all_iff)
  have ns: "g (JoinPath d k) = None" "f (JoinPath d k) \<noteq> None" "f (archive_of d k) = None" "g (archive_of d k) = f (JoinPath d k)"
    if "k \<in> set ns" for k using assms(1) that by (auto simp: relocated_def)
  have fresh: "n \<notin> set ns" using ns(1) assms(3) by auto
  have same: "g x = f x" if "x \<noteq> JoinPath d lock_name" "\<And>k. k \<in> set ns \<Longrightarrow> x \<noteq> JoinPath d k \<and> x \<noteq> archive_of d k" for x
    using assms(1) that by (auto simp: relocated_def)
  have other: "JoinPath d k \<noteq> JoinPath d n" "JoinPath d k \<noteq> archive_of d n" "archive_of d k \<noteq> archive_of d n" "archive_of d k \<noteq> JoinPath d n"
    if "k \<in> set ns" for k
    using archive_apart(3-5)[OF nn(1) nn(2)[OF that], of d] archive_apart(3)[OF nn(2)[OF that] nn(1), of d] fresh that by auto
  have p: "g (JoinPath d n) = f (JoinPath d n)"
    by (rule same[OF archive_apart(1)[OF nn(1)]]) (use other in metis)
  have q: "g (archive_of d n) = f (archive_of d n)"
    by (rule same[OF archive_apart(2)[OF nn(1)]]) (use other in metis)
  have "archive_of d n \<noteq> JoinPath d n" using archive_apart(3)[OF nn(1) nn(1)] .
  then show ?thesis
    using assms(3,4) p q ns other same by (auto simp: relocated_def)
qed

text \<open>
  The replay that the plan is made from, in a state that differs from \<open>f\<close> at most in the lock file, and the plan: the
  prunable prefix without the segments that an interrupted run archived.
\<close>

definition replayed_for ::
  "libs \<Rightarrow> (string \<Rightarrow> exn + string) \<Rightarrow> 'w MaintenanceFileSystem \<Rightarrow> string \<Rightarrow> ('w \<Rightarrow> string \<Rightarrow> string option)
   \<Rightarrow> (string \<Rightarrow> string option) \<Rightarrow> string list \<Rightarrow> ReplayResult \<Rightarrow> bool" where
  "replayed_for L P m d files f resumed rep \<longleftrightarrow> rr_status rep = ReplayStatus.kReplayed
     \<and> (\<exists>fs w1. (resumed = [] \<and> fs = base m \<or> fs = MergedJournalView (base m) d resumed)
          \<and> untouched d f (files w1) \<and> rep = fst (ReplayAll L P fs d w1))"

definition planned ::
  "libs \<Rightarrow> (string \<Rightarrow> exn + string) \<Rightarrow> 'w MaintenanceFileSystem \<Rightarrow> string \<Rightarrow> ('w \<Rightarrow> string \<Rightarrow> string option)
   \<Rightarrow> (string \<Rightarrow> string option) \<Rightarrow> PruneResult \<Rightarrow> bool" where
  "planned L P m d files f r \<longleftrightarrow> (\<exists>rep. replayed_for L P m d files f (pr_resumed r) rep
     \<and> pr_segments r = map rs_name (drop (length (pr_resumed r)) (take (PrunableLength rep) (rr_segments rep))))"

definition prune_leaves ::
  "libs \<Rightarrow> (string \<Rightarrow> exn + string) \<Rightarrow> 'w MaintenanceFileSystem \<Rightarrow> string \<Rightarrow> ('w \<Rightarrow> string \<Rightarrow> string option) \<Rightarrow> bool
   \<Rightarrow> (string \<Rightarrow> string option) \<Rightarrow> bool \<Rightarrow> PruneResult \<Rightarrow> (string \<Rightarrow> string option) \<Rightarrow> bool" where
  "prune_leaves L P m d files dry f thrown r g \<longleftrightarrow> relocated d (pr_moved r) f g \<and> (dry \<longrightarrow> pr_moved r = [])
     \<and> (thrown \<or> pr_status r = MaintenanceStatus.kFailed \<or> (if pr_status r = MaintenanceStatus.kDone
          then pr_moved r = pr_segments r \<and> planned L P m d files f r else pr_moved r = []))"

definition unmoved :: "string \<Rightarrow> (string \<Rightarrow> string option) \<Rightarrow> PruneResult \<Rightarrow> (string \<Rightarrow> string option) \<Rightarrow> bool" where
  "unmoved d f r g \<longleftrightarrow> pr_moved r = [] \<and> untouched d f g"

lemma finish_prune_simps [simp]:
  "pr_moved (FinishPrune s t r) = pr_moved r" "pr_status (FinishPrune s t r) = s" "pr_resumed (FinishPrune s t r) = pr_resumed r"
  "s \<noteq> MaintenanceStatus.kRefused \<Longrightarrow> s \<noteq> MaintenanceStatus.kFailed \<Longrightarrow> pr_segments (FinishPrune s t r) = pr_segments r"
  by (simp_all add: FinishPrune_def Let_def)

lemma planned_finish [simp]: "planned L P m d files f (FinishPrune MaintenanceStatus.kDone t r) = planned L P m d files f r"
  by (simp add: planned_def)

lemma unmoved_leaves:
  "unmoved d f r g \<Longrightarrow> prune_leaves L P m d files dry f True r g"
  "unmoved d f r g \<Longrightarrow> s \<noteq> MaintenanceStatus.kDone \<Longrightarrow> prune_leaves L P m d files dry f False (FinishPrune s t r) g"
  by (simp_all add: prune_leaves_def unmoved_def relocated_none)

text \<open>Some of the planned segments are in the archive.\<close>

definition moving ::
  "libs \<Rightarrow> (string \<Rightarrow> exn + string) \<Rightarrow> 'w MaintenanceFileSystem \<Rightarrow> string \<Rightarrow> ('w \<Rightarrow> string \<Rightarrow> string option)
   \<Rightarrow> (string \<Rightarrow> string option) \<Rightarrow> string list \<Rightarrow> string list \<Rightarrow> PruneResult \<Rightarrow> (string \<Rightarrow> string option) \<Rightarrow> bool" where
  "moving L P m d files f ns segments r g \<longleftrightarrow> pr_moved r = ns \<and> pr_segments r = segments \<and> planned L P m d files f r
     \<and> list_all named segments \<and> (\<exists>ms. segments = ns @ ms) \<and> relocated d ns f g"

lemma moving_leaves:
  "moving L P m d files f ns segments r g \<Longrightarrow> prune_leaves L P m d files False f True r g"
  "moving L P m d files f ns segments r g \<Longrightarrow> prune_leaves L P m d files False f False (FinishPrune MaintenanceStatus.kFailed t r) g"
  "moving L P m d files f segments segments r g \<Longrightarrow> prune_leaves L P m d files False f False (FinishPrune MaintenanceStatus.kDone t r) g"
  by (simp_all add: prune_leaves_def moving_def)

section \<open>The steps of the tool\<close>

context maintenance_store
begin

lemma p_return_meets:
  assumes "\<And>r g. F r g \<Longrightarrow> X False (FinishPrune s t r) g"
  shows "meets (held ok files F) (p_return s t) B (\<lambda>t. held ok files (X t))"
  unfolding p_return_def
  by (rule meets_andthen[where C = "\<lambda>_ r w. ok w \<and> X False r (files w)"])
    (auto intro!: meets_rules simp: held_def assms)

lemma sync_directory_meets:
  assumes "\<And>r g t. F r g \<Longrightarrow> X False (FinishPrune MaintenanceStatus.kFailed t r) g"
  shows "meets (held ok files F) (sync_directory m p) (\<lambda>_. held ok files F) (\<lambda>t. held ok files (X t))"
  unfolding sync_directory_def
  by (intro meets_andthen[OF call_quiet_noexcept] meets_rules p_return_meets assms) (auto dest: SyncDirectory_law)

lemma call_Entry:
  assumes "\<And>r g. F r g \<Longrightarrow> X True r g"
  shows "meets (held ok files F) (call (Entry m p)) (\<lambda>_. held ok files F) (\<lambda>t. held ok files (X t))"
  by (rule call_quiet) (use assms in \<open>auto dest: Entry_law\<close>)

lemma SyncEarlierMoves_meets:
  "meets (held ok files (unmoved d f)) (SyncEarlierMoves m d) (\<lambda>_. held ok files (unmoved d f))
     (\<lambda>t. held ok files (prune_leaves L P m d files dry f t))"
  unfolding SyncEarlierMoves_def Let_def
  by (intro meets_andthen[OF call_Entry] meets_andthen[OF sync_directory_meets] sync_directory_meets meets_rules p_return_meets
      unmoved_leaves) (simp_all add: held_def)

lemma checks_meet:
  assumes "\<And>r g. F r g \<Longrightarrow> unmoved d f r g"
  shows "meets (held ok files F) (check_destination m a n) (\<lambda>_. held ok files F) (\<lambda>t. held ok files (prune_leaves L P m d files dry f t))"
    "meets (held ok files F) (check_source m d n) (\<lambda>_. held ok files F) (\<lambda>t. held ok files (prune_leaves L P m d files dry f t))"
  unfolding check_destination_def check_source_def Let_def
  by (intro meets_andthen[OF call_Entry] meets_andthen[OF NotOwnFile_meets] meets_rules p_return_meets unmoved_leaves assms;
      simp add: held_def)+

lemma move_segment_meets:
  assumes "segments = ns @ n # ms"
  shows "meets (held ok files (moving L P m d files f ns segments)) (move_segment m d (JoinPath d k_archive_directory) n)
     (\<lambda>_. held ok files (moving L P m d files f (ns @ [n]) segments)) (\<lambda>t. held ok files (prune_leaves L P m d files False f t))"
proof -
  let ?M = "moving L P m d files f ns segments"
  let ?N = "\<lambda>e r w. ok w \<and> (if e = IoError.kNone then moving L P m d files f (ns @ [n]) segments (r\<lparr>pr_moved := pr_moved r @ [n]\<rparr>) (files w)
      else ?M r (files w))"
  have "?N e r w'" if "held ok files ?M r w" "RenameNoReplace m (JoinPath d n) (archive_of d n) w = (Inr e, w')" for r w e w'
  proof (cases "e = IoError.kNone")
    case True
    then have l: "ok w'" "files w (JoinPath d n) \<noteq> None" "files w (archive_of d n) = None"
        "files w' = (files w)(JoinPath d n := None, archive_of d n := files w (JoinPath d n))"
      using RenameNoReplace_law[OF that(2)] that(1) by (auto simp: held_def)
    have r: "pr_moved r = ns" "pr_segments r = segments" "planned L P m d files f r" "list_all named segments" "relocated d ns f (files w)"
      using that(1) by (auto simp: held_def moving_def)
    have "relocated d (ns @ [n]) f (files w')"
      unfolding l(4) by (rule relocated_one_more[OF r(5) _ l(2,3)]) (use r(4) assms in simp)
    then show ?thesis using True l(1) r assms by (simp add: moving_def planned_def)
  next
    case False
    then show ?thesis using RenameNoReplace_law[OF that(2)] that(1) by (simp add: held_def)
  qed
  moreover have "held ok files (prune_leaves L P m d files False f True) r w'"
    if "held ok files ?M r w" "RenameNoReplace m (JoinPath d n) (archive_of d n) w = (Inl x, w')" for r w x w'
    using RenameNoReplace_law[OF that(2)] that(1) moving_leaves(1) by (auto simp: held_def)
  ultimately have rename: "meets (held ok files ?M) (call (RenameNoReplace m (JoinPath d n) (archive_of d n))) ?N
      (\<lambda>t. held ok files (prune_leaves L P m d files False f t))"
    by (intro meets_call)
  have failed: "meets (?N e) (p_return MaintenanceStatus.kFailed t) B (\<lambda>t. held ok files (prune_leaves L P m d files False f t))"
    if "e \<noteq> IoError.kNone" for e t and B :: "unit \<Rightarrow> PruneResult \<Rightarrow> 'w \<Rightarrow> bool"
    by (rule meets_weaken[OF p_return_meets[where F = ?M and X = "prune_leaves L P m d files False f"]])
      (use that moving_leaves(2) in \<open>auto simp: held_def\<close>)
  show ?thesis
    unfolding move_segment_def Let_def archive_of_def[symmetric]
    by (intro meets_andthen[OF rename] meets_if failed
        meets_andthen[OF meets_update[where B = "\<lambda>_. held ok files (moving L P m d files f (ns @ [n]) segments)"]] sync_directory_meets meets_andthen[OF sync_directory_meets]
        moving_leaves(2)) (auto simp: held_def)
qed

lemma moves_meet:
  "segments = ns @ ms \<Longrightarrow> meets (held ok files (moving L P m d files f ns segments))
     (each (move_segment m d (JoinPath d k_archive_directory)) ms)
     (\<lambda>_. held ok files (moving L P m d files f segments segments)) (\<lambda>t. held ok files (prune_leaves L P m d files False f t))"
proof (induction ms arbitrary: ns)
  case Nil
  then show ?case by (auto intro!: meets_go)
next
  case (Cons n ms)
  have "segments = (ns @ [n]) @ ms" using Cons.prems by simp
  from meets_andthen[OF move_segment_meets[OF Cons.prems] Cons.IH[OF this]] show ?case by simp
qed

lemma Archive_meets:
  "meets (held ok files (\<lambda>r g. unmoved d f r g \<and> moving L P m d files f [] segments r g)) (Archive m d segments)
     (\<lambda>_. held ok files (moving L P m d files f segments segments)) (\<lambda>t. held ok files (prune_leaves L P m d files False f t))"
proof -
  let ?F = "\<lambda>r g. unmoved d f r g \<and> moving L P m d files f [] segments r g"
  let ?X = "prune_leaves L P m d files False f"
  have ensure: "meets (held ok files ?F) (call (EnsureDirectory (base m) p)) (\<lambda>_. held ok files ?F) (\<lambda>t. held ok files (?X t))" for p
    by (rule call_quiet) (use EnsureDirectory_law unmoved_leaves(1) in blast)+
  have move: "meets (held ok files ?F) (each (move_segment m d (JoinPath d k_archive_directory)) segments)
      (\<lambda>_. held ok files (moving L P m d files f segments segments)) (\<lambda>t. held ok files (?X t))"
    by (rule meets_weaken[OF moves_meet[of segments "[]"]]) (auto simp: held_def)
  have check: "meets (held ok files ?F) (each (check_destination m a) segments) (\<lambda>_. held ok files ?F) (\<lambda>t. held ok files (?X t))" for a
    by (intro meets_each checks_meet) blast
  show ?thesis
    unfolding Archive_def Let_def
    by (intro meets_andthen[OF call_Entry] meets_andthen[OF ensure] meets_andthen[OF sync_directory_meets] meets_andthen[OF check] move
        meets_sum meets_if p_return_meets) (auto intro: unmoved_leaves)
qed

lemma ExecutePlan_meets:
  "meets (held ok files (\<lambda>r g. unmoved d f r g \<and> planned L P m d files f r \<and> list_all named (pr_segments r)))
     (ExecutePlan L P m d dry count replayed)
     B (\<lambda>t. held ok files (prune_leaves L P m d files dry f t))"
proof -
  let ?F = "\<lambda>r g. unmoved d f r g \<and> planned L P m d files f r \<and> list_all named (pr_segments r)"
  let ?X = "prune_leaves L P m d files dry f"
  let ?G = "\<lambda>planned r g. ?F r g \<and> pr_segments r = pr_segments planned"
  let ?D = "\<lambda>planned r g. moving L P m d files f (pr_segments planned) (pr_segments planned) r g"
  have check: "meets (held ok files (?G planned)) (each (check_source m d) segments) (\<lambda>_. held ok files (?G planned)) (\<lambda>t. held ok files (?X t))"
    for planned segments by (intro meets_each checks_meet) blast
  have archive: "meets (held ok files (?G planned)) (Archive m d (pr_segments planned)) (\<lambda>_. held ok files (?D planned)) (\<lambda>t. held ok files (?X t))"
    if "\<not> dry" for planned :: PruneResult
    by (rule meets_weaken[OF Archive_meets])
      (use that in \<open>auto simp: held_def moving_def unmoved_def relocated_none\<close>)
  show ?thesis
    unfolding ExecutePlan_def
    by (intro meets_andthen[OF meets_current[where B = "\<lambda>p. held ok files (?G p)"]] meets_andthen[OF check] meets_if
        meets_andthen[OF archive] meets_andthen[OF call_quiet_noexcept[OF ReplayAll_quiet]] p_return_meets)
      (auto simp: held_def intro: unmoved_leaves moving_leaves)
qed

lemma PruneReplayed_meets:
  assumes "named_result rep"
  shows "meets (held ok files (\<lambda>r g. unmoved d f r g \<and> replayed_for L P m d files f (pr_resumed r) rep)) (PruneReplayed L P m d dry rep)
     B (\<lambda>t. held ok files (prune_leaves L P m d files dry f t))"
proof -
  let ?F = "\<lambda>r g. unmoved d f r g \<and> replayed_for L P m d files f (pr_resumed r) rep"
  let ?G = "\<lambda>s r g. ?F r g \<and> pr_resumed r = pr_resumed s"
  let ?H = "\<lambda>r g. unmoved d f r g \<and> planned L P m d files f r \<and> list_all named (pr_segments r)"
  have plan: "?H (plan_prune (PrunableLength rep) (length (pr_resumed s)) rep r) g" if "?G s r g" for s r g
  proof -
    let ?p = "plan_prune (PrunableLength rep) (length (pr_resumed s)) rep r"
    have p: "pr_segments ?p = map rs_name (drop (length (pr_resumed s)) (take (PrunableLength rep) (rr_segments rep)))"
      "pr_resumed ?p = pr_resumed r" "pr_moved ?p = pr_moved r"
      by (simp_all add: plan_prune_def Let_def)
    have "list_all named (pr_segments ?p)"
      unfolding p(1) using assms by (auto simp: list_all_iff named_result_def dest!: in_set_dropD in_set_takeD)
    then show ?thesis unfolding planned_def using that p by (auto simp: unmoved_def)
  qed
  have sync: "meets (held ok files (?G s)) (SyncEarlierMoves m d) (\<lambda>_. held ok files (unmoved d f))
      (\<lambda>t. held ok files (prune_leaves L P m d files dry f t))" for s
    by (rule meets_weaken[OF SyncEarlierMoves_meets]) (auto simp: held_def)
  let ?X = "\<lambda>t. held ok files (prune_leaves L P m d files dry f t)"
  have decline: "meets (held ok files (?G s)) (andthen (update (\<lambda>r. r\<lparr>pr_resumed := []\<rparr>)) (\<lambda>_. p_return MaintenanceStatus.kRefused t)) B ?X" for s t
    by (intro meets_andthen[OF meets_update[where B = "\<lambda>_. held ok files (unmoved d f)"]] p_return_meets unmoved_leaves(2))
      (auto simp: held_def unmoved_def)
  have idle: "meets (held ok files (?G s)) (andthen (SyncEarlierMoves m d) (\<lambda>_. p_return MaintenanceStatus.kNothingToDo t)) B ?X" for s t
    by (intro meets_andthen[OF sync] p_return_meets unmoved_leaves(2)) simp_all
  have execute: "meets (held ok files (?G s)) (andthen (update (plan_prune (PrunableLength rep) (length (pr_resumed s)) rep))
      (\<lambda>_. ExecutePlan L P m d dry (PrunableLength rep) rep)) B ?X" for s
    by (intro meets_andthen[OF meets_update[where B = "\<lambda>_. held ok files ?H"]] ExecutePlan_meets)
      (unfold held_def, use plan in blast)
  show ?thesis
    unfolding PruneReplayed_def Let_def
    by (intro meets_andthen[OF meets_update[where B = "\<lambda>_. held ok files ?F"]] meets_andthen[OF meets_current[where B = "\<lambda>s. held ok files (?G s)"]]
        meets_if decline idle execute) (auto simp: held_def unmoved_def)
qed

text \<open>The replay of the journal, alone or with archived segments in front.\<close>

lemma MergedReplay_quiet:
  assumes "ReplayAll L P (MergedJournalView (base m) d archived) d' w = (x, w')" "ok w"
  shows "ok w' \<and> files w' = files w"
proof -
  let ?Q = "\<lambda>w'. ok w' \<and> files w' = files w"
  have list: "?Q (snd (FileSystem.List (base m) p w1))" if "?Q w1" for p w1
    using List_law[of p w1] that by (metis prod.collapse)
  have read: "?Q (snd (ReadAll (base m) p w1))" if "?Q w1" for p w1
    using ReadAll_law[of p w1] that by (metis prod.collapse)
  have "?Q (snd (ReplayJournal L P size_max (MergedJournalView (base m) d archived) d' w))"
  proof (rule ReplayJournal_frame)
    fix p w1 assume q: "?Q w1"
    show "?Q (snd (FileSystem.List (MergedJournalView (base m) d archived) p w1))"
      using list[OF q, of p] by (auto simp: MergedJournalView_def split: prod.splits sum.splits)
    show "?Q (snd (ReadAll (MergedJournalView (base m) d archived) p w1))"
      using read[OF q] by (simp add: MergedJournalView_def split: option.splits)
  qed (use assms(2) in simp)
  then show ?thesis using assms(1) by (simp add: ReplayAll_def)
qed

lemma replay_meets:
  assumes "fs = base m \<or> fs = MergedJournalView (base m) d archived" "\<And>r g. F r g \<Longrightarrow> untouched d f g"
  shows "meets (held ok files F) (call_noexcept (ReplayAll L P fs d))
    (\<lambda>rep r w. (named_result rep \<and> (\<exists>w1. untouched d f (files w1) \<and> rep = fst (ReplayAll L P fs d w1))) \<and> held ok files F r w) E"
proof (rule meets_noexcept)
  fix r w rep w' assume a: "held ok files F r w" "ReplayAll L P fs d w = (rep, w')"
  have "named_result rep" using ReplayJournal_named[of L P size_max fs d w] a(2) by (simp add: ReplayAll_def)
  moreover have "untouched d f (files w) \<and> rep = fst (ReplayAll L P fs d w)" using a assms(2) by (auto simp: held_def)
  moreover have "ok w' \<and> files w' = files w"
    using assms(1) a ReplayAll_quiet MergedReplay_quiet by (auto simp: held_def)
  ultimately show "(named_result rep \<and> (\<exists>w1. untouched d f (files w1) \<and> rep = fst (ReplayAll L P fs d w1))) \<and> held ok files F r w'"
    using a(1) by (auto simp: held_def)
qed

end

text \<open>What a search for an interrupted archived gives.\<close>

definition resumes ::
  "libs \<Rightarrow> (string \<Rightarrow> exn + string) \<Rightarrow> 'w MaintenanceFileSystem \<Rightarrow> string \<Rightarrow> ('w \<Rightarrow> bool) \<Rightarrow> ('w \<Rightarrow> string \<Rightarrow> string option)
   \<Rightarrow> (string \<Rightarrow> string option) \<Rightarrow> ReplayResult option \<Rightarrow> PruneResult \<Rightarrow> 'w \<Rightarrow> bool" where
  "resumes L P m d ok files f found r w \<longleftrightarrow> held ok files (unmoved d f) r w
     \<and> (\<forall>rep. found = Some rep \<longrightarrow> named_result rep \<and> replayed_for L P m d files f (pr_resumed r) rep)"

context maintenance_store
begin

lemma try_runs_meets:
  "meets (held ok files (unmoved d f)) (try_runs L P m d before ns) (resumes L P m d ok files f)
     (\<lambda>t. held ok files (prune_leaves L P m d files dry f t))"
proof (induction ns)
  case Nil
  show ?case by (auto intro!: meets_go simp: resumes_def)
next
  case (Cons n ns)
  have found: "meets (held ok files (unmoved d f)) (andthen (update (\<lambda>r. r\<lparr>pr_resumed := archived\<rparr>)) (\<lambda>_. go (Some rep)))
      (resumes L P m d ok files f) (\<lambda>t. held ok files (prune_leaves L P m d files dry f t))"
    if "named_result rep \<and> (\<exists>w1. untouched d f (files w1) \<and> rep = fst (ReplayAll L P (MergedJournalView (base m) d archived) d w1))"
      "rr_status rep = ReplayStatus.kReplayed" for archived rep
    by (intro meets_andthen[OF meets_update[where B = "\<lambda>_ r w. held ok files (unmoved d f) r w \<and> pr_resumed r = archived"]] meets_go)
      (use that in \<open>auto simp: held_def unmoved_def resumes_def replayed_for_def\<close>)
  show ?case
    unfolding try_runs.simps Let_def
    by (rule meets_andthen[OF replay_meets[where f = f]], blast, simp add: unmoved_def, rule meets_assume,
        intro meets_if found Cons.IH meets_go) (auto simp: resumes_def)
qed

lemma ReplayInterrupted_meets:
  "meets (held ok files (unmoved d f)) (ReplayInterrupted L P m d declined) (resumes L P m d ok files f)
     (\<lambda>t. held ok files (prune_leaves L P m d files dry f t))"
proof -
  have list: "meets (held ok files (unmoved d f)) (call (FileSystem.List (base m) p)) (\<lambda>_. held ok files (unmoved d f))
      (\<lambda>t. held ok files (prune_leaves L P m d files dry f t))" for p
    by (rule call_quiet) (use List_law unmoved_leaves(1) in blast)+
  show ?thesis
    unfolding ReplayInterrupted_def Let_def prod.case
    by (intro meets_if meets_andthen[OF list] meets_sum meets_go try_runs_meets) (auto simp: resumes_def)
qed

lemma Prune_Run_meets:
  "meets (\<lambda>r w. (pr_moved r = [] \<and> pr_resumed r = []) \<and> ok w \<and> files w = f) (Prune_Run L P m d dry)
     (\<lambda>_. held ok files (\<lambda>_ _. False)) (\<lambda>t. held ok files (prune_leaves L P m d files dry f t))"
proof -
  let ?F = "\<lambda>r g. (pr_moved r = [] \<and> pr_resumed r = []) \<and> untouched d f g"
  let ?X = "\<lambda>t. held ok files (prune_leaves L P m d files dry f t)" and ?B = "\<lambda>_::unit. held ok files (\<lambda>_ _. False)"
  have direct: "meets (held ok files ?F) (PruneReplayed L P m d dry rep) ?B ?X"
    if "named_result rep \<and> (\<exists>w1. untouched d f (files w1) \<and> rep = fst (ReplayAll L P (base m) d w1))" "rr_status rep = ReplayStatus.kReplayed" for rep
    by (rule meets_weaken[OF PruneReplayed_meets]) (use that in \<open>auto simp: held_def unmoved_def replayed_for_def\<close>)
  have resumed: "meets (resumes L P m d ok files f (Some rep)) (PruneReplayed L P m d dry rep) ?B ?X" for rep
  proof (cases "named_result rep")
    case True
    show ?thesis by (rule meets_weaken[OF PruneReplayed_meets[OF True]]) (auto simp: resumes_def held_def)
  next
    case False
    then show ?thesis by (auto simp: meets_def resumes_def)
  qed
  have search: "meets (held ok files ?F) (ReplayInterrupted L P m d rep) (resumes L P m d ok files f) ?X" for rep
    by (rule meets_weaken[OF ReplayInterrupted_meets]) (auto simp: held_def unmoved_def)
  have missing: "meets (resumes L P m d ok files f None) (p_return MaintenanceStatus.kRefused t) ?B ?X" for t
    by (rule meets_weaken[OF p_return_meets[where F = "unmoved d f" and X = "prune_leaves L P m d files dry f"]])
      (auto simp: resumes_def intro: unmoved_leaves(2))
  have after: "meets (resumes L P m d ok files f a) (case a of None \<Rightarrow> p_return MaintenanceStatus.kRefused t | Some r \<Rightarrow> PruneReplayed L P m d dry r) ?B ?X"
    for a t by (cases a) (simp_all add: missing resumed)
  show ?thesis
    unfolding Prune_Run_def
    by (rule JournalLock_meets, rule p_return_meets, (auto simp: unmoved_def intro!: unmoved_leaves)[1],
        rule meets_andthen[OF replay_meets[where f = f]], blast, blast, rule meets_assume, intro meets_if meets_andthen[OF search] after direct)
      (auto simp: unmoved_def intro!: unmoved_leaves)
qed

lemma PruneClosedPrefix_leaves:
  assumes "ok w" "PruneClosedPrefix L P m d dry w = Some (r, w')"
  shows "ok w' \<and> prune_leaves L P m d files dry (files w) False r (files w')"
proof -
  have run: "lands (\<lambda>_. held ok files (\<lambda>_ _. False)) (\<lambda>t. held ok files (prune_leaves L P m d files dry (files w) t))
      (Prune_Run L P m d dry (new_PruneResult, w))"
    using Prune_Run_meets[of "files w" L P d dry] assms(1) unfolding meets_def by (simp add: new_PruneResult_def)
  show ?thesis
    using run assms(2) unfolding PruneClosedPrefix_def
    by (cases rule: landed_cases[of "Prune_Run L P m d dry (new_PruneResult, w)"])
      (auto simp: held_def prune_leaves_def)
qed

end

section \<open>The run ends\<close>

lemma try_runs_answers: "answers (try_runs L P m d before ns)"
  by (induction ns) (auto simp: Let_def intro!: answers_rules)

lemmas prune_defs = JournalLock_def ReplayInterrupted_def PruneReplayed_def ExecutePlan_def Archive_def SyncEarlierMoves_def
  check_source_def check_destination_def move_segment_def sync_directory_def NotOwnFile_def p_return_def Let_def prod.case

lemma PruneClosedPrefix_returns: "\<exists>r w'. PruneClosedPrefix L P m d dry w = Some (r, w')"
proof -
  have "answers (Prune_Run L P m d dry)"
    unfolding Prune_Run_def prune_defs by (intro answers_rules try_runs_answers)
  then have "Prune_Run L P m d dry (new_PruneResult, w) \<noteq> None" unfolding answers_def by blast
  then show ?thesis
    unfolding PruneClosedPrefix_def
    by (cases rule: landed_cases[of "Prune_Run L P m d dry (new_PruneResult, w)"]) simp_all
qed

section \<open>Only moves\<close>

text \<open>
  C12. Whatever file system call fails or throws, the prune tool returns, and the store is what it was but for the
  lock file and the segments that the result lists as moved: each of these was in the journal, is no longer there,
  and is in the archive with the same bytes, where no file had its name. A dry run moves none, and neither does a
  run that reports anything but success or a failure. On success the moved segments are those of the plan, the prunable
  prefix of the replayed journal; when the tool completes an interrupted run, the archived segments count as the
  beginning of that journal.
\<close>

theorem prune_only_moves:
  assumes "maintenance_store m files open_path ok" "ok w"
  shows "\<exists>r w'. PruneClosedPrefix L P m d dry w = Some (r, w') \<and> ok w'
    \<and> relocated d (pr_moved r) (files w) (files w') \<and> (dry \<longrightarrow> pr_moved r = [])
    \<and> (case pr_status r of
         MaintenanceStatus.kDone \<Rightarrow> pr_moved r = pr_segments r \<and> planned L P m d files (files w) r
       | MaintenanceStatus.kFailed \<Rightarrow> True
       | _ \<Rightarrow> pr_moved r = [])"
proof -
  obtain r w' where run: "PruneClosedPrefix L P m d dry w = Some (r, w')" using PruneClosedPrefix_returns[of L P m d dry w] by blast
  then have "ok w' \<and> prune_leaves L P m d files dry (files w) False r (files w')"
    using maintenance_store.PruneClosedPrefix_leaves[OF assms] by blast
  then show ?thesis using run
    by (intro exI[of _ r] exI[of _ w']) (cases "pr_status r", auto simp: prune_leaves_def)
qed

lemma idle_run:
  "(case PruneClosedPrefix \<lparr>json_parse = (\<lambda>_. None), sha256 = (\<lambda>t. t)\<rparr> Inr memory_maintenance ''j'' False empty_memory of
      None \<Rightarrow> False | Some (r, w) \<Rightarrow> pr_status r = MaintenanceStatus.kNothingToDo)"
  by code_simp

theorem prune_only_moves_witness:
  "\<exists>r w'. PruneClosedPrefix \<lparr>json_parse = (\<lambda>_. None), sha256 = (\<lambda>t. t)\<rparr> Inr memory_maintenance ''j'' False empty_memory = Some (r, w')
     \<and> pr_status r = MaintenanceStatus.kNothingToDo \<and> pr_moved r = [] \<and> relocated ''j'' [] (mem_files empty_memory) (mem_files w')"
proof -
  have ok: "mem_ok empty_memory \<and> mem_honest empty_memory" by code_simp
  let ?L = "\<lparr>json_parse = (\<lambda>_. None), sha256 = (\<lambda>t. t)\<rparr> :: libs"
  obtain r w' where r: "PruneClosedPrefix ?L Inr memory_maintenance ''j'' False empty_memory = Some (r, w')"
    "relocated ''j'' (pr_moved r) (mem_files empty_memory) (mem_files w')"
    "case pr_status r of
       MaintenanceStatus.kDone \<Rightarrow> pr_moved r = pr_segments r \<and> planned ?L Inr memory_maintenance ''j'' mem_files (mem_files empty_memory) r
     | MaintenanceStatus.kFailed \<Rightarrow> True | _ \<Rightarrow> pr_moved r = []"
    using prune_only_moves[OF mem_maintenance.maintenance_store_axioms ok, of ?L Inr "''j''" False] by blast
  have s: "pr_status r = MaintenanceStatus.kNothingToDo" using idle_run r(1) by simp
  then have "pr_moved r = []" using r(3) by simp
  then show ?thesis using r(1,2) s by auto
qed

end
