(* ===== verification/Identity_Source.thy ===== *)
theory Identity_Source
  imports Job_Types File_System
begin

text \<open>
  The issuer of identities (\<^verbatim>\<open>src/identity/identity_source.cpp\<close>). The two generators are arguments: functions on
  a state of their own that give a candidate or throw. What the code calls of the UUID library is the record \<open>uuid_lib\<close>.
  No identity is issued twice, whatever the generators yield.
\<close>

section \<open>The source\<close>

type_synonym UuidBytes = "8 word list"

record uuid_lib =
  uuid_version :: "UuidBytes \<Rightarrow> int"
  variant_rfc_4122 :: "UuidBytes \<Rightarrow> bool"
  uuid_to_string :: "UuidBytes \<Rightarrow> exn + string"

type_synonym 'g generator = "'g \<Rightarrow> (exn + UuidBytes) \<times> 'g"

record ('g, 'h) IdentitySource =
  is_v7 :: 'g
  is_v4 :: 'h
  is_capacity :: nat
  is_issued :: "UuidBytes list"

definition new_IdentitySource :: "'g option \<Rightarrow> 'h option \<Rightarrow> nat \<Rightarrow> exn + ('g, 'h) IdentitySource" where
  "new_IdentitySource v7 v4 limit =
     (case (v7, v4) of
        (Some g, Some h) \<Rightarrow> Inr \<lparr>is_v7 = g, is_v4 = h, is_capacity = limit, is_issued = []\<rparr>
      | _ \<Rightarrow> Inl (std_exception ''identity generators must be present''))"

text \<open>The remaining attempts of \<^verbatim>\<open>Next\<close>; the value \<open>None\<close> is \<^verbatim>\<open>IdentitySourceExhausted\<close>.\<close>

fun attempts ::
  "uuid_lib \<Rightarrow> 'g generator \<Rightarrow> int \<Rightarrow> nat \<Rightarrow> 'g \<Rightarrow> UuidBytes list \<Rightarrow> (exn + string option) \<times> 'g \<times> UuidBytes list" where
  "attempts U generate version 0 g issued = (Inr None, g, issued)"
| "attempts U generate version (Suc n) g issued =
     (case generate g of
        (Inl x, g1) \<Rightarrow> (Inl x, g1, issued)
      | (Inr candidate, g1) \<Rightarrow>
          if uuid_version U candidate \<noteq> version \<or> \<not> variant_rfc_4122 U candidate
          then (Inl (std_exception ''generator violated its UUID version/variant precondition''), g1, issued)
          else if candidate \<in> set issued then attempts U generate version n g1 issued
          else case uuid_to_string U candidate of
              Inl x \<Rightarrow> (Inl x, g1, issued)
            | Inr printed \<Rightarrow> (Inr (Some printed), g1, candidate # issued))"

definition Next ::
  "uuid_lib \<Rightarrow> 'g generator \<Rightarrow> int \<Rightarrow> nat \<Rightarrow> 'g \<Rightarrow> UuidBytes list \<Rightarrow> (exn + string option) \<times> 'g \<times> UuidBytes list" where
  "Next U generate version capacity g issued =
     (if length issued \<ge> capacity then (Inr None, g, issued) else attempts U generate version 8 g issued)"

definition GenerateJobSessionIdentity ::
  "uuid_lib \<Rightarrow> 'g generator \<Rightarrow> ('g, 'h) IdentitySource \<Rightarrow> (exn + Uuid option) \<times> ('g, 'h) IdentitySource" where
  "GenerateJobSessionIdentity U generate s =
     (let (result, g, issued) = Next U generate 7 (is_capacity s) (is_v7 s) (is_issued s)
      in (map_sum id (map_option Uuid) result, s\<lparr>is_v7 := g, is_issued := issued\<rparr>))"

definition GenerateWorkerIdentity ::
  "uuid_lib \<Rightarrow> 'h generator \<Rightarrow> ('g, 'h) IdentitySource \<Rightarrow> (exn + Uuid option) \<times> ('g, 'h) IdentitySource" where
  "GenerateWorkerIdentity U generate s =
     (let (result, h, issued) = Next U generate 4 (is_capacity s) (is_v4 s) (is_issued s)
      in (map_sum id (map_option Uuid) result, s\<lparr>is_v4 := h, is_issued := issued\<rparr>))"

definition GenerateLaunchOperationIdentity ::
  "uuid_lib \<Rightarrow> 'g generator \<Rightarrow> ('g, 'h) IdentitySource \<Rightarrow> (exn + StableId option) \<times> ('g, 'h) IdentitySource" where
  "GenerateLaunchOperationIdentity U generate s =
     (let (result, g, issued) = Next U generate 7 (is_capacity s) (is_v7 s) (is_issued s)
      in (map_sum id (map_option StableId) result, s\<lparr>is_v7 := g, is_issued := issued\<rparr>))"

section \<open>Requests\<close>

text \<open>The calls of the creating thread, one after the other, and the texts they obtained.\<close>

datatype request = JobSession | Worker | LaunchOperation

fun ask :: "uuid_lib \<Rightarrow> 'g generator \<Rightarrow> 'h generator \<Rightarrow> request \<Rightarrow> ('g, 'h) IdentitySource
    \<Rightarrow> (exn + string option) \<times> ('g, 'h) IdentitySource" where
  "ask U G7 G4 JobSession s = apfst (map_sum id (map_option uuid_value)) (GenerateJobSessionIdentity U G7 s)"
| "ask U G7 G4 Worker s = apfst (map_sum id (map_option uuid_value)) (GenerateWorkerIdentity U G4 s)"
| "ask U G7 G4 LaunchOperation s = apfst (map_sum id (map_option stable_value)) (GenerateLaunchOperationIdentity U G7 s)"

fun obtained :: "uuid_lib \<Rightarrow> 'g generator \<Rightarrow> 'h generator \<Rightarrow> request list \<Rightarrow> ('g, 'h) IdentitySource \<Rightarrow> (request \<times> string) list" where
  "obtained U G7 G4 [] s = []"
| "obtained U G7 G4 (q # qs) s =
     (case ask U G7 G4 q s of
        (Inr (Some t), s1) \<Rightarrow> (q, t) # obtained U G7 G4 qs s1
      | (_, s1) \<Rightarrow> obtained U G7 G4 qs s1)"

definition asked_version :: "request \<Rightarrow> int" where
  "asked_version q = (if q = Worker then 4 else 7)"

text \<open>The text \<open>t\<close> is of a candidate that was issued for \<open>q\<close>.\<close>

definition names :: "uuid_lib \<Rightarrow> request \<Rightarrow> UuidBytes \<Rightarrow> string \<Rightarrow> bool" where
  "names U q c t \<longleftrightarrow> uuid_to_string U c = Inr t \<and> uuid_version U c = asked_version q \<and> variant_rfc_4122 U c"

lemma attempts_cases:
  assumes "attempts U generate version n g issued = (result, g1, issued1)"
  shows "(case result of
      Inr (Some t) \<Rightarrow> \<exists>c. c \<notin> set issued \<and> issued1 = c # issued \<and> uuid_to_string U c = Inr t
        \<and> uuid_version U c = version \<and> variant_rfc_4122 U c
    | _ \<Rightarrow> issued1 = issued)"
  using assms
  by (induction U generate version n g issued rule: attempts.induct) (auto split: prod.splits sum.splits if_splits)

lemma ask_cases:
  assumes "ask U G7 G4 q s = (result, s1)"
  shows "is_capacity s1 = is_capacity s \<and> (case result of
      Inr (Some t) \<Rightarrow> length (is_issued s) < is_capacity s \<and> (\<exists>c. c \<notin> set (is_issued s) \<and> is_issued s1 = c # is_issued s \<and> names U q c t)
    | _ \<Rightarrow> is_issued s1 = is_issued s)"
proof -
  have n: "case r of Inr (Some t) \<Rightarrow> length i < n \<and> (\<exists>c. c \<notin> set i \<and> i1 = c # i \<and> uuid_to_string U c = Inr t
        \<and> uuid_version U c = v \<and> variant_rfc_4122 U c) | _ \<Rightarrow> i1 = i"
    if "Next U generate v n g i = (r, g1, i1)" for generate :: "'x generator" and v n g i r g1 i1
    using that attempts_cases[of U generate v 8 g i r g1 i1]
    by (auto simp: Next_def split: if_splits sum.splits option.splits)
  show ?thesis
    using assms
    by (cases q) (auto simp: GenerateJobSessionIdentity_def GenerateWorkerIdentity_def GenerateLaunchOperationIdentity_def names_def
        asked_version_def option.map_comp comp_def map_sum.comp dest!: n split: prod.splits sum.splits option.splits)
qed

lemma obtained_candidates:
  assumes "length (is_issued s) \<le> is_capacity s"
  shows "\<exists>cs. list_all2 (\<lambda>(q, t) c. names U q c t) (obtained U G7 G4 qs s) cs \<and> distinct cs
    \<and> set cs \<inter> set (is_issued s) = {} \<and> length cs + length (is_issued s) \<le> is_capacity s"
  using assms
proof (induction qs arbitrary: s)
  case (Cons q qs)
  obtain result s1 where a: "ask U G7 G4 q s = (result, s1)" by fastforce
  note c = ask_cases[OF a]
  show ?case
  proof (cases "\<exists>t. result = Inr (Some t)")
    case True
    then obtain t where t: "result = Inr (Some t)" by blast
    then obtain c where n: "length (is_issued s) < is_capacity s" "c \<notin> set (is_issued s)" "is_issued s1 = c # is_issued s"
        "names U q c t" "is_capacity s1 = is_capacity s"
      using c by auto
    then obtain cs where "list_all2 (\<lambda>(q, t) c. names U q c t) (obtained U G7 G4 qs s1) cs" "distinct cs"
        "set cs \<inter> set (is_issued s1) = {}" "length cs + length (is_issued s1) \<le> is_capacity s1"
      using Cons.IH[of s1] by auto
    then show ?thesis using a t n by (intro exI[of _ "c # cs"]) auto
  next
    case False
    then have "obtained U G7 G4 (q # qs) s = obtained U G7 G4 qs s1" "is_issued s1 = is_issued s" "is_capacity s1 = is_capacity s"
      using a c by (auto split: sum.splits option.splits)
    then show ?thesis using Cons.IH[of s1] Cons.prems by simp
  qed
qed simp

text \<open>A generator that has a new candidate of its version among the next ones is not exhausted.\<close>

lemma fresh_candidate_is_issued:
  assumes "length issued < capacity" "generate g = (Inr c, g1)" "uuid_version U c = version" "variant_rfc_4122 U c"
    "c \<notin> set issued" "uuid_to_string U c = Inr t"
  shows "Next U generate version capacity g issued = (Inr (Some t), g1, c # issued)"
  using assms by (simp add: Next_def eval_nat_numeral)

text \<open>
  C37. Whatever the generators yield or throw and however requests for Job sessions, workers and launch operations
  follow each other, a source never issues the same identity twice, also not for two different purposes, issues at most as many
  as its capacity, and each one is the text of a candidate of the RFC 4122 variant with the version of its purpose: 4 for a worker, 7 otherwise.
  The hypothesis is that the library prints different UUIDs differently.
\<close>

theorem identities_are_unique:
  assumes "\<And>a b t. uuid_to_string U a = Inr t \<Longrightarrow> uuid_to_string U b = Inr t \<Longrightarrow> a = b"
    "new_IdentitySource (Some g) (Some h) capacity = Inr s"
  shows "distinct (map snd (obtained U G7 G4 qs s)) \<and> length (obtained U G7 G4 qs s) \<le> capacity
    \<and> (\<forall>(q, t) \<in> set (obtained U G7 G4 qs s). \<exists>c. names U q c t)"
proof -
  have s: "is_issued s = []" "is_capacity s = capacity" using assms(2) by (auto simp: new_IdentitySource_def)
  obtain cs where cs: "list_all2 (\<lambda>(q, t) c. names U q c t) (obtained U G7 G4 qs s) cs" "distinct cs" "length cs \<le> capacity"
    using obtained_candidates[of s U G7 G4 qs] s by auto
  have "map (uuid_to_string U) cs = map Inr (map snd (obtained U G7 G4 qs s))"
    using cs(1) by (induction rule: list_all2_induct) (auto simp: names_def)
  moreover have "inj_on (uuid_to_string U) (set cs)"
  proof (rule inj_onI)
    fix a b assume ab: "a \<in> set cs" "b \<in> set cs" "uuid_to_string U a = uuid_to_string U b"
    then have "uuid_to_string U a \<in> set (map Inr (map snd (obtained U G7 G4 qs s)))" using calculation by (metis image_eqI list.set_map)
    then obtain t where "uuid_to_string U a = Inr t" by auto
    then show "a = b" using assms(1)[of a t b] ab(3) by simp
  qed
  ultimately have "distinct (map Inr (map snd (obtained U G7 G4 qs s)) :: (exn + string) list)"
    using cs(2) by (metis distinct_map)
  then have "distinct (map snd (obtained U G7 G4 qs s))" unfolding distinct_map by blast
  moreover have "\<exists>c. names U q c t" if "(q, t) \<in> set (obtained U G7 G4 qs s)" for q t
    using cs(1) that by (auto simp: list_all2_conv_all_nth in_set_conv_nth split: prod.splits)
  ultimately show ?thesis using cs(3) list_all2_lengthD[OF cs(1)] by auto
qed

section \<open>Witness\<close>

text \<open>A generator that repeats itself, and a capacity of two.\<close>

definition sample_uuids :: uuid_lib where
  "sample_uuids = \<lparr>uuid_version = (\<lambda>c. uint (c ! 0)), variant_rfc_4122 = (\<lambda>_. True),
     uuid_to_string = (\<lambda>c. Inr (map (\<lambda>b. char_of (unat b)) c))\<rparr>"

fun listed :: "UuidBytes list generator" where
  "listed [] = (Inl unknown_exception, [])"
| "listed (c # cs) = (Inr c, cs)"

theorem identities_are_unique_witness:
  "\<exists>s. new_IdentitySource (Some [[7, 1], [7, 1], [7, 2], [7, 3]]) (Some [[4, 1]]) 3 = Inr s
     \<and> length (obtained sample_uuids listed listed [JobSession, LaunchOperation, Worker, JobSession] s) = 3
     \<and> distinct (map snd (obtained sample_uuids listed listed [JobSession, LaunchOperation, Worker, JobSession] s))"
proof -
  have b: "map (\<lambda>b. char_of (unat (b :: 8 word)) :: char) xs = map (\<lambda>b. char_of (unat b)) ys \<Longrightarrow> xs = ys" for xs ys
  proof -
    have "inj (\<lambda>b. char_of (unat (b :: 8 word)) :: char)"
    proof (rule injI)
      fix x y :: "8 word" assume "(char_of (unat x) :: char) = char_of (unat y)"
      then have "unat x mod 256 = unat y mod 256" by (metis of_char_of)
      moreover have "unat x < 256" "unat y < 256" using unsigned_less[of x, where 'a=nat] unsigned_less[of y, where 'a=nat] by simp_all
      ultimately show "x = y" by (simp add: word_unat_eq_iff)
    qed
    then show "map (\<lambda>b. char_of (unat (b :: 8 word)) :: char) xs = map (\<lambda>b. char_of (unat b)) ys \<Longrightarrow> xs = ys"
      by (simp add: inj_map_eq_map)
  qed
  let ?s = "\<lparr>is_v7 = [[7, 1], [7, 1], [7, 2], [7, 3]], is_v4 = [[4, 1]], is_capacity = 3, is_issued = []\<rparr> :: (UuidBytes list, UuidBytes list) IdentitySource"
  have s: "new_IdentitySource (Some [[7, 1], [7, 1], [7, 2], [7, 3]]) (Some [[4, 1]]) 3 = Inr ?s" by (simp add: new_IdentitySource_def)
  have "length (obtained sample_uuids listed listed [JobSession, LaunchOperation, Worker, JobSession] ?s) = 3" by code_simp
  moreover have "distinct (map snd (obtained sample_uuids listed listed [JobSession, LaunchOperation, Worker, JobSession] ?s))"
    by (rule conjunct1[OF identities_are_unique[OF _ s]]) (use b in \<open>auto simp: sample_uuids_def\<close>)
  ultimately show ?thesis using s by blast
qed

end
