(* ===== verification/Registry.thy ===== *)
theory Registry
  imports Payload_Parsing File_System
begin

text \<open>
  The registry of applications (\<^verbatim>\<open>src/registry/registry.cpp\<close>): the strict parser with its tracker of duplicate
  members, the schema of the document, and the checks of the executables.
\<close>

section \<open>Entries\<close>

record RegisteredApplication =
  application_id :: string
  version :: string
  executable :: string
  arguments :: "string list"
  bundle_sha256 :: string

type_synonym RegistryRefusal = string

definition k_registry_limit :: nat where
  "k_registry_limit = 1048576"

definition Entry_prefix :: "nat \<Rightarrow> string" where
  "Entry_prefix index = ''registry applications['' @ dec index @ '']: ''"

definition Registry_HasOnly :: "(string \<times> json) list \<Rightarrow> string list \<Rightarrow> bool" where
  "Registry_HasOnly members names = list_all (\<lambda>(key, _). key \<in> set names) members"

definition Alphanumeric :: "char \<Rightarrow> bool" where
  "Alphanumeric c \<longleftrightarrow> (97 \<le> byte c \<and> byte c \<le> 122) \<or> (48 \<le> byte c \<and> byte c \<le> 57)"

definition Identifier :: "string \<Rightarrow> bool" where
  "Identifier s \<longleftrightarrow> s \<noteq> [] \<and> length s \<le> 128 \<and> Alphanumeric (hd s)
     \<and> list_all (\<lambda>c. Alphanumeric c \<or> c = CHR ''.'' \<or> c = CHR ''_'' \<or> c = CHR '':'' \<or> c = CHR ''-'') s"

definition Registry_Digest :: "string \<Rightarrow> bool" where
  "Registry_Digest s \<longleftrightarrow> length s = 64
     \<and> list_all (\<lambda>c. (48 \<le> byte c \<and> byte c \<le> 57) \<or> (97 \<le> byte c \<and> byte c \<le> 102)) s"

text \<open>Bytes that do not continue a code point are counted: all but \<open>0x80\<close> to \<open>0xbf\<close>.\<close>

definition StringLength :: "json \<Rightarrow> nat \<Rightarrow> nat \<Rightarrow> bool" where
  "StringLength v minimum maximum =
     (case v of
        JString s \<Rightarrow>
          (if CHR 0x00 \<in> set s then False
           else let count = length (filter (\<lambda>c. byte c div 64 \<noteq> 2) s) in minimum \<le> count \<and> count \<le> maximum)
      | _ \<Rightarrow> False)"

fun string_of :: "json \<Rightarrow> string" where
  "string_of (JString s) = s"
| "string_of _ = []"

fun first_missing :: "json \<Rightarrow> string list \<Rightarrow> string option" where
  "first_missing entry [] = None"
| "first_missing entry (field # rest) = (if json_member entry field = None then Some field else first_missing entry rest)"

definition ValidateArguments :: "string \<Rightarrow> json \<Rightarrow> RegistryRefusal option" where
  "ValidateArguments prefix v =
     (case v of
        JArray vs \<Rightarrow>
          if length vs > 64 then Some (prefix @ ''arguments must be an array of at most 64 strings'')
          else if \<not> list_all (\<lambda>a. StringLength a 0 1024) vs
          then Some (prefix @ ''invalid argument (0 to 1024 code points, no U+0000)'')
          else None
      | _ \<Rightarrow> Some (prefix @ ''arguments must be an array of at most 64 strings''))"

definition ValidateEntry :: "json \<Rightarrow> nat \<Rightarrow> RegistryRefusal option" where
  "ValidateEntry entry index =
     (let prefix = Entry_prefix index; at = (\<lambda>field. the (json_member entry field)) in
      case entry of
        JObject members \<Rightarrow>
          if \<not> Registry_HasOnly members [''application_id'', ''version'', ''executable'', ''arguments'', ''bundle_sha256'']
          then Some (prefix @ ''unknown member'')
          else (case first_missing entry [''application_id'', ''version'', ''executable'', ''bundle_sha256''] of
            Some field \<Rightarrow> Some (prefix @ ''missing '' @ field)
          | None \<Rightarrow>
              if \<not> StringLength (at ''application_id'') 1 128 \<or> \<not> Identifier (string_of (at ''application_id''))
              then Some (prefix @ ''invalid application_id'')
              else if \<not> StringLength (at ''version'') 1 128
              then Some (prefix @ ''invalid version (1 to 128 code points, no U+0000)'')
              else if \<not> StringLength (at ''executable'') 1 4096
              then Some (prefix @ ''invalid executable (1 to 4096 code points, no U+0000)'')
              else if \<not> StringLength (at ''bundle_sha256'') 64 64 \<or> \<not> Registry_Digest (string_of (at ''bundle_sha256''))
              then Some (prefix @ ''invalid bundle_sha256'')
              else (case json_member entry ''arguments'' of
                  None \<Rightarrow> None
                | Some v \<Rightarrow> ValidateArguments prefix v))
      | _ \<Rightarrow> Some (prefix @ ''entry must be an object''))"

definition application_of :: "json \<Rightarrow> RegisteredApplication" where
  "application_of entry =
     (let at = (\<lambda>field. string_of (the (json_member entry field))) in
      \<lparr>application_id = at ''application_id'', version = at ''version'', executable = at ''executable'',
       arguments = (case json_member entry ''arguments'' of Some (JArray vs) \<Rightarrow> map string_of vs | _ \<Rightarrow> []),
       bundle_sha256 = at ''bundle_sha256''\<rparr>)"

section \<open>Duplicate members\<close>

text \<open>The callbacks of the parser: the depth and the event, a key with its text.\<close>

datatype parse_event_t = object_start | object_end | array_start | array_end | key_event string | value_event

record DuplicateTracker =
  dt_keys :: "string list list"
  dt_root_key :: string
  dt_application_array :: bool
  dt_application_index :: nat
  dt_context :: "nat option"
  dt_duplicate :: "RegistryRefusal option"

definition new_DuplicateTracker :: DuplicateTracker where
  "new_DuplicateTracker = \<lparr>dt_keys = [], dt_root_key = [], dt_application_array = False, dt_application_index = 0,
     dt_context = None, dt_duplicate = None\<rparr>"

definition tracker_Prefix :: "nat option \<Rightarrow> string" where
  "tracker_Prefix context = (case context of Some index \<Rightarrow> Entry_prefix index | None \<Rightarrow> ''registry: '')"

text \<open>The last set of \<^verbatim>\<open>keys_\<close> is the head of the list.\<close>

definition tracker_Key :: "int \<Rightarrow> string \<Rightarrow> DuplicateTracker \<Rightarrow> DuplicateTracker" where
  "tracker_Key depth k t0 =
     (let t = (if depth = 1 then t0\<lparr>dt_root_key := k\<rparr> else t0);
          back = hd (dt_keys t);
          t1 = t\<lparr>dt_keys := (k # back) # tl (dt_keys t)\<rparr>
      in if k \<in> set back \<and> dt_duplicate t = None
         then t1\<lparr>dt_duplicate := Some (tracker_Prefix (dt_context t) @ ''duplicate member name'')\<rparr> else t1)"

definition tracker_StartArray :: "int \<Rightarrow> DuplicateTracker \<Rightarrow> DuplicateTracker" where
  "tracker_StartArray depth t =
     (if depth = 1 \<and> dt_root_key t = ''applications'' then t\<lparr>dt_application_array := True, dt_application_index := 0\<rparr> else t)"

definition tracker_FinishValue :: "int \<Rightarrow> parse_event_t \<Rightarrow> DuplicateTracker \<Rightarrow> DuplicateTracker" where
  "tracker_FinishValue depth event t =
     (let t1 = (if dt_application_array t \<and> depth = 2 \<and> event \<in> {object_end, array_end, value_event}
                then t\<lparr>dt_application_index := dt_application_index t + 1, dt_context := None\<rparr> else t)
      in if event = array_end \<and> depth = 1 then t1\<lparr>dt_application_array := False, dt_context := None\<rparr> else t1)"

definition tracker_call :: "int \<times> parse_event_t \<Rightarrow> DuplicateTracker \<Rightarrow> DuplicateTracker" where
  "tracker_call e t0 =
     (let (depth, event) = e;
          t = (if dt_application_array t0 \<and> depth \<ge> 2 then t0\<lparr>dt_context := Some (dt_application_index t0)\<rparr> else t0);
          t1 = (case event of
              object_start \<Rightarrow> t\<lparr>dt_keys := [] # dt_keys t\<rparr>
            | key_event k \<Rightarrow> tracker_Key depth k t
            | array_start \<Rightarrow> tracker_StartArray depth t
            | object_end \<Rightarrow> t\<lparr>dt_keys := tl (dt_keys t)\<rparr>
            | _ \<Rightarrow> t)
      in tracker_FinishValue depth event t1)"

section \<open>Loading\<close>

text \<open>
  What the loader meets outside: the callbacks of the parser with the document, or \<open>None\<close> after those before its exception; the
  files, as the bytes that a stream gives and whether it then went bad; and the regular files.
\<close>

record registry_env =
  re_parse :: "string \<Rightarrow> (int \<times> parse_event_t) list \<times> json option"
  re_stream :: "string \<Rightarrow> (string \<times> bool) option"
  re_is_regular_file :: "string \<Rightarrow> bool"
  re_sha256 :: "string \<Rightarrow> string"

definition ParseStrictRegistry :: "registry_env \<Rightarrow> string \<Rightarrow> RegistryRefusal + json" where
  "ParseStrictRegistry E bytes =
     (if CHR 0x00 \<in> set bytes then Inl ''registry: raw NUL byte''
      else if starts_with bytes [CHR 0xEF, CHR 0xBB, CHR 0xBF] then Inl ''registry: leading byte-order mark''
      else let (events, parsed) = re_parse E bytes; tracker = fold tracker_call events new_DuplicateTracker in
        case parsed of
          None \<Rightarrow> Inl (tracker_Prefix (dt_context tracker) @ ''invalid UTF-8 JSON'')
        | Some document \<Rightarrow> (case dt_duplicate tracker of Some refusal \<Rightarrow> Inl refusal | None \<Rightarrow> Inr document))"

fun validate_entries :: "nat \<Rightarrow> json list \<Rightarrow> RegistryRefusal + RegisteredApplication list" where
  "validate_entries index [] = Inr []"
| "validate_entries index (entry # entries) =
     (case ValidateEntry entry index of
        Some refusal \<Rightarrow> Inl refusal
      | None \<Rightarrow> map_sum id ((#) (application_of entry)) (validate_entries (index + 1) entries))"

definition ValidateRoot :: "json \<Rightarrow> RegistryRefusal + RegisteredApplication list" where
  "ValidateRoot document =
     (case document of
        JObject members \<Rightarrow>
          if \<not> Registry_HasOnly members [''schema'', ''applications''] then Inl ''registry: unknown member''
          else if json_member document ''schema'' \<noteq> Some (JString ''application-registry.v1'')
          then Inl ''registry: schema must be application-registry.v1''
          else (case json_member document ''applications'' of
              Some (JArray entries) \<Rightarrow>
                if length entries > 1024 then Inl ''registry: applications must be an array of 0 to 1024 entries''
                else validate_entries 0 entries
            | _ \<Rightarrow> Inl ''registry: applications must be an array of 0 to 1024 entries'')
      | _ \<Rightarrow> Inl ''registry: root must be an object'')"

definition ValidateRegistryDocument :: "registry_env \<Rightarrow> string \<Rightarrow> RegistryRefusal + RegisteredApplication list" where
  "ValidateRegistryDocument E bytes = (case ParseStrictRegistry E bytes of Inl r \<Rightarrow> Inl r | Inr document \<Rightarrow> ValidateRoot document)"

text \<open>\<^verbatim>\<open>is_absolute\<close> of a POSIX path.\<close>

definition absolute_path :: "string \<Rightarrow> bool" where
  "absolute_path path = starts_with path ''/''"

fun validate_locations :: "nat \<Rightarrow> string list \<Rightarrow> RegisteredApplication list \<Rightarrow> RegistryRefusal option" where
  "validate_locations index identifiers [] = None"
| "validate_locations index identifiers (application # applications) =
     (if application_id application \<in> set identifiers then Some (Entry_prefix index @ ''duplicate application_id'')
      else if \<not> absolute_path (executable application)
      then Some (Entry_prefix index @ ''executable must be absolute on this host'')
      else validate_locations (index + 1) (application_id application # identifiers) applications)"

definition ValidateRegistryLocations :: "RegisteredApplication list \<Rightarrow> RegistryRefusal option" where
  "ValidateRegistryLocations applications = validate_locations 0 [] applications"

definition VerifyExecutable :: "registry_env \<Rightarrow> RegisteredApplication \<Rightarrow> nat \<Rightarrow> RegistryRefusal option" where
  "VerifyExecutable E application index =
     (let prefix = Entry_prefix index; path = executable application in
      if \<not> re_is_regular_file E path then Some (prefix @ ''executable is not a readable regular file'')
      else case re_stream E path of
          None \<Rightarrow> Some (prefix @ ''cannot read executable'')
        | Some (content, bad) \<Rightarrow>
            if bad then Some (prefix @ ''cannot read executable bytes'')
            else if re_sha256 E content \<noteq> bundle_sha256 application then Some (prefix @ ''executable digest mismatch'')
            else None)"

fun verify_executables :: "registry_env \<Rightarrow> nat \<Rightarrow> RegisteredApplication list \<Rightarrow> RegistryRefusal option" where
  "verify_executables E index [] = None"
| "verify_executables E index (application # applications) =
     (case VerifyExecutable E application index of Some r \<Rightarrow> Some r | None \<Rightarrow> verify_executables E (index + 1) applications)"

definition LoadRegistry :: "registry_env \<Rightarrow> string \<Rightarrow> RegistryRefusal + RegisteredApplication list" where
  "LoadRegistry E path =
     (case re_stream E path of
        None \<Rightarrow> Inl ''registry: cannot read registry file''
      | Some (content, bad) \<Rightarrow>
          (let bytes = take (k_registry_limit + 1) content; count = length bytes in
           if count > k_registry_limit then Inl ''registry: file exceeds 1 MiB''
           else if bad then Inl ''registry: cannot read registry bytes''
           else case ValidateRegistryDocument E bytes of
               Inl r \<Rightarrow> Inl r
             | Inr applications \<Rightarrow>
                 (case ValidateRegistryLocations applications of
                    Some r \<Rightarrow> Inl r
                  | None \<Rightarrow> (case verify_executables E 0 applications of Some r \<Rightarrow> Inl r | None \<Rightarrow> Inr applications))))"

end
