(* ===== verification/Registry_Checks.thy ===== *)
theory Registry_Checks
  imports Registry
begin

text \<open>
  The tracker of duplicate members is a flat automaton over the callbacks of the parser. It finds what a recursion
  over the document finds, with the entry of the registry it lies in; and a registry that is loaded has passed every check.
\<close>

section \<open>Documents and callbacks\<close>

text \<open>The callbacks for a document, members listed with repetitions: the depth is the number of open objects and arrays.\<close>

fun events :: "int \<Rightarrow> json \<Rightarrow> (int \<times> parse_event_t) list"
  and member_events :: "int \<Rightarrow> (string \<times> json) list \<Rightarrow> (int \<times> parse_event_t) list"
  and item_events :: "int \<Rightarrow> json list \<Rightarrow> (int \<times> parse_event_t) list" where
  "events d (JObject ms) = (d, object_start) # member_events (d + 1) ms @ [(d, object_end)]"
| "events d (JArray vs) = (d, array_start) # item_events (d + 1) vs @ [(d, array_end)]"
| "events d _ = [(d, value_event)]"
| "member_events d [] = []"
| "member_events d ((k, v) # ms) = (d, key_event k) # events d v @ member_events d ms"
| "item_events d [] = []"
| "item_events d (v # vs) = events d v @ item_events d vs"

text \<open>The places of the repeated members, in the order of the text; \<open>Some i\<close> is the entry \<open>i\<close> of the applications.\<close>

fun repeated :: "nat option \<Rightarrow> json \<Rightarrow> nat option list"
  and member_repeated :: "nat option \<Rightarrow> string list \<Rightarrow> (string \<times> json) list \<Rightarrow> nat option list"
  and item_repeated :: "nat option \<Rightarrow> json list \<Rightarrow> nat option list" where
  "repeated c (JObject ms) = member_repeated c [] ms"
| "repeated c (JArray vs) = item_repeated c vs"
| "repeated c _ = []"
| "member_repeated c seen [] = []"
| "member_repeated c seen ((k, v) # ms) = (if k \<in> set seen then [c] else []) @ repeated c v @ member_repeated c (k # seen) ms"
| "item_repeated c [] = []"
| "item_repeated c (v # vs) = repeated c v @ item_repeated c vs"

fun entry_repeated :: "nat \<Rightarrow> json list \<Rightarrow> nat option list" where
  "entry_repeated i [] = []"
| "entry_repeated i (v # vs) = repeated (Some i) v @ entry_repeated (i + 1) vs"

definition value_repeated :: "string \<Rightarrow> json \<Rightarrow> nat option list" where
  "value_repeated root v = (case v of JArray vs \<Rightarrow> if root = ''applications'' then entry_repeated 0 vs else repeated None v
     | _ \<Rightarrow> repeated None v)"

fun root_member_repeated :: "string list \<Rightarrow> (string \<times> json) list \<Rightarrow> nat option list" where
  "root_member_repeated seen [] = []"
| "root_member_repeated seen ((k, v) # ms) =
     (if k \<in> set seen then [None] else []) @ value_repeated k v @ root_member_repeated (k # seen) ms"

definition root_repeated :: "json \<Rightarrow> nat option list" where
  "root_repeated j = (case j of JObject ms \<Rightarrow> root_member_repeated [] ms | _ \<Rightarrow> repeated None j)"

fun unique_members :: "json \<Rightarrow> bool" where
  "unique_members (JObject ms) \<longleftrightarrow> distinct (map fst ms) \<and> (\<forall>m \<in> set ms. unique_members (snd m))"
| "unique_members (JArray vs) \<longleftrightarrow> (\<forall>v \<in> set vs. unique_members v)"
| "unique_members _ \<longleftrightarrow> True"

lemma repeated_none:
  "repeated c j = [] \<longleftrightarrow> unique_members j"
  "member_repeated c seen ms = [] \<longleftrightarrow> distinct (map fst ms) \<and> set (map fst ms) \<inter> set seen = {} \<and> (\<forall>m \<in> set ms. unique_members (snd m))"
  "item_repeated c vs = [] \<longleftrightarrow> (\<forall>v \<in> set vs. unique_members v)"
  by (induction c j and c seen ms and c vs rule: repeated_member_repeated_item_repeated.induct) auto

lemma entry_repeated_none: "entry_repeated i vs = [] \<longleftrightarrow> (\<forall>v \<in> set vs. unique_members v)"
  by (induction vs arbitrary: i) (auto simp: repeated_none)

lemma value_repeated_none: "value_repeated k v = [] \<longleftrightarrow> unique_members v"
  by (auto simp: value_repeated_def repeated_none entry_repeated_none split: json.splits)

lemma root_member_repeated_none:
  "root_member_repeated seen ms = [] \<longleftrightarrow> distinct (map fst ms) \<and> set (map fst ms) \<inter> set seen = {} \<and> (\<forall>m \<in> set ms. unique_members (snd m))"
  by (induction seen ms rule: root_member_repeated.induct) (auto simp: value_repeated_none)

lemma root_repeated_none: "root_repeated j = [] \<longleftrightarrow> unique_members j"
  by (cases j) (simp_all add: root_repeated_def root_member_repeated_none repeated_none)

section \<open>The automaton\<close>

definition report :: "nat option list \<Rightarrow> RegistryRefusal option \<Rightarrow> RegistryRefusal option" where
  "report cs found = (case found of Some r \<Rightarrow> Some r
     | None \<Rightarrow> (case cs of [] \<Rightarrow> None | c # _ \<Rightarrow> Some (tracker_Prefix c @ ''duplicate member name'')))"

lemma report_simps [simp]: "report [] found = found" "report (a @ b) found = report b (report a found)"
  by (auto simp: report_def split: option.splits list.splits)

text \<open>Inside an entry, or outside the applications and below the members of the root, a value leaves the automaton as it was.\<close>

definition steady :: "int \<Rightarrow> DuplicateTracker \<Rightarrow> bool" where
  "steady d t \<longleftrightarrow> (if dt_application_array t then d \<ge> 3 \<and> dt_context t = Some (dt_application_index t) else d \<ge> 2 \<and> dt_context t = None)"

lemma steady_keys [simp]:
  "steady d (t\<lparr>dt_keys := ks\<rparr>) = steady d t" "steady d (t\<lparr>dt_duplicate := r\<rparr>) = steady d t"
  by (simp_all add: steady_def)

lemma steady_deeper: "steady d t \<Longrightarrow> steady (d + 1) t"
  by (auto simp: steady_def split: if_splits)

lemma steady_call:
  assumes "steady d t"
  shows "tracker_call (d, object_start) t = t\<lparr>dt_keys := [] # dt_keys t\<rparr>" "tracker_call (d, object_end) t = t\<lparr>dt_keys := tl (dt_keys t)\<rparr>"
    "tracker_call (d, array_start) t = t" "tracker_call (d, array_end) t = t" "tracker_call (d, value_event) t = t"
    "tracker_call (d, key_event k) t = t\<lparr>dt_keys := (k # hd (dt_keys t)) # tl (dt_keys t),
       dt_duplicate := report (if k \<in> set (hd (dt_keys t)) then [dt_context t] else []) (dt_duplicate t)\<rparr>"
  using assms by (auto simp: tracker_call_def tracker_Key_def tracker_StartArray_def tracker_FinishValue_def steady_def report_def Let_def
      split: if_splits option.splits)

lemma steady_fold:
  "steady d t \<Longrightarrow> fold tracker_call (events d j) t = t\<lparr>dt_duplicate := report (repeated (dt_context t) j) (dt_duplicate t)\<rparr>"
  "steady d t \<Longrightarrow> dt_keys t = seen # ks \<Longrightarrow> fold tracker_call (member_events d ms) t
     = t\<lparr>dt_keys := (rev (map fst ms) @ seen) # ks, dt_duplicate := report (member_repeated (dt_context t) seen ms) (dt_duplicate t)\<rparr>"
  "steady d t \<Longrightarrow> fold tracker_call (item_events d vs) t
     = t\<lparr>dt_duplicate := report (item_repeated (dt_context t) vs) (dt_duplicate t)\<rparr>"
proof (induction d j and d ms and d vs arbitrary: t and t seen ks and t rule: events_member_events_item_events.induct)
  case (1 d ms)
  then show ?case using steady_deeper by (simp add: steady_call)
next
  case (2 d vs)
  then show ?case using steady_deeper by (simp add: steady_call)
qed (auto simp: steady_call)

text \<open>An entry of the applications, all of them, and the value of a member of the root.\<close>

lemma entry_fold:
  assumes "dt_application_array t" "dt_context t = None"
  shows "fold tracker_call (events 2 j) t = t\<lparr>dt_application_index := dt_application_index t + 1,
    dt_duplicate := report (repeated (Some (dt_application_index t)) j) (dt_duplicate t)\<rparr>"
proof -
  let ?t = "t\<lparr>dt_context := Some (dt_application_index t)\<rparr>"
  have s: "steady 3 (?t\<lparr>dt_keys := ks\<rparr>)" "steady 3 ?t" for ks using assms by (simp_all add: steady_def)
  note defs = tracker_call_def tracker_StartArray_def tracker_FinishValue_def Let_def
  show ?thesis
  proof (cases j)
    case (JArray vs)
    have "tracker_call (2, array_start) t = ?t" using assms by (simp add: defs)
    then show ?thesis using assms JArray by (simp add: steady_fold(3)[OF s(2)] defs)
  next
    case (JObject ms)
    have "tracker_call (2, object_start) t = ?t\<lparr>dt_keys := [] # dt_keys t\<rparr>" using assms by (simp add: defs)
    then show ?thesis using assms JObject by (simp add: steady_fold(2)[OF s(1)] defs)
  qed (use assms in \<open>simp_all add: defs\<close>)
qed

lemma entries_fold:
  "dt_application_array t \<Longrightarrow> dt_context t = None \<Longrightarrow>
   fold tracker_call (item_events 2 vs) t = t\<lparr>dt_application_index := dt_application_index t + length vs,
     dt_duplicate := report (entry_repeated (dt_application_index t) vs) (dt_duplicate t)\<rparr>"
  by (induction vs arbitrary: t) (simp_all add: entry_fold)

definition outside :: "DuplicateTracker \<Rightarrow> bool" where
  "outside t \<longleftrightarrow> \<not> dt_application_array t \<and> dt_context t = None"

lemma value_fold:
  assumes "outside t"
  shows "\<exists>n. fold tracker_call (events 1 v) t = t\<lparr>dt_application_index := n,
    dt_duplicate := report (value_repeated (dt_root_key t) v) (dt_duplicate t)\<rparr>"
proof -
  have s: "steady 2 (t\<lparr>dt_keys := ks\<rparr>)" "steady 2 t" for ks using assms by (simp_all add: steady_def outside_def)
  note defs = tracker_call_def tracker_StartArray_def tracker_FinishValue_def value_repeated_def Let_def
  have same: "t\<lparr>dt_duplicate := r\<rparr> = t\<lparr>dt_application_index := dt_application_index t, dt_duplicate := r\<rparr>" for r by simp
  show ?thesis
  proof (cases v)
    case (JArray vs)
    show ?thesis
    proof (cases "dt_root_key t = ''applications''")
      case True
      let ?t = "t\<lparr>dt_application_array := True, dt_application_index := 0\<rparr>"
      have "tracker_call (1, array_start) t = ?t" using assms True by (simp add: defs outside_def)
      then have "fold tracker_call (events 1 v) t = t\<lparr>dt_application_index := length vs,
          dt_duplicate := report (value_repeated (dt_root_key t) v) (dt_duplicate t)\<rparr>"
        using JArray True assms by (simp add: entries_fold defs outside_def)
      then show ?thesis by blast
    next
      case False
      then have "fold tracker_call (events 1 v) t = t\<lparr>dt_duplicate := report (value_repeated (dt_root_key t) v) (dt_duplicate t)\<rparr>"
        using JArray assms steady_fold(3)[OF s(2)] by (simp add: defs outside_def)
      then show ?thesis using same by metis
    qed
  next
    case (JObject ms)
    have "tracker_call (1, object_start) t = t\<lparr>dt_keys := [] # dt_keys t\<rparr>" using assms by (simp add: defs outside_def)
    then have "fold tracker_call (events 1 v) t = t\<lparr>dt_duplicate := report (value_repeated (dt_root_key t) v) (dt_duplicate t)\<rparr>"
      using JObject assms by (simp add: steady_fold(2)[OF s(1)] defs outside_def)
    then show ?thesis using same by metis
  qed (use assms in \<open>auto simp: defs outside_def intro!: exI[of _ "dt_application_index t"]\<close>)
qed

lemma root_members_fold:
  assumes "outside t" "dt_keys t = [seen]"
  shows "dt_duplicate (fold tracker_call (member_events 1 ms) t) = report (root_member_repeated seen ms) (dt_duplicate t)
    \<and> outside (fold tracker_call (member_events 1 ms) t)"
  using assms
proof (induction ms arbitrary: t seen)
  case (Cons m ms)
  obtain k v where m: "m = (k, v)" by fastforce
  let ?t = "t\<lparr>dt_root_key := k, dt_keys := [k # seen], dt_duplicate := report (if k \<in> set seen then [None] else []) (dt_duplicate t)\<rparr>"
  have "tracker_call (1, key_event k) t = ?t"
    using Cons.prems by (auto simp: tracker_call_def tracker_Key_def tracker_FinishValue_def outside_def report_def Let_def split: option.splits)
  moreover obtain n where "fold tracker_call (events 1 v) ?t = ?t\<lparr>dt_application_index := n,
      dt_duplicate := report (value_repeated k v) (dt_duplicate ?t)\<rparr>"
    using value_fold[of ?t v] Cons.prems(1) by (auto simp: outside_def)
  ultimately have f: "fold tracker_call (member_events 1 (m # ms)) t = fold tracker_call (member_events 1 ms)
      (?t\<lparr>dt_application_index := n, dt_duplicate := report (value_repeated k v) (dt_duplicate ?t)\<rparr>)"
    by (simp add: m)
  show ?case
    unfolding f using Cons.IH[of "?t\<lparr>dt_application_index := n, dt_duplicate := report (value_repeated k v) (dt_duplicate ?t)\<rparr>" "k # seen"]
      Cons.prems(1) by (simp add: m outside_def)
qed simp

lemma root_items_fold:
  assumes "outside t" "dt_root_key t = []"
  shows "dt_duplicate (fold tracker_call (item_events 1 vs) t) = report (item_repeated None vs) (dt_duplicate t)
    \<and> outside (fold tracker_call (item_events 1 vs) t)"
  using assms
proof (induction vs arbitrary: t)
  case (Cons v vs)
  obtain n where f: "fold tracker_call (events 1 v) t = t\<lparr>dt_application_index := n,
      dt_duplicate := report (value_repeated [] v) (dt_duplicate t)\<rparr>"
    using value_fold[of t v] Cons.prems by auto
  have "value_repeated [] v = repeated None v" by (simp add: value_repeated_def split: json.splits)
  then show ?case
    using Cons.IH[of "t\<lparr>dt_application_index := n, dt_duplicate := report (value_repeated [] v) (dt_duplicate t)\<rparr>"] Cons.prems f
    by (simp add: outside_def)
qed simp

lemma tracker_finds:
  "dt_duplicate (fold tracker_call (events 0 j) new_DuplicateTracker) = report (root_repeated j) None"
proof -
  note defs = tracker_call_def tracker_StartArray_def tracker_FinishValue_def Let_def new_DuplicateTracker_def
  have end_keeps: "dt_duplicate (tracker_call (0, object_end) t) = dt_duplicate t" "dt_duplicate (tracker_call (0, array_end) t) = dt_duplicate t"
    for t by (simp_all add: defs)
  have start: "tracker_call (0, object_start) new_DuplicateTracker = new_DuplicateTracker\<lparr>dt_keys := [[]]\<rparr>"
    "tracker_call (0, array_start) new_DuplicateTracker = new_DuplicateTracker" by (simp_all add: defs)
  have o: "outside (new_DuplicateTracker\<lparr>dt_keys := [[]]\<rparr>)" "outside new_DuplicateTracker" "dt_root_key new_DuplicateTracker = []"
    "dt_duplicate new_DuplicateTracker = None" by (simp_all add: outside_def new_DuplicateTracker_def)
  show ?thesis
  proof (cases j)
    case (JArray vs)
    then show ?thesis using root_items_fold[OF o(2,3), of vs] by (simp add: start end_keeps root_repeated_def o)
  next
    case (JObject ms)
    then show ?thesis using root_members_fold[OF o(1), of "[]" ms] by (simp add: start end_keeps root_repeated_def o)
  qed (simp_all add: root_repeated_def defs)
qed

text \<open>
  C38. On a document without a zero byte and byte-order mark, the strict parser of the registry returns the document exactly
  if no object in it repeats a member name; otherwise it refuses and names the place of the first repetition in the text, the
  index of the entry of \<open>applications\<close> or the registry at large. The hypothesis is the sequence of callbacks that the parser makes for a document.
\<close>

theorem duplicate_members_found:
  assumes "CHR 0x00 \<notin> set bytes" "\<not> starts_with bytes [CHR 0xEF, CHR 0xBB, CHR 0xBF]"
    "re_parse E bytes = (events 0 j, Some document)"
  shows "ParseStrictRegistry E bytes = (case root_repeated j of [] \<Rightarrow> Inr document
      | c # _ \<Rightarrow> Inl (tracker_Prefix c @ ''duplicate member name''))
    \<and> (root_repeated j = [] \<longleftrightarrow> unique_members j)"
  using assms root_repeated_none[of j]
  by (cases "root_repeated j") (simp_all add: ParseStrictRegistry_def tracker_finds report_def)

section \<open>What is loaded\<close>

definition text_within :: "nat \<Rightarrow> nat \<Rightarrow> string \<Rightarrow> bool" where
  "text_within lo hi s \<longleftrightarrow> CHR 0x00 \<notin> set s \<and> lo \<le> length (filter (\<lambda>c. byte c div 64 \<noteq> 2) s) \<and> length (filter (\<lambda>c. byte c div 64 \<noteq> 2) s) \<le> hi"

lemma StringLength_iff: "StringLength v lo hi \<longleftrightarrow> (\<exists>s. v = JString s \<and> text_within lo hi s)"
  by (cases v) (auto simp: StringLength_def text_within_def Let_def)

lemma ascii_within:
  assumes "list_all (\<lambda>c. 0 < byte c \<and> byte c < 128) s"
  shows "text_within lo hi s \<longleftrightarrow> lo \<le> length s \<and> length s \<le> hi"
proof -
  have "byte c div 64 \<noteq> 2" if "c \<in> set s" for c using assms that by (auto simp: list_all_iff)
  then have "filter (\<lambda>c. byte c div 64 \<noteq> 2) s = s" by simp
  moreover have "CHR 0x00 \<notin> set s" using assms by (auto simp: list_all_iff)
  ultimately show ?thesis by (simp add: text_within_def)
qed

lemma Identifier_within: "Identifier s \<Longrightarrow> text_within 1 128 s"
proof -
  assume i: "Identifier s"
  then have "list_all (\<lambda>c. 0 < byte c \<and> byte c < 128) s"
    unfolding Identifier_def by (auto simp: list_all_iff Alphanumeric_def)
  from ascii_within[OF this, of 1 128] show "text_within 1 128 s" using i by (cases s) (auto simp: Identifier_def)
qed

lemma Digest_within: "Registry_Digest s \<Longrightarrow> text_within 64 64 s"
proof -
  assume i: "Registry_Digest s"
  then have "list_all (\<lambda>c. 0 < byte c \<and> byte c < 128) s" unfolding Registry_Digest_def by (auto simp: list_all_iff)
  from ascii_within[OF this, of 64 64] show "text_within 64 64 s" using i by (simp add: Registry_Digest_def)
qed

text \<open>An entry of the schema.\<close>

definition entry_ok :: "json \<Rightarrow> bool" where
  "entry_ok e \<longleftrightarrow> (\<exists>ms id ver exe digest. e = JObject ms
     \<and> fst ` set ms \<subseteq> {''application_id'', ''version'', ''executable'', ''arguments'', ''bundle_sha256''}
     \<and> map_of ms ''application_id'' = Some (JString id) \<and> Identifier id
     \<and> map_of ms ''version'' = Some (JString ver) \<and> text_within 1 128 ver
     \<and> map_of ms ''executable'' = Some (JString exe) \<and> text_within 1 4096 exe
     \<and> map_of ms ''bundle_sha256'' = Some (JString digest) \<and> Registry_Digest digest
     \<and> (case map_of ms ''arguments'' of None \<Rightarrow> True
        | Some a \<Rightarrow> \<exists>ss. a = JArray (map JString ss) \<and> length ss \<le> 64 \<and> list_all (text_within 0 1024) ss))"

lemma arguments_none: "ValidateArguments prefix a = None \<longleftrightarrow> (\<exists>ss. a = JArray (map JString ss) \<and> length ss \<le> 64 \<and> list_all (text_within 0 1024) ss)"
proof (cases a)
  case (JArray vs)
  have "list_all (\<lambda>a. StringLength a 0 1024) vs \<Longrightarrow> vs = map JString (map string_of vs) \<and> list_all (text_within 0 1024) (map string_of vs)"
    by (induction vs) (auto simp: StringLength_iff)
  moreover have "list_all (\<lambda>a. StringLength a 0 1024) (map JString ss) = list_all (text_within 0 1024) ss" for ss
    by (induction ss) (auto simp: StringLength_iff)
  ultimately have "list_all (\<lambda>a. StringLength a 0 1024) vs \<longleftrightarrow> (\<exists>ss. vs = map JString ss \<and> list_all (text_within 0 1024) ss)"
    by blast
  moreover have "map JString ss = map JString zs \<longleftrightarrow> ss = zs" for ss zs by (simp add: inj_def inj_map_eq_map)
  ultimately show ?thesis using JArray by (auto simp: ValidateArguments_def)
qed (auto simp: ValidateArguments_def)

lemma ValidateEntry_none: "ValidateEntry e i = None \<longleftrightarrow> entry_ok e"
proof (cases e)
  case (JObject ms)
  have only: "Registry_HasOnly ms ns \<longleftrightarrow> fst ` set ms \<subseteq> set ns" for ns by (auto simp: Registry_HasOnly_def list_all_iff)
  show ?thesis
    using JObject Identifier_within Digest_within
    by (auto simp: ValidateEntry_def entry_ok_def only json_member_def StringLength_iff arguments_none Let_def
        split: option.splits if_splits)
qed (auto simp: ValidateEntry_def entry_ok_def Let_def)

lemma validate_entries_ok: "validate_entries i es = Inr apps \<longleftrightarrow> list_all entry_ok es \<and> apps = map application_of es"
proof (induction es arbitrary: i apps)
  case (Cons e es)
  have "map_sum id ((#) a) x = Inr apps \<longleftrightarrow> (\<exists>y. x = Inr y \<and> apps = a # y)" for a x by (cases x) auto
  then show ?case using Cons.IH ValidateEntry_none[of e i] by (cases "ValidateEntry e i") auto
qed auto

lemma validate_locations_none:
  "validate_locations i ids apps = None \<longleftrightarrow> distinct (map application_id apps) \<and> set (map application_id apps) \<inter> set ids = {}
     \<and> list_all (\<lambda>a. absolute_path (executable a)) apps"
  by (induction apps arbitrary: i ids) auto

definition genuine :: "registry_env \<Rightarrow> RegisteredApplication \<Rightarrow> bool" where
  "genuine E a \<longleftrightarrow> re_is_regular_file E (executable a)
     \<and> (\<exists>content. re_stream E (executable a) = Some (content, False) \<and> re_sha256 E content = bundle_sha256 a)"

lemma verify_executables_none: "verify_executables E i apps = None \<longleftrightarrow> list_all (genuine E) apps"
proof (induction apps arbitrary: i)
  case (Cons a apps)
  have "VerifyExecutable E a i = None \<longleftrightarrow> genuine E a"
    by (auto simp: VerifyExecutable_def genuine_def Let_def split: option.splits)
  then show ?case using Cons.IH by (auto split: option.splits)
qed simp

lemma ValidateRoot_ok:
  "ValidateRoot j = Inr apps \<longleftrightarrow> (\<exists>ms es. j = JObject ms \<and> fst ` set ms \<subseteq> {''schema'', ''applications''}
     \<and> map_of ms ''schema'' = Some (JString ''application-registry.v1'') \<and> map_of ms ''applications'' = Some (JArray es)
     \<and> length es \<le> 1024 \<and> list_all entry_ok es \<and> apps = map application_of es)"
proof (cases j)
  case (JObject ms)
  have only: "Registry_HasOnly ms ns \<longleftrightarrow> fst ` set ms \<subseteq> set ns" for ns by (auto simp: Registry_HasOnly_def list_all_iff)
  show ?thesis
    using JObject
    by (auto simp: ValidateRoot_def only json_member_def validate_entries_ok split: option.splits json.splits if_splits)
qed (auto simp: ValidateRoot_def)

text \<open>
  C39. The applications that the loader publishes are exactly those of a readable registry file of at most 1 MiB whose document passes the strict
  parser and has the members and the schema of a registry, with at most 1024 entries, each well formed; their identifiers are
  distinct and every executable has an absolute path, is a regular file and has the registered digest. Every other registry is refused.
\<close>

theorem loaded_registry_is_verified:
  "LoadRegistry E path = Inr apps \<longleftrightarrow> (\<exists>content ms es.
     re_stream E path = Some (content, False) \<and> length content \<le> k_registry_limit
     \<and> ParseStrictRegistry E content = Inr (JObject ms) \<and> fst ` set ms \<subseteq> {''schema'', ''applications''}
     \<and> map_of ms ''schema'' = Some (JString ''application-registry.v1'') \<and> map_of ms ''applications'' = Some (JArray es)
     \<and> length es \<le> 1024 \<and> list_all entry_ok es \<and> apps = map application_of es
     \<and> distinct (map application_id apps) \<and> list_all (\<lambda>a. absolute_path (executable a)) apps \<and> list_all (genuine E) apps)"
proof -
  have doc: "ValidateRegistryDocument E bytes = Inr apps \<longleftrightarrow> (\<exists>j. ParseStrictRegistry E bytes = Inr j \<and> ValidateRoot j = Inr apps)" for bytes apps
    by (auto simp: ValidateRegistryDocument_def split: sum.splits)
  have "LoadRegistry E path = Inr apps \<longleftrightarrow> (\<exists>content. re_stream E path = Some (content, False) \<and> length content \<le> k_registry_limit
     \<and> ValidateRegistryDocument E content = Inr apps \<and> ValidateRegistryLocations apps = None \<and> verify_executables E 0 apps = None)"
    by (auto simp: LoadRegistry_def Let_def split: option.splits sum.splits if_splits)
  then show ?thesis
    unfolding doc ValidateRoot_ok ValidateRegistryLocations_def validate_locations_none verify_executables_none by auto
qed

section \<open>Witness\<close>

text \<open>The second entry repeats a member.\<close>

definition repeating_registry :: json where
  "repeating_registry = JObject [(''applications'', JArray [JNull, JObject [(''version'', JNull), (''version'', JNull)]])]"

definition repeating_env :: registry_env where
  "repeating_env = \<lparr>re_parse = (\<lambda>_. (events 0 repeating_registry, Some JNull)), re_stream = (\<lambda>_. None),
     re_is_regular_file = (\<lambda>_. False), re_sha256 = (\<lambda>t. t)\<rparr>"

theorem duplicate_members_found_witness:
  "ParseStrictRegistry repeating_env ''[]'' = Inl ''registry applications[1]: duplicate member name''"
proof -
  have "\<not> starts_with ''[]'' [CHR 0xEF, CHR 0xBB, CHR 0xBF]" by code_simp
  moreover have "re_parse repeating_env ''[]'' = (events 0 repeating_registry, Some JNull)" by (simp add: repeating_env_def)
  moreover have "root_repeated repeating_registry = [Some 1]" by code_simp
  moreover have "tracker_Prefix (Some 1) = ''registry applications[1]: ''" by code_simp
  ultimately show ?thesis
    using duplicate_members_found[of "''[]''" repeating_env repeating_registry JNull] by simp
qed

end
