(* ===== verification/Http_Framing.thy ===== *)
theory Http_Framing
  imports Sito_Prelude
begin

text \<open>
  The framing of chunked request bodies in \<^verbatim>\<open>src/http/http_server.cpp\<close>: the scanner that follows the chunks as the
  bytes arrive and refuses a size that does not fit in 64 bits.
\<close>

section \<open>Characters\<close>







section \<open>The line of a chunk size\<close>














section \<open>The scanner\<close>







section \<open>Sizes are exact\<close>







section \<open>Chunks are followed\<close>













end
