(* ===== verification/Spec2Isabelle.thy ===== *)
theory Spec2Isabelle
  imports Job_Lifecycle Retirement Timer_Ingress Codec_Decode Clock_Reading Journal_Recovery Prune_Safety
    Identity_Source Registry_Checks Http_Framing
begin

text \<open>
  A verification of sitometron, a controller that admits, supervises and records local compute Jobs.

  \<^bold>\<open>The program.\<close> A pure reducer (\<^verbatim>\<open>src/core/job_reducer.cpp\<close>) decides which event may happen to a
  Job and computes its next snapshot and the effects to request. A single writer envelopes every accepted
  proposal with a sequence number and a time stamp of the system clock (\<^verbatim>\<open>src/identity/system_clock.cpp\<close>),
  encodes it as one canonical JSON line (\<^verbatim>\<open>src/journal/record_codec.cpp\<close>) and commits the line to
  a journal of append-only segment files (\<^verbatim>\<open>src/journal/segment_journal.cpp\<close>). After a restart, replay
  (\<^verbatim>\<open>src/journal/replay.cpp\<close>) decodes the segments, runs every record through the reducer again and
  returns the Jobs. Both sides use the file system only through the seam of
  \<^verbatim>\<open>include/sitometron/journal/file_system.hpp\<close>.

  \<^bold>\<open>Conventions.\<close> A struct is a record, an enum a datatype whose constructors are used with the name of
  the type, \<^verbatim>\<open>std::string\<close> a \<open>string\<close> of bytes, a fixed-width integer a word, \<^verbatim>\<open>std::size_t\<close> a natural
  number where it counts the elements of a container. An enum that the code range-checks has a constructor \<open>kInvalid\<close>
  for the values outside the range. Exceptions are values \<open>Inl x\<close> of a sum, early returns are branches. The libraries that the code
  calls are arguments: \<open>json_parse\<close> and \<open>sha256\<close> in the record \<open>libs\<close>, the printing of a parsed payload in
  replay as the function \<open>P\<close>, the samples of the operating system's clocks, and the file system as the
  record \<open>FileSystem\<close> of its operations over an arbitrary state.

  \<^bold>\<open>The reducer.\<close> \<open>Job_Types\<close> has the data, \<open>Reducer_Lexical\<close> the checks of identifiers and UTF-8,
  \<open>Payload_Parsing\<close> the normalisation of untrusted payloads, \<open>Job_Reducer\<close> every \<^verbatim>\<open>Decide\<close> and \<^verbatim>\<open>Apply\<close>
  function. \<open>Job_Contract\<close> states the contract as a step relation with one rule per permitted event and shows that
  \<^verbatim>\<open>Apply\<close> accepts exactly its steps. \<open>Job_Invariant\<close> shows that steps preserve \<^verbatim>\<open>ValidSnapshot\<close> and a
  stronger invariant; \<open>Job_Lifecycle\<close> derives what holds of every run: outcomes are final, effects are
  requested once, resources are released only after the exit of the process, and every Job can finish.
  \<open>Timer_Ingress\<close> treats timer notifications, \<open>Retirement\<close> the policy of
  \<^verbatim>\<open>src/core/job_orchestrator.hpp\<close> that selects the Job to forget.

  \<^bold>\<open>The codec.\<close> \<open>Codec_Lexical\<close> and \<open>Codec_Validation\<close> have the checks, \<open>Codec_Emit\<close> the emitter,
  \<open>Codec_Records\<close> the records and \<open>Codec_Decode\<close> the strict decoder, whose reader of members is a state monad.
  The theorems show that the copies of the lexical checks agree with those of the reducer, that a record is one line
  within the size limit, that every accepted proposal encodes, and that decoding inverts encoding.

  \<^bold>\<open>The clock.\<close> \<open>System_Clock\<close> has the 64-bit arithmetic with its overflow checks and the 128-bit
  intermediate products, \<open>Clock_Reading\<close> the time stamp and the reading: exact elapsed time, monotonicity,
  and the years for which the journal accepts the time stamp.

  \<^bold>\<open>The journal.\<close> \<open>File_System\<close> states what the journal relies on as the locale \<open>append_store\<close>, and
  as \<open>readable_store\<close> for replay. \<open>Memory_File_System\<close> models the file system of the tests with its scripted faults and
  interprets both. \<open>Segment_Names\<close> and \<open>Segment_Journal\<close> have the writer. The write loop is a
  \<^verbatim>\<open>partial_function\<close>, as a file system may interrupt it for ever; the locale \<open>finite_interrupts\<close> of \<open>Journal_Commit\<close>
  gives termination. \<open>Journal_Commit\<close> shows what each result of \<^verbatim>\<open>Commit\<close> tells about the bytes,
  \<open>Journal_Layout\<close> relates the files to the list of committed events, \<open>Journal_Open\<close> shows that a commit is
  atomic and that opening continues the list.

  \<^bold>\<open>Replay.\<close> \<open>Replay\<close> has the replayer. \<open>Replay_Record\<close> shows that replaying one record is applying it;
  \<open>Replay_Journal\<close> compares the replayer, with its index and its eviction of closed Jobs, with a
  plain fold over the events, line by line and segment by segment. \<open>Journal_Recovery\<close> concludes: on any bytes the Jobs of a replay
  were reached by the reducer, and after a commit replay restores what the commit promised.

  \<^bold>\<open>Maintenance.\<close> Two offline tools of \<^verbatim>\<open>src/journal/maintenance.cpp\<close> change a stopped journal: one moves a torn tail into a
  quarantine file, the other moves segments that hold only closed Jobs into an archive. \<open>Maintenance_Flow\<close> has the
  operations they are written with, which go on, return early or throw and update the result on the way, and a Hoare logic for them
  with one rule per construct. \<open>Maintenance\<close> has the quarantine tool, \<open>Prune\<close> the other one. What they rely on of the file
  system is the locale \<open>maintenance_store\<close>, interpreted on the file system of the tests. \<open>Replay_Frame\<close> shows
  that replay changes no file and names only segments. \<open>Quarantine_Safety\<close> and \<open>Prune_Safety\<close> show that both tools return and
  lose no byte whatever call fails, \<open>Prunable_Prefix\<close> that the difference array finds the longest prefix to archive.

  \<^bold>\<open>Identities, registry, framing.\<close> \<open>Identity_Source\<close> has the issuer of identities over arbitrary generators and shows that none is
  issued twice. \<open>Registry\<close> has the loader of the registered applications, \<open>Registry_Checks\<close> shows that its tracker of duplicate
  members, a flat automaton over the callbacks of the JSON parser, agrees with a recursion over the document, and what a loaded registry has passed.
  \<open>Http_Framing\<close> has the scanner of chunked bodies of \<^verbatim>\<open>src/http/http_server.cpp\<close> and shows that it follows chunks exactly,
  however the bytes are split over the reads.

  \<^bold>\<open>Bounds.\<close> No fuel is used: the loops over texts and lists are total functions, the loop over the lines of a
  segment and the loop over the extensions of a chunk size have a measure. The theorems about a directory assume fewer than \<open>2 ^ 64\<close> records, the point where
  the sequence is exhausted and the code refuses.

  \<^bold>\<open>Not modelled.\<close> The writer thread, queues and dispatch of \<^verbatim>\<open>src/core/job_orchestrator.cpp\<close>: their behaviour is the
  interleaving of threads over mutexes and condition variables. \<^verbatim>\<open>src/journal/file_system.cpp\<close>: system calls, for which the
  locales state the assumptions. The rest of \<^verbatim>\<open>src/http\<close>, \<^verbatim>\<open>apps/sitometrond\<close> and \<^verbatim>\<open>spike\<close>: sockets, processes,
  the checks around a third-party HTTP parser, and the composition of the parts. The generators of identifiers, the JSON parser and the hash
  are third-party code and appear as arguments.
\<close>

end
